(* ===== verification/Prelude.thy ===== *)
theory Prelude
  imports Main "HOL-Library.Word" "HOL-Library.Multiset"
begin

text \<open>
  The prelude of the development: the machine types of the C++ sources, the faults a
  C++ expression can end in, the byte order helpers that every wire format of the
  server uses, the identifier probe loop that the pools of callbacks and objects share, C strings, the
  list operations of protobuf repeated fields (\<open>SwapElements\<close>, \<open>RemoveLast\<close>), and the locales
  \<open>account\<close>, \<open>ledger\<close> and \<open>registry\<close> for contracts that several components fulfil.

  Conventions. An unsigned integer of width \<open>w\<close> is a \<open>w word\<close>, so that its
  arithmetic wraps as in C++.  A C++ \<open>int\<close> is an \<open>int\<close>; a cast \<open>(int)x\<close> of an unsigned
  value is \<open>sint x\<close>, an implicit conversion of an \<open>int\<close> to an unsigned type is
  \<open>word_of_int\<close>.  A status code is an \<open>int\<close> as in the source (0 success, negative
  failure).  Logging calls have no effect on the state and are left out.
\<close>

unbundle bit_operations_syntax

section \<open>Machine types and faults\<close>

type_synonym u8 = "8 word"
type_synonym u16 = "16 word"
type_synonym u32 = "32 word"
type_synonym u64 = "64 word"
type_synonym byte = "8 word"

text \<open>What an execution can run into where the C++ has no defined result.\<close>

datatype fault =
    AssertFail
  | NullDeref
  | OutOfBounds
  | Uninitialised
  | NoReturn
  | DivByZero

text \<open>Going on after a step that may fault.\<close>

definition bindE :: "fault + 'a \<Rightarrow> ('a \<Rightarrow> fault + 'b) \<Rightarrow> fault + 'b" where
  "bindE r f = (case r of Inl e \<Rightarrow> Inl e | Inr x \<Rightarrow> f x)"

lemma bindE_simps [simp]: "bindE (Inl e) f = Inl e" "bindE (Inr x) f = f x"
  by (simp_all add: bindE_def)

lemma bindE_Inr: "bindE r f = Inr y \<longleftrightarrow> (\<exists>x. r = Inr x \<and> f x = Inr y)"
  by (cases r) simp_all

lemma bindE_Inl: "bindE r f = Inl e \<longleftrightarrow> r = Inl e \<or> (\<exists>x. r = Inr x \<and> f x = Inl e)"
  by (cases r) simp_all

lemma bindE_InrE:
  assumes "bindE r f = Inr y"
  obtains x where "r = Inr x" and "f x = Inr y"
  using assms by (auto simp: bindE_Inr)

text \<open>
  What a step that may fault establishes: its result satisfies \<open>Q\<close>, or it ends in one of the
  faults \<open>F\<close>.
\<close>

definition okE :: "fault set \<Rightarrow> ('a \<Rightarrow> bool) \<Rightarrow> fault + 'a \<Rightarrow> bool" where
  "okE F Q r = (case r of Inl e \<Rightarrow> e \<in> F | Inr x \<Rightarrow> Q x)"

lemma okE_simps [simp]: "okE F Q (Inl e) \<longleftrightarrow> e \<in> F" "okE F Q (Inr x) \<longleftrightarrow> Q x"
  by (simp_all add: okE_def)

lemma okE_bind: "okE F Q r \<Longrightarrow> (\<And>x. Q x \<Longrightarrow> okE F R (f x)) \<Longrightarrow> okE F R (bindE r f)"
  by (cases r) auto

lemma okE_mono: "okE F Q r \<Longrightarrow> F \<subseteq> F' \<Longrightarrow> (\<And>x. Q x \<Longrightarrow> R x) \<Longrightarrow> okE F' R r"
  by (cases r) auto

lemma okE_Inr: "okE F Q r \<Longrightarrow> r = Inr x \<Longrightarrow> Q x"
  by simp

lemma okE_Inl: "okE F Q r \<Longrightarrow> r = Inl e \<Longrightarrow> e \<in> F"
  by simp

text \<open>Collections of rewrite rules that the component proofs pass to the simplifier.\<close>

named_theorems wire_simps \<open>encoding followed by decoding on byte strings\<close>

section \<open>Network byte order\<close>

text \<open>
  \<open>*(uint16_t*)p = htons(x)\<close> writes the high byte first whatever the host order is;
  \<open>ntohs(*(uint16_t*)p)\<close> reads it back.
\<close>

definition put_be16 :: "u16 \<Rightarrow> byte list" where
  "put_be16 x = [ucast (drop_bit 8 x), ucast x]"

definition get_be16 :: "byte list \<Rightarrow> u16" where
  "get_be16 bs = (case bs of
     (hi # lo # _) \<Rightarrow> push_bit 8 (ucast hi) OR ucast lo
   | _ \<Rightarrow> 0)"

lemma length_put_be16 [simp, wire_simps]: "length (put_be16 x) = 2"
  by (simp add: put_be16_def)

lemma be16_join: "push_bit 8 (ucast (ucast (drop_bit 8 x) :: byte)) OR ucast (ucast x :: byte) = (x :: u16)"
  by (rule bit_word_eqI) (auto simp: bit_simps)

lemma get_put_be16 [simp, wire_simps]: "get_be16 (put_be16 x @ rest) = x"
  by (simp add: get_be16_def put_be16_def be16_join)

lemma take2_put_be16 [simp, wire_simps]: "take 2 (put_be16 x @ rest) = put_be16 x"
  by (simp add: put_be16_def)

lemma drop2_put_be16 [simp, wire_simps]: "drop 2 (put_be16 x @ rest) = rest"
  by (simp add: put_be16_def)

lemma unat_u16_less: "unat (x :: u16) < 65536"
  using unsigned_less [of x] by simp

lemma unat_u16_of_nat: "n < 65536 \<Longrightarrow> unat (of_nat n :: u16) = n"
  by (simp add: unsigned_of_nat take_bit_nat_eq_self)

text \<open>A cast to \<open>int\<close> is the identity below the sign bit.\<close>

lemma uint_u32_less_iff: "uint (x :: u32) < int n \<longleftrightarrow> unat x < n"
  by (metis of_nat_unat of_nat_less_iff)

lemma sint_u32_small:
  assumes "unat (x :: u32) < 2147483648"
  shows "sint x = int (unat x)"
proof -
  have "uint x < 2147483648" using assms uint_u32_less_iff [of x 2147483648] by simp
  moreover have "- 2147483648 \<le> uint x" by (rule order_trans [of _ 0]) simp_all
  ultimately have "signed_take_bit 31 (uint x) = uint x"
    by (simp add: signed_take_bit_int_eq_self_iff)
  then show ?thesis by (simp add: sint_uint)
qed

lemma sint_u32_big:
  assumes "2147483648 \<le> unat (x :: u32)"
  shows "sint x < 0"
proof -
  have "2147483648 \<le> uint x" using assms uint_u32_less_iff [of x 2147483648] by simp
  moreover have "uint x < 4294967296" using uint_lt2p [of x] by simp
  ultimately have "uint x div 2147483648 = 1" by simp
  then have "bit (uint x) 31" by (simp add: bit_iff_odd)
  then show ?thesis by (simp add: sint_uint)
qed

lemma unat_u32_of_int: "0 \<le> k \<Longrightarrow> k < 4294967296 \<Longrightarrow> unat (word_of_int k :: u32) = nat k"
  by (simp add: unat_eq_nat_uint unsigned_of_int take_bit_int_eq_self)

lemma unat_u32_of_nat: "n < 4294967296 \<Longrightarrow> unat (of_nat n :: u32) = n"
  by (simp add: unsigned_of_nat take_bit_nat_eq_self)

section \<open>C strings\<close>

text \<open>\<open>c_str()\<close> followed by a C string function: the characters before the first NUL.\<close>

definition c_str :: "string \<Rightarrow> string" where
  "c_str s = takeWhile (\<lambda>c. c \<noteq> CHR 0x00) s"

lemma c_str_id [simp]: "CHR 0x00 \<notin> set s \<Longrightarrow> c_str s = s"
  by (induction s) (auto simp: c_str_def)

lemma c_str_no_nul [simp]: "CHR 0x00 \<notin> set (c_str s)"
  unfolding c_str_def by (metis (mono_tags, lifting) set_takeWhileD)

lemma c_str_append_nul [simp]: "c_str (s @ CHR 0x00 # t) = c_str s"
  by (induction s) (auto simp: c_str_def)

section \<open>Searching for a free identifier\<close>

text \<open>
  The loop \<open>while (pool.find(next) != pool.end()) ++next;\<close>.  It does not return when
  every identifier is taken, so its result is an option.
\<close>

partial_function (option) probe :: "('k::{plus,one} \<Rightarrow> bool) \<Rightarrow> 'k \<Rightarrow> 'k option" where
  "probe used k = (if used k then probe used (k + 1) else Some k)"

lemma probe_free: "\<not> used k \<Longrightarrow> probe used k = Some k"
  by (simp add: probe.simps)

lemma probe_step: "used k \<Longrightarrow> probe used k = probe used (k + 1)"
  by (simp add: probe.simps)

lemma probe_Some_unused:
  assumes "probe used k = Some r"
  shows "\<not> used r"
proof (rule probe.raw_induct [where P = "\<lambda>used k r. \<not> used r", OF _ assms])
  fix f :: "('a \<Rightarrow> bool) \<Rightarrow> 'a \<Rightarrow> 'a option" and used :: "'a \<Rightarrow> bool" and k r
  assume IH: "\<And>used k r. f used k = Some r \<Longrightarrow> \<not> used r"
    and eq: "(if used k then f used (k + 1) else Some k) = Some r"
  show "\<not> used r"
    by (cases "used k") (use eq IH in auto)
qed

lemma probe_returns:
  fixes k :: "'k::semiring_1"
  assumes "\<not> used (k + of_nat n)"
  shows "\<exists>r. probe used k = Some r"
  using assms
proof (induction n arbitrary: k)
  case 0
  then show ?case by (simp add: probe_free)
next
  case (Suc n)
  show ?case
  proof (cases "used k")
    case True
    have "\<not> used ((k + 1) + of_nat n)"
      using Suc.prems by (simp add: ac_simps)
    then show ?thesis using Suc.IH [of "k + 1"] True by (simp add: probe_step)
  next
    case False
    then show ?thesis by (simp add: probe_free)
  qed
qed

text \<open>On machine words the probe wraps round, so one free identifier anywhere is enough.\<close>

lemma probe_word_returns:
  fixes k :: "'a::len word"
  assumes "\<not> used r"
  shows "\<exists>s. probe used k = Some s \<and> \<not> used s"
proof -
  have "k + of_nat (unat (r - k)) = r" by simp
  then have "\<not> used (k + of_nat (unat (r - k)))" using assms by simp
  then obtain s where "probe used k = Some s" using probe_returns by blast
  then show ?thesis using probe_Some_unused by blast
qed

lemma finite_dom_word_free:
  fixes m :: "'a::len word \<rightharpoonup> 'b"
  assumes "card (dom m) < 2 ^ LENGTH('a)"
  shows "\<exists>r. m r = None"
proof (rule ccontr)
  assume "\<nexists>r. m r = None"
  then have "dom m = UNIV" by auto
  then have "card (dom m) = 2 ^ LENGTH('a)" by (simp add: card_word)
  then show False using assms by simp
qed

text \<open>On the integers a finite set of taken identifiers is always escaped.\<close>

lemma probe_int_returns:
  fixes k :: int
  assumes "finite {i. used i}"
  shows "\<exists>s. probe used k = Some s \<and> \<not> used s"
proof -
  have "\<exists>n. \<not> used (k + of_nat n)"
  proof (rule ccontr)
    assume "\<not> (\<exists>n. \<not> used (k + of_nat n))"
    then have "range (\<lambda>n::nat. k + int n) \<subseteq> {i. used i}" by auto
    then have "finite (range (\<lambda>n::nat. k + int n))"
      using assms finite_subset by blast
    moreover have "inj (\<lambda>n::nat. k + int n)" by (simp add: inj_def)
    ultimately show False using finite_imageD infinite_UNIV_nat by blast
  qed
  then obtain n where "\<not> used (k + of_nat n)" ..
  then obtain s where "probe used k = Some s" using probe_returns by blast
  then show ?thesis using probe_Some_unused by blast
qed

section \<open>Lists\<close>

text \<open>The index of the first element with a property: the linear searches of the source.\<close>

fun find_idx :: "('a \<Rightarrow> bool) \<Rightarrow> 'a list \<Rightarrow> nat option" where
  "find_idx P [] = None"
| "find_idx P (x # xs) = (if P x then Some 0 else map_option Suc (find_idx P xs))"

lemma find_idx_None_iff [simp]: "find_idx P xs = None \<longleftrightarrow> (\<forall>x\<in>set xs. \<not> P x)"
  by (induction xs) auto

lemma find_idx_SomeD:
  "find_idx P xs = Some i \<Longrightarrow> i < length xs \<and> P (xs ! i) \<and> (\<forall>j<i. \<not> P (xs ! j))"
proof (induction xs arbitrary: i)
  case Nil
  then show ?case by simp
next
  case (Cons x xs)
  show ?case
  proof (cases "P x")
    case True
    then show ?thesis using Cons.prems by simp
  next
    case False
    then obtain k where k: "find_idx P xs = Some k" "i = Suc k" using Cons.prems by auto
    have "j < i \<Longrightarrow> \<not> P ((x # xs) ! j)" for j
      using Cons.IH [OF k(1)] False k(2) by (cases j) auto
    then show ?thesis using Cons.IH [OF k(1)] k(2) by simp
  qed
qed

lemma map_filter_cong_on:
  "(\<And>x. x \<in> set xs \<Longrightarrow> f x = g x) \<Longrightarrow> List.map_filter f xs = List.map_filter g xs"
  by (induction xs) (auto simp: List.map_filter_simps split: option.split)

text \<open>Protobuf \<open>RepeatedPtrField\<close>: swap two elements, drop the last one.\<close>

definition SwapElements :: "nat \<Rightarrow> nat \<Rightarrow> 'a list \<Rightarrow> 'a list" where
  "SwapElements i j xs = xs[i := xs ! j, j := xs ! i]"

definition swap_remove :: "nat \<Rightarrow> 'a list \<Rightarrow> 'a list" where
  "swap_remove i xs = butlast (SwapElements i (length xs - 1) xs)"

lemma length_SwapElements [simp]: "length (SwapElements i j xs) = length xs"
  by (simp add: SwapElements_def)

lemma mset_SwapElements:
  "i < length xs \<Longrightarrow> j < length xs \<Longrightarrow> mset (SwapElements i j xs) = mset xs"
  by (simp add: SwapElements_def mset_swap)

lemma length_swap_remove [simp]: "length (swap_remove i xs) = length xs - 1"
  by (simp add: swap_remove_def)

lemma mset_swap_remove:
  assumes "i < length xs"
  shows "mset (swap_remove i xs) = mset xs - {#xs ! i#}"
proof -
  let ?n = "length xs - 1"
  let ?ys = "SwapElements i ?n xs"
  have ne: "xs \<noteq> []" using assms by auto
  then have ys: "?ys \<noteq> []" by (simp add: SwapElements_def)
  have l: "last ?ys = xs ! i"
    using assms ne ys by (simp add: last_conv_nth SwapElements_def)
  have "mset (butlast ?ys) + {#last ?ys#} = mset (butlast ?ys @ [last ?ys])" by simp
  also have "\<dots> = mset ?ys" by (subst append_butlast_last_id [OF ys]) (rule refl)
  also have "\<dots> = mset xs" using assms ne by (simp add: mset_SwapElements)
  finally have "mset xs = add_mset (xs ! i) (mset (butlast ?ys))" by (simp add: l [symmetric])
  then show ?thesis by (simp add: swap_remove_def)
qed

lemma set_swap_remove_subset: "i < length xs \<Longrightarrow> set (swap_remove i xs) \<subseteq> set xs"
  by (metis mset_swap_remove diff_subset_eq_self set_mset_mono set_mset_mset)

lemma sum_list_swap_remove:
  fixes f :: "'a \<Rightarrow> 'b::ab_group_add"
  assumes "i < length xs"
  shows "sum_list (map f (swap_remove i xs)) = sum_list (map f xs) - f (xs ! i)"
proof -
  have "mset xs = add_mset (xs ! i) (mset (swap_remove i xs))"
    using assms by (simp add: mset_swap_remove)
  then have "sum_mset (image_mset f (mset xs)) = f (xs ! i) + sum_mset (image_mset f (mset (swap_remove i xs)))"
    by simp
  then show ?thesis by (simp add: sum_mset_sum_list flip: mset_map)
qed

section \<open>Sequences of calls on a stateful object\<close>

text \<open>
  A client calls the operations of an object one after the other and keeps their return
  codes; a fault ends the run.
\<close>

fun run_calls :: "('op \<Rightarrow> 's \<Rightarrow> fault + int \<times> 's) \<Rightarrow> 'op list \<Rightarrow> 's \<Rightarrow> fault + int list \<times> 's" where
  "run_calls step [] s = Inr ([], s)"
| "run_calls step (c # cs) s =
     (case step c s of
        Inl e \<Rightarrow> Inl e
      | Inr (r, s') \<Rightarrow>
          (case run_calls step cs s' of Inl e \<Rightarrow> Inl e | Inr (rs, s'') \<Rightarrow> Inr (r # rs, s'')))"

text \<open>What the calls that answered \<open>0\<close> (success) add up to.\<close>

fun booked :: "('op \<Rightarrow> 'k \<Rightarrow> int) \<Rightarrow> 'op list \<Rightarrow> int list \<Rightarrow> 'k \<Rightarrow> int" where
  "booked delta (c # cs) (r # rs) k = (if r = 0 then delta c k else 0) + booked delta cs rs k"
| "booked delta _ _ k = 0"

text \<open>
  An account: an object with a balance per key, where a call that answers \<open>0\<close> books its amount
  and every other one leaves the balances alone.  A call may end in a fault.
\<close>

locale account =
  fixes step :: "'op \<Rightarrow> 's \<Rightarrow> fault + int \<times> 's"
    and inv :: "'s \<Rightarrow> bool"
    and admissible :: "'op \<Rightarrow> bool"
    and balance :: "'s \<Rightarrow> 'k \<Rightarrow> nat"
    and delta :: "'op \<Rightarrow> 'k \<Rightarrow> int"
  assumes step_keeps: "inv s \<Longrightarrow> admissible c \<Longrightarrow> step c s = Inr (r, s') \<Longrightarrow>
    inv s' \<and> (\<forall>k. int (balance s' k) = int (balance s k) + (if r = 0 then delta c k else 0))"
begin

lemma run_keeps:
  "inv s \<Longrightarrow> list_all admissible cs \<Longrightarrow> run_calls step cs s = Inr (rs, s') \<Longrightarrow>
    inv s' \<and> (\<forall>k. int (balance s' k) = int (balance s k) + booked delta cs rs k)"
proof (induction cs arbitrary: s rs)
  case Nil
  then show ?case by simp
next
  case (Cons c cs)
  then obtain r t qs where t: "step c s = Inr (r, t)" "run_calls step cs t = Inr (qs, s')" "rs = r # qs"
    by (auto split: sum.splits)
  have "admissible c" "list_all admissible cs" using Cons.prems(2) by simp_all
  note h = step_keeps [OF Cons.prems(1) this(1) t(1)] this(2)
  from h have "inv t" by blast
  from Cons.IH [OF this h(2) t(2)] h(1) show ?case by (simp add: t(3))
qed

end

text \<open>A ledger is an account whose calls never end in a fault.\<close>

locale ledger =
  fixes step :: "'op \<Rightarrow> 's \<Rightarrow> fault + int \<times> 's"
    and inv :: "'s \<Rightarrow> bool"
    and admissible :: "'op \<Rightarrow> bool"
    and balance :: "'s \<Rightarrow> 'k \<Rightarrow> nat"
    and delta :: "'op \<Rightarrow> 'k \<Rightarrow> int"
  assumes step_books: "inv s \<Longrightarrow> admissible c \<Longrightarrow>
    \<exists>r s'. step c s = Inr (r, s') \<and> inv s'
      \<and> (\<forall>k. int (balance s' k) = int (balance s k) + (if r = 0 then delta c k else 0))"
begin

lemma run_books:
  "inv s \<Longrightarrow> list_all admissible cs \<Longrightarrow>
    \<exists>rs s'. run_calls step cs s = Inr (rs, s') \<and> length rs = length cs \<and> inv s'
      \<and> (\<forall>k. int (balance s' k) = int (balance s k) + booked delta cs rs k)"
proof (induction cs arbitrary: s)
  case Nil
  then show ?case by simp
next
  case (Cons c cs)
  obtain r t where t: "step c s = Inr (r, t)" "inv t"
    "\<forall>k. int (balance t k) = int (balance s k) + (if r = 0 then delta c k else 0)"
    using step_books [of s c] Cons.prems by auto
  obtain rs s' where u: "run_calls step cs t = Inr (rs, s')" "length rs = length cs" "inv s'"
    "\<forall>k. int (balance s' k) = int (balance t k) + booked delta cs rs k"
    using Cons.IH [OF t(2)] Cons.prems(2) by auto
  show ?case by (rule exI [of _ "r # rs"], rule exI [of _ s']) (use t u in simp)
qed

end

sublocale ledger \<subseteq> books: account step inv admissible balance delta
proof unfold_locales
  fix s c r s'
  assume a: "inv s" "admissible c" "step c s = Inr (r, s')"
  show "inv s' \<and> (\<forall>k. int (balance s' k) = int (balance s k) + (if r = 0 then delta c k else 0))"
    using step_books [OF a(1,2)] a(3) by auto
qed

section \<open>Registration tables\<close>

text \<open>
  Many components keep a table that is filled by registration calls: a new key is entered and
  answered with \<open>0\<close>, a key that is taken is refused with an error code and nothing changes.
\<close>

locale registry =
  fixes register :: "'k \<Rightarrow> 'v \<Rightarrow> 's \<Rightarrow> int \<times> 's"
    and lookup :: "'s \<Rightarrow> 'k \<Rightarrow> 'v option"
  assumes register_fresh: "lookup s k = None \<Longrightarrow>
      fst (register k v s) = 0 \<and> lookup (snd (register k v s)) = (lookup s)(k \<mapsto> v)"
    and register_taken: "lookup s k \<noteq> None \<Longrightarrow>
      fst (register k v s) \<noteq> 0 \<and> lookup (snd (register k v s)) = lookup s"
begin

definition register_all :: "('k \<times> 'v) list \<Rightarrow> 's \<Rightarrow> 's" where
  "register_all kvs s = foldl (\<lambda>s (k, v). snd (register k v s)) s kvs"

lemma first_registration_wins:
  "lookup (register_all kvs s) k = (case lookup s k of Some v \<Rightarrow> Some v | None \<Rightarrow> map_of kvs k)"
proof (induction kvs arbitrary: s)
  case Nil
  then show ?case by (simp add: register_all_def split: option.split)
next
  case (Cons kv kvs)
  obtain a v where kv: "kv = (a, v)" by fastforce
  have "register_all (kv # kvs) s = register_all kvs (snd (register a v s))"
    by (simp add: register_all_def kv)
  then show ?case
    using Cons.IH [of "snd (register a v s)"] register_fresh [of s a v] register_taken [of s a v]
    by (cases "lookup s a") (auto simp: kv split: option.split)
qed

lemma register_code: "fst (register k v s) = 0 \<longleftrightarrow> lookup s k = None"
  using register_fresh [of s k v] register_taken [of s k v] by blast

lemma register_keeps: "lookup s j = Some w \<Longrightarrow> lookup (snd (register k v s)) j = Some w"
  using register_fresh [of s k v] register_taken [of s k v] by (cases "lookup s k") auto

end

end
