(* ===== verification/EventCodes.thy ===== *)
theory EventCodes
  imports Prelude
begin

text \<open>
  The event codes of \<open>rgtd/zone/logic/EventCenter.h\<close>.  The enumeration has explicit
  bases, so the codes are their integer values; the event centre classifies a code by
  comparing it with the bounds of its range.
\<close>

definition EVENT_TEST_MIN :: int where "EVENT_TEST_MIN = 1000"
definition EVENT_TEST_TEST :: int where "EVENT_TEST_TEST = EVENT_TEST_MIN + 1"
definition EVENT_TEST_MAX :: int where "EVENT_TEST_MAX = EVENT_TEST_TEST + 1"
definition EVENT_PLAYER_MIN :: int where "EVENT_PLAYER_MIN = 2000"
definition EVENT_PLAYER_TEST :: int where "EVENT_PLAYER_TEST = EVENT_PLAYER_MIN + 1"
definition EVENT_PLAYER_SYNC_DB :: int where "EVENT_PLAYER_SYNC_DB = EVENT_PLAYER_TEST + 1"
definition EVENT_PLAYER_TASK_DONE :: int where "EVENT_PLAYER_TASK_DONE = EVENT_PLAYER_SYNC_DB + 1"
definition EVENT_PLAYER_ITEM_ADD :: int where "EVENT_PLAYER_ITEM_ADD = EVENT_PLAYER_TASK_DONE + 1"
definition EVENT_PLAYER_ITEM_DEC :: int where "EVENT_PLAYER_ITEM_DEC = EVENT_PLAYER_ITEM_ADD + 1"
definition EVENT_PLAYER_REMOVE_GRID_ITEM :: int where
  "EVENT_PLAYER_REMOVE_GRID_ITEM = EVENT_PLAYER_ITEM_DEC + 1"
definition EVENT_PLAYER_CHANGE_PACK_MAX_GRID :: int where
  "EVENT_PLAYER_CHANGE_PACK_MAX_GRID = EVENT_PLAYER_REMOVE_GRID_ITEM + 1"
definition EVENT_PLAYER_MAX :: int where
  "EVENT_PLAYER_MAX = EVENT_PLAYER_CHANGE_PACK_MAX_GRID + 1"

lemmas event_code_defs =
  EVENT_TEST_MIN_def EVENT_TEST_TEST_def EVENT_TEST_MAX_def EVENT_PLAYER_MIN_def
  EVENT_PLAYER_TEST_def EVENT_PLAYER_SYNC_DB_def EVENT_PLAYER_TASK_DONE_def
  EVENT_PLAYER_ITEM_ADD_def EVENT_PLAYER_ITEM_DEC_def EVENT_PLAYER_REMOVE_GRID_ITEM_def
  EVENT_PLAYER_CHANGE_PACK_MAX_GRID_def EVENT_PLAYER_MAX_def

text \<open>A call of \<open>EventCenter::FireEvent\<close> as its callers make it.\<close>

record fire_call =
  fc_event :: int
  fc_receiver :: "string option"
  fc_seconds :: int
  fc_param :: u64

end
