(* ===== verification/Knapsack.thy ===== *)
theory Knapsack
  imports EventCodes
begin

text \<open>
  The player's bag: \<open>rgtd/zone/logic/PlayerKnapsackLogic.cpp\<close> on the messages
  \<open>RoleItem\<close>, \<open>RolePackGrid\<close> and \<open>RolePackage\<close> of \<open>proto/db/Role.proto\<close>.

  The state holds the package of the role, the dirty counter that
  \<open>PlayerAgent::MutableRoleData\<close> bumps at every access (reads included), and the calls
  of \<open>EventCenter::FireEvent\<close> made so far.  The handlers of those events never write the
  package (\<open>PlayerKnapsackLogic::OnEvent\<close> is empty), so recording the calls is enough.
\<close>

section \<open>Data\<close>

record RoleItem =
  item_id :: u32
  item_level :: "u32 option"
  item_gid :: "u32 option"

record RolePackGrid =
  grid_item :: RoleItem
  grid_num :: u32
  grid_pos :: u32

record RolePackage =
  maxgrid :: u32
  grids :: "RolePackGrid list"
  nextgid :: u32

record Knapsack =
  pack :: RolePackage
  m_iDirty :: int
  fired :: "fire_call list"

text \<open>A message as protobuf creates it, before any field is set.\<close>

definition default_item :: RoleItem where
  "default_item = \<lparr>item_id = 0, item_level = None, item_gid = None\<rparr>"

definition default_grid :: RolePackGrid where
  "default_grid = \<lparr>grid_item = default_item, grid_num = 0, grid_pos = 0\<rparr>"

text \<open>The stacking limit that the source fixes to one (\<open>todo read from cfg\<close>).\<close>

definition iMaxTiled :: int where "iMaxTiled = 1"

section \<open>Operations\<close>

definition GetPackInfo :: "Knapsack \<Rightarrow> RolePackage \<times> Knapsack" where
  "GetPackInfo s = (pack s, s\<lparr>m_iDirty := m_iDirty s + 1\<rparr>)"

definition Knapsack_FireEvent :: "int \<Rightarrow> u64 \<Rightarrow> Knapsack \<Rightarrow> Knapsack" where
  "Knapsack_FireEvent ev param s =
     s\<lparr>fired := fired s @ [\<lparr>fc_event = ev, fc_receiver = None, fc_seconds = 0, fc_param = param\<rparr>]\<rparr>"

definition Knapsack_OnInitBirthPlayer :: "Knapsack \<Rightarrow> Knapsack" where
  "Knapsack_OnInitBirthPlayer s =
     (let (p, s) = GetPackInfo s in s\<lparr>pack := p\<lparr>maxgrid := 10\<rparr>\<rparr>)"

definition CreateItem :: "RoleItem \<Rightarrow> Knapsack \<Rightarrow> int \<times> RoleItem \<times> Knapsack" where
  "CreateItem item s =
     (let (p, s) = GetPackInfo s; gid = nextgid p
      in (0, item\<lparr>item_gid := Some gid\<rparr>, s\<lparr>pack := p\<lparr>nextgid := gid + 1\<rparr>\<rparr>))"

definition IsGridFill :: "u32 \<Rightarrow> Knapsack \<Rightarrow> bool \<times> Knapsack" where
  "IsGridFill pos s =
     (let (p, s) = GetPackInfo s
      in if pos \<ge> maxgrid p then (True, s)
         else (list_ex (\<lambda>g. grid_pos g = pos \<and> grid_num g > 0) (grids p), s))"

lemma IsGridFill_state: "snd (IsGridFill pos s) = s\<lparr>m_iDirty := m_iDirty s + 1\<rparr>"
  by (simp add: IsGridFill_def GetPackInfo_def Let_def)

lemma IsGridFill_pack: "IsGridFill pos s = (b, s') \<Longrightarrow> pack s' = pack s"
  using IsGridFill_state [of pos s] by simp

text \<open>The \<open>while\<close> loop of \<open>GetFreeGridPos\<close>.\<close>

function GetFreeGridPos_loop :: "int \<Rightarrow> Knapsack \<Rightarrow> int \<times> Knapsack" where
  "GetFreeGridPos_loop pos s =
     (if pos < sint (maxgrid (pack s)) then
        (case IsGridFill (word_of_int pos) s of
           (True, s') \<Rightarrow> GetFreeGridPos_loop (pos + 1) s'
         | (False, s') \<Rightarrow> (pos, s'))
      else (pos, s))"
  by pat_completeness auto
termination
proof (relation "measure (\<lambda>(pos, s). nat (sint (maxgrid (pack s)) - pos))", goal_cases)
  case 1
  show ?case by simp
next
  case (2 pos s x s')
  then have "pack s' = pack s" using IsGridFill_pack [of "word_of_int pos" s x s'] by simp
  then show ?case using 2(1) by simp
qed

declare GetFreeGridPos_loop.simps [simp del]

definition GetFreeGridPos :: "Knapsack \<Rightarrow> int \<times> Knapsack" where
  "GetFreeGridPos s =
     (let (p, s) = GetPackInfo s;
          (pos, s) = GetFreeGridPos_loop 1 s
      in if pos \<ge> sint (maxgrid p) then (-1, s) else (pos, s))"

text \<open>The capacity for an item: room in its own grids plus the grids not in use.\<close>

fun capacity_sum :: "u32 \<Rightarrow> RolePackGrid list \<Rightarrow> int" where
  "capacity_sum iid [] = 0"
| "capacity_sum iid (g # gs) =
     (let iOneFill = sint (grid_num g); iOneFree = iMaxTiled - iOneFill
      in (if iid = item_id (grid_item g) \<and> iOneFree > 0 then iOneFree else 0)
         + capacity_sum iid gs)"

definition GetItemCapacity :: "u32 \<Rightarrow> Knapsack \<Rightarrow> fault + int \<times> Knapsack" where
  "GetItemCapacity iid s =
     (let (p, s) = GetPackInfo s;
          iNum = capacity_sum iid (grids p);
          nEmptyGrids = sint (maxgrid p - of_nat (length (grids p)))
      in if nEmptyGrids \<ge> 0 then Inr (iNum + nEmptyGrids * iMaxTiled, s)
         else Inl AssertFail)"

text \<open>First loop of \<open>PutItem\<close>: top up the grids that already hold the item.\<close>

fun PutItem_fill :: "u32 \<Rightarrow> u32 \<Rightarrow> RolePackGrid list \<Rightarrow> u32 \<times> RolePackGrid list" where
  "PutItem_fill iid num [] = (num, [])"
| "PutItem_fill iid num (g # gs) =
     (let iOneFill = sint (grid_num g); iOneFree = iMaxTiled - iOneFill;
          (num, g) =
            (if iid = item_id (grid_item g) \<and> iOneFree > 0 then
               if sint num > iOneFree
               then (num - word_of_int iOneFree, g\<lparr>grid_num := word_of_int iMaxTiled\<rparr>)
               else (0, g\<lparr>grid_num := word_of_int iOneFill + num\<rparr>)
             else (num, g));
          (num, gs) = PutItem_fill iid num gs
      in (num, g # gs))"

definition upd_last_grid :: "(RolePackGrid \<Rightarrow> RolePackGrid) \<Rightarrow> Knapsack \<Rightarrow> Knapsack" where
  "upd_last_grid f s =
     (let p = pack s; gs = grids p
      in s\<lparr>pack := p\<lparr>grids := butlast gs @ [f (last gs)]\<rparr>\<rparr>)"

text \<open>Body of the second loop: a new grid, a new gid, a free position, the count.\<close>

definition PutItem_new_grid :: "RoleItem \<Rightarrow> u32 \<Rightarrow> Knapsack \<Rightarrow> Knapsack" where
  "PutItem_new_grid item n s =
     (let s = s\<lparr>pack := (pack s)\<lparr>grids := grids (pack s) @ [default_grid]\<rparr>\<rparr>;
          (_, newitem, s) = CreateItem item s;
          s = upd_last_grid (\<lambda>g. g\<lparr>grid_item := newitem\<rparr>) s;
          (pos, s) = GetFreeGridPos s;
          s = upd_last_grid (\<lambda>g. g\<lparr>grid_pos := word_of_int pos\<rparr>) s
      in upd_last_grid (\<lambda>g. g\<lparr>grid_num := n\<rparr>) s)"

function PutItem_add :: "RoleItem \<Rightarrow> u32 \<Rightarrow> Knapsack \<Rightarrow> u32 \<times> Knapsack" where
  "PutItem_add item num s =
     (if num > 0 then
        if iMaxTiled > sint num
        then PutItem_add item 0 (PutItem_new_grid item num s)
        else PutItem_add item (num - word_of_int iMaxTiled)
               (PutItem_new_grid item (word_of_int iMaxTiled) s)
      else (num, s))"
  by pat_completeness auto
termination
proof (relation "measure (\<lambda>(item, num, s). unat num)", goal_cases)
  case 1
  show ?case by simp
next
  case (2 item num s)
  then show ?case by (simp add: word_gt_0 unat_gt_0)
next
  case (3 item num s)
  have "unat (num - 1) = unat num - 1" using 3(1) by (simp add: unat_minus_one word_gt_0)
  then show ?case using 3(1) by (simp add: iMaxTiled_def word_gt_0 unat_gt_0)
qed

declare PutItem_add.simps [simp del]

definition PutItem :: "RoleItem \<Rightarrow> u32 \<Rightarrow> Knapsack \<Rightarrow> fault + int \<times> Knapsack" where
  "PutItem item num s =
     (let (_, s) = GetPackInfo s
      in case GetItemCapacity (item_id item) s of
           Inl e \<Rightarrow> Inl e
         | Inr (iCap, s) \<Rightarrow>
             if iCap < sint num then Inr (-1, s)
             else
               let (num, gs) = PutItem_fill (item_id item) num (grids (pack s));
                   s = s\<lparr>pack := (pack s)\<lparr>grids := gs\<rparr>\<rparr>;
                   (num, s) = PutItem_add item num s;
                   param = push_bit 32 (ucast (item_id item)) OR ucast num
               in Inr (0, Knapsack_FireEvent EVENT_PLAYER_ITEM_ADD param s))"

fun GetItemNum_sum :: "u32 \<Rightarrow> RolePackGrid list \<Rightarrow> u32" where
  "GetItemNum_sum iid [] = 0"
| "GetItemNum_sum iid (g # gs) =
     (if iid = item_id (grid_item g) \<and> grid_num g > 0 then grid_num g else 0)
     + GetItemNum_sum iid gs"

definition GetItemNum :: "u32 \<Rightarrow> Knapsack \<Rightarrow> int \<times> Knapsack" where
  "GetItemNum iid s =
     (let (p, s) = GetPackInfo s in (sint (GetItemNum_sum iid (grids p)), s))"

definition FindPackGridIdx :: "u32 \<Rightarrow> Knapsack \<Rightarrow> int \<times> Knapsack" where
  "FindPackGridIdx pos s =
     (let (p, s) = GetPackInfo s
      in if pos \<ge> maxgrid p then (-1, s)
         else (case find_idx (\<lambda>g. grid_pos g = pos) (grids p) of
                 None \<Rightarrow> -1 | Some i \<Rightarrow> int i, s))"

definition FindPackGrid :: "u32 \<Rightarrow> Knapsack \<Rightarrow> RolePackGrid option \<times> Knapsack" where
  "FindPackGrid pos s =
     (let (p, s) = GetPackInfo s;
          (idx, s) = FindPackGridIdx pos s
      in (if idx < 0 then None else Some (grids p ! nat idx), s))"

definition RemoveGrid :: "u32 \<Rightarrow> Knapsack \<Rightarrow> int \<times> Knapsack" where
  "RemoveGrid pos s =
     (let (idx, s) = FindPackGridIdx pos s
      in if idx < 0 then (-1, s)
         else
           let (p, s) = GetPackInfo s;
               s = s\<lparr>pack := p\<lparr>grids := swap_remove (nat idx) (grids p)\<rparr>\<rparr>
           in (0, Knapsack_FireEvent EVENT_PLAYER_REMOVE_GRID_ITEM (ucast pos) s))"

text \<open>
  First loop of \<open>RemoveItem\<close>: take the amount out of the grids of the item, from the
  front, and collect the positions of the grids it empties.
\<close>

fun RemoveItem_take :: "u32 \<Rightarrow> u32 \<Rightarrow> RolePackGrid list \<Rightarrow> u32 \<times> RolePackGrid list \<times> u32 list" where
  "RemoveItem_take iid num [] = (num, [], [])"
| "RemoveItem_take iid num (g # gs) =
     (if num > 0 then
        let iOneItemNum = sint (grid_num g)
        in if iid = item_id (grid_item g) \<and> iOneItemNum > 0 then
             let (iOneItemNum, num) =
                   (if iOneItemNum \<ge> sint num
                    then (word_of_int iOneItemNum - num, 0)
                    else (0, num - word_of_int iOneItemNum));
                 (num, gs, rm) = RemoveItem_take iid num gs
             in (num, g\<lparr>grid_num := iOneItemNum\<rparr> # gs,
                 if iOneItemNum = 0 then grid_pos g # rm else rm)
           else
             let (num, gs, rm) = RemoveItem_take iid num gs in (num, g # gs, rm)
      else (num, g # gs, []))"

fun RemoveItem_sweep :: "u32 list \<Rightarrow> Knapsack \<Rightarrow> Knapsack" where
  "RemoveItem_sweep [] s = s"
| "RemoveItem_sweep (pos # rm) s = RemoveItem_sweep rm (snd (RemoveGrid pos s))"

definition RemoveItem :: "u32 \<Rightarrow> u32 \<Rightarrow> Knapsack \<Rightarrow> int \<times> Knapsack" where
  "RemoveItem iid num s =
     (let (cnt, s) = GetItemNum iid s
      in if cnt < sint num then (-1, s)
         else
           let (p, s) = GetPackInfo s;
               (num, gs, rmposvec) = RemoveItem_take iid num (grids p);
               s = s\<lparr>pack := p\<lparr>grids := gs\<rparr>\<rparr>;
               s = RemoveItem_sweep rmposvec s;
               param = push_bit 32 (ucast iid) OR ucast num
           in (0, Knapsack_FireEvent EVENT_PLAYER_ITEM_DEC param s))"

definition GetMaxGrid :: "Knapsack \<Rightarrow> int \<times> Knapsack" where
  "GetMaxGrid s = (let (p, s) = GetPackInfo s in (sint (maxgrid p), s))"

definition ChangeMaxGrid :: "u8 \<Rightarrow> Knapsack \<Rightarrow> int \<times> Knapsack" where
  "ChangeMaxGrid chg s =
     (let (p, s) = GetPackInfo s;
          (old, s) = GetMaxGrid s;
          old = old + uint chg;
          s = s\<lparr>pack := p\<lparr>maxgrid := word_of_int old\<rparr>\<rparr>
      in (0, Knapsack_FireEvent EVENT_PLAYER_CHANGE_PACK_MAX_GRID (word_of_int old) s))"

section \<open>Well-formed packages\<close>

text \<open>
  What an item amounts to in a package, and the invariant of a package that only the
  operations above have written.  A grid without a position carries \<open>-1\<close>, the failure
  value of \<open>GetFreeGridPos\<close> stored into the unsigned field.
\<close>

definition grid_count :: "u32 \<Rightarrow> RolePackGrid \<Rightarrow> nat" where
  "grid_count i g = (if item_id (grid_item g) = i then unat (grid_num g) else 0)"

definition item_count :: "u32 \<Rightarrow> RolePackGrid list \<Rightarrow> nat" where
  "item_count i gs = sum_list (map (grid_count i) gs)"

definition free_grids :: "u32 \<Rightarrow> RolePackGrid list \<Rightarrow> nat" where
  "free_grids i gs = length (filter (\<lambda>g. item_id (grid_item g) = i \<and> grid_num g = 0) gs)"

definition placed :: "RolePackGrid list \<Rightarrow> u32 list" where
  "placed gs = filter (\<lambda>x. x \<noteq> -1) (map grid_pos gs)"

definition grid_ok :: "u32 \<Rightarrow> RolePackGrid \<Rightarrow> bool" where
  "grid_ok mx g \<longleftrightarrow> (grid_num g = 0 \<or> grid_num g = 1)
     \<and> (grid_pos g = -1 \<or> (0 < grid_pos g \<and> grid_pos g < mx))"

definition grids_inv :: "u32 set \<Rightarrow> RolePackage \<Rightarrow> bool" where
  "grids_inv R p \<longleftrightarrow> unat (maxgrid p) < 2147483648
     \<and> length (grids p) \<le> unat (maxgrid p)
     \<and> (\<forall>g\<in>set (grids p). grid_ok (maxgrid p) g)
     \<and> (\<forall>g\<in>set (grids p). grid_num g = 0 \<longrightarrow> grid_pos g = -1 \<or> grid_pos g \<in> R)
     \<and> distinct (placed (grids p))"

abbreviation pack_inv :: "RolePackage \<Rightarrow> bool" where
  "pack_inv \<equiv> grids_inv {}"

lemma item_count_simps [simp]:
  "item_count i [] = 0"
  "item_count i (g # gs) = grid_count i g + item_count i gs"
  "item_count i (gs @ hs) = item_count i gs + item_count i hs"
  by (simp_all add: item_count_def)

lemma placed_simps [simp]:
  "placed [] = []"
  "placed (g # gs) = (if grid_pos g = -1 then placed gs else grid_pos g # placed gs)"
  "placed (gs @ hs) = placed gs @ placed hs"
  by (simp_all add: placed_def)

lemma set_placed: "set (placed gs) = {grid_pos g | g. g \<in> set gs \<and> grid_pos g \<noteq> -1}"
  by (auto simp: placed_def)

lemma placed_unique:
  "distinct (placed gs) \<Longrightarrow> g \<in> set gs \<Longrightarrow> h \<in> set gs \<Longrightarrow> grid_pos g = grid_pos h
    \<Longrightarrow> grid_pos g \<noteq> -1 \<Longrightarrow> g = h"
  by (induction gs) (auto simp: set_placed split: if_splits)

lemma free_grids_simps [simp]:
  "free_grids i [] = 0"
  "free_grids i (g # gs) =
     (if item_id (grid_item g) = i \<and> grid_num g = 0 then 1 else 0) + free_grids i gs"
  by (simp_all add: free_grids_def)

lemma item_count_le_length:
  "(\<forall>g\<in>set gs. grid_ok mx g) \<Longrightarrow> item_count i gs \<le> length gs"
  by (induction gs) (auto simp: grid_count_def grid_ok_def)

section \<open>Counting and capacity\<close>

lemma capacity_sum_free:
  "(\<forall>g\<in>set gs. grid_ok mx g) \<Longrightarrow> capacity_sum i gs = int (free_grids i gs)"
  by (induction gs) (auto simp: grid_ok_def iMaxTiled_def)

lemma GetItemNum_sum_count: "GetItemNum_sum i gs = of_nat (item_count i gs)"
  by (induction gs) (auto simp: grid_count_def word_gt_0)

lemma GetItemNum_count:
  assumes "grids_inv R (pack s)"
  shows "GetItemNum i s = (int (item_count i (grids (pack s))), s\<lparr>m_iDirty := m_iDirty s + 1\<rparr>)"
proof -
  let ?n = "item_count i (grids (pack s))"
  have "?n \<le> length (grids (pack s))"
    using assms item_count_le_length unfolding grids_inv_def by blast
  then have b: "?n < 2147483648" using assms by (simp add: grids_inv_def)
  then have "unat (of_nat ?n :: u32) = ?n" by (simp add: unsigned_of_nat take_bit_nat_eq_self)
  then have "sint (of_nat ?n :: u32) = int ?n" using b by (simp add: sint_u32_small)
  then show ?thesis by (simp add: GetItemNum_def GetPackInfo_def GetItemNum_sum_count)
qed

definition room :: "u32 \<Rightarrow> RolePackage \<Rightarrow> nat" where
  "room i p = free_grids i (grids p) + (unat (maxgrid p) - length (grids p))"

lemma GetItemCapacity_room:
  assumes "grids_inv R (pack s)"
  shows "GetItemCapacity i s = Inr (int (room i (pack s)), s\<lparr>m_iDirty := m_iDirty s + 1\<rparr>)"
proof -
  let ?mx = "maxgrid (pack s)" and ?n = "length (grids (pack s))"
  have mx: "unat ?mx < 2147483648" and n: "?n \<le> unat ?mx"
    and ok: "\<forall>g\<in>set (grids (pack s)). grid_ok ?mx g"
    using assms by (simp_all add: grids_inv_def)
  have un: "unat (of_nat ?n :: u32) = ?n"
    using mx n by (simp add: unsigned_of_nat take_bit_nat_eq_self)
  then have "of_nat ?n \<le> ?mx" using n by (simp add: word_le_nat_alt)
  then have d: "unat (?mx - of_nat ?n) = unat ?mx - ?n" by (simp add: unat_sub un)
  then have "sint (?mx - of_nat ?n) = int (unat ?mx - ?n)" using mx by (simp add: sint_u32_small)
  then show ?thesis
    by (simp add: GetItemCapacity_def GetPackInfo_def capacity_sum_free [OF ok] room_def iMaxTiled_def)
qed

section \<open>Putting items in\<close>

text \<open>With stacks of at most one item, a grid takes nothing or exactly one item.\<close>

lemma PutItem_fill_Cons:
  assumes "grid_ok mx g" and "unat num < 2147483648"
  shows "PutItem_fill i num (g # gs) =
    (if item_id (grid_item g) = i \<and> grid_num g = 0 \<and> num \<noteq> 0
     then map_prod (\<lambda>n. n) (\<lambda>hs. g\<lparr>grid_num := 1\<rparr> # hs) (PutItem_fill i (num - 1) gs)
     else map_prod (\<lambda>n. n) (\<lambda>hs. g # hs) (PutItem_fill i num gs))"
proof -
  have s: "sint num = int (unat num)" using assms(2) by (rule sint_u32_small)
  consider "item_id (grid_item g) = i" "grid_num g = 0" "num = 0"
    | "item_id (grid_item g) = i" "grid_num g = 0" "num = 1"
    | "item_id (grid_item g) = i" "grid_num g = 0" "unat num > 1"
    | "item_id (grid_item g) \<noteq> i" | "grid_num g = 1"
    using assms(1) by (fastforce simp: grid_ok_def word_unat_eq_iff [of num])
  then show ?thesis
  proof cases
    case 1
    then have "g\<lparr>grid_num := 0\<rparr> = g" by (cases g) simp
    then show ?thesis using 1 s by (simp add: iMaxTiled_def case_prod_beta map_prod_def)
  next
    case 2
    then show ?thesis using s by (simp add: iMaxTiled_def case_prod_beta map_prod_def)
  next
    case 3
    then have "num \<noteq> 0" by auto
    moreover have "1 < int (unat num)" using 3(3) by linarith
    then have "1 < sint num" by (simp only: s)
    ultimately show ?thesis using 3 by (simp add: iMaxTiled_def case_prod_beta map_prod_def)
  qed (auto simp: iMaxTiled_def case_prod_beta map_prod_def)
qed

lemma PutItem_fill_spec:
  assumes "\<forall>g\<in>set gs. grid_ok mx g" and "unat num < 2147483648"
    and "PutItem_fill i num gs = (num', gs')"
  shows "unat num' = unat num - free_grids i gs \<and> length gs' = length gs
    \<and> map grid_pos gs' = map grid_pos gs \<and> (\<forall>g\<in>set gs'. grid_ok mx g)
    \<and> item_count i gs' + unat num' = item_count i gs + unat num
    \<and> (\<forall>j. j \<noteq> i \<longrightarrow> item_count j gs' = item_count j gs)
    \<and> ((\<forall>g\<in>set gs. grid_num g = 0 \<longrightarrow> grid_pos g \<in> Z)
         \<longrightarrow> (\<forall>g\<in>set gs'. grid_num g = 0 \<longrightarrow> grid_pos g \<in> Z))"
  using assms
proof (induction gs arbitrary: num num' gs')
  case Nil
  then show ?case by simp
next
  case (Cons g gs)
  have g: "grid_ok mx g" and ok: "\<forall>g\<in>set gs. grid_ok mx g" using Cons.prems(1) by simp_all
  note eq = PutItem_fill_Cons [OF g Cons.prems(2), of i gs]
  show ?case
  proof (cases "item_id (grid_item g) = i \<and> grid_num g = 0 \<and> num \<noteq> 0")
    case True
    then have u: "unat (num - 1) = unat num - 1" "unat num \<noteq> 0"
      by (simp_all add: unat_minus_one unat_eq_zero)
    obtain hs where hs: "PutItem_fill i (num - 1) gs = (num', hs)" "gs' = g\<lparr>grid_num := 1\<rparr> # hs"
      using True Cons.prems(3) eq by (cases "PutItem_fill i (num - 1) gs") auto
    have b: "unat (num - 1) < 2147483648" using Cons.prems(2) u by simp
    note IH = Cons.IH [OF ok b hs(1)]
    from IH have "item_count i hs + unat num' = item_count i gs + unat (num - 1)" by blast
    then have "item_count i hs + unat num' + 1 = item_count i gs + unat num" using u by linarith
    moreover have "unat num' = unat num - 1 - free_grids i gs" using IH u by simp
    ultimately show ?thesis
      using IH True g by (simp add: hs(2) grid_count_def grid_ok_def)
  next
    case False
    obtain hs where hs: "PutItem_fill i num gs = (num', hs)" "gs' = g # hs"
      using False Cons.prems(3) eq by (cases "PutItem_fill i num gs") auto
    show ?thesis
      using Cons.IH [OF ok Cons.prems(2) hs(1)] False g by (auto simp: hs(2))
  qed
qed

lemma IsGridFill_result:
  "fst (IsGridFill pos s) \<longleftrightarrow> maxgrid (pack s) \<le> pos
     \<or> (\<exists>g\<in>set (grids (pack s)). grid_pos g = pos \<and> grid_num g \<noteq> 0)"
  by (auto simp: IsGridFill_def GetPackInfo_def list_ex_iff word_gt_0)

text \<open>
  The loop stops at the first position that no grid occupies; it only touches the dirty
  counter.
\<close>

lemma GetFreeGridPos_loop_frame:
  "pack (snd (GetFreeGridPos_loop pos s)) = pack s \<and> fired (snd (GetFreeGridPos_loop pos s)) = fired s
   \<and> pos \<le> fst (GetFreeGridPos_loop pos s)"
proof (induction pos s rule: GetFreeGridPos_loop.induct)
  case (1 pos s)
  obtain b s' where f: "IsGridFill (word_of_int pos) s = (b, s')" by fastforce
  have s': "s' = s\<lparr>m_iDirty := m_iDirty s + 1\<rparr>"
    using IsGridFill_state [of "word_of_int pos" s] f by simp
  show ?case
  proof (cases "pos < sint (maxgrid (pack s)) \<and> b")
    case True
    then show ?thesis using 1 [OF _ f [symmetric]] f s'
      by (subst (1 2 3) GetFreeGridPos_loop.simps) auto
  next
    case False
    then show ?thesis using f s' by (subst (1 2 3) GetFreeGridPos_loop.simps) auto
  qed
qed

lemma IsGridFill_cong: "pack s' = pack s \<Longrightarrow> fst (IsGridFill pos s') = fst (IsGridFill pos s)"
  by (simp add: IsGridFill_result)

lemma GetFreeGridPos_loop_least:
  "(fst (GetFreeGridPos_loop pos s) < sint (maxgrid (pack s))
      \<longrightarrow> \<not> fst (IsGridFill (word_of_int (fst (GetFreeGridPos_loop pos s))) s))
   \<and> (\<forall>q. pos \<le> q \<and> q < fst (GetFreeGridPos_loop pos s) \<longrightarrow> fst (IsGridFill (word_of_int q) s))"
proof (induction pos s rule: GetFreeGridPos_loop.induct)
  case (1 pos s)
  obtain b s' where f: "IsGridFill (word_of_int pos) s = (b, s')" by fastforce
  have s': "pack s' = pack s" using f by (rule IsGridFill_pack)
  note eq = GetFreeGridPos_loop.simps [of pos s]
  show ?case
  proof (cases "pos < sint (maxgrid (pack s)) \<and> b")
    case True
    have "pos \<le> q \<and> q < fst (GetFreeGridPos_loop pos s) \<Longrightarrow> fst (IsGridFill (word_of_int q) s)" for q
      using 1 [OF _ f [symmetric]] True f s' eq by (cases "q = pos") (auto simp: IsGridFill_cong [OF s'])
    then show ?thesis
      using 1 [OF _ f [symmetric]] True f s' eq by (auto simp: IsGridFill_cong [OF s'])
  next
    case False
    then show ?thesis using f eq by (cases b) auto
  qed
qed

lemma GetFreeGridPos_frame:
  "pack (snd (GetFreeGridPos s)) = pack s \<and> fired (snd (GetFreeGridPos s)) = fired s"
  using GetFreeGridPos_loop_frame [of 1 "s\<lparr>m_iDirty := m_iDirty s + 1\<rparr>"]
  by (simp add: GetFreeGridPos_def GetPackInfo_def case_prod_beta)

text \<open>
  \<open>GetFreeGridPos\<close> returns the least free position from 1 on, or \<open>-1\<close> when every position
  below \<open>maxgrid\<close> is taken.
\<close>

lemma GetFreeGridPos_result:
  assumes "GetFreeGridPos s = (r, s')"
  shows "(r = -1 \<and> (\<forall>q. 1 \<le> q \<and> q < sint (maxgrid (pack s)) \<longrightarrow> fst (IsGridFill (word_of_int q) s)))
    \<or> (1 \<le> r \<and> r < sint (maxgrid (pack s)) \<and> \<not> fst (IsGridFill (word_of_int r) s)
        \<and> (\<forall>q. 1 \<le> q \<and> q < r \<longrightarrow> fst (IsGridFill (word_of_int q) s)))"
proof -
  let ?t = "s\<lparr>m_iDirty := m_iDirty s + 1\<rparr>"
  have t: "pack ?t = pack s" by simp
  have "r = (if fst (GetFreeGridPos_loop 1 ?t) \<ge> sint (maxgrid (pack s)) then -1
             else fst (GetFreeGridPos_loop 1 ?t))"
    using assms by (auto simp: GetFreeGridPos_def GetPackInfo_def case_prod_beta split: if_splits)
  then show ?thesis
    using GetFreeGridPos_loop_least [of 1 ?t] GetFreeGridPos_loop_frame [of 1 ?t]
    by (auto simp: IsGridFill_cong [OF t] split: if_splits)
qed

lemma PutItem_new_grid_spec:
  obtains pos where
    "pack (PutItem_new_grid item n s) = (pack s)\<lparr>
       grids := grids (pack s) @ [\<lparr>grid_item = item\<lparr>item_gid := Some (nextgid (pack s))\<rparr>,
                                   grid_num = n, grid_pos = word_of_int pos\<rparr>],
       nextgid := nextgid (pack s) + 1\<rparr>"
    and "fired (PutItem_new_grid item n s) = fired s"
    and "pos = -1 \<or> 1 \<le> pos \<and> pos < sint (maxgrid (pack s)) \<and>
         (\<forall>g\<in>set (grids (pack s)). grid_num g \<noteq> 0 \<longrightarrow> grid_pos g \<noteq> word_of_int pos)"
proof -
  define t where "t = s\<lparr>m_iDirty := m_iDirty s + 1, pack := (pack s)\<lparr>
      nextgid := nextgid (pack s) + 1,
      grids := grids (pack s) @ [default_grid\<lparr>grid_item := item\<lparr>item_gid := Some (nextgid (pack s))\<rparr>\<rparr>]\<rparr>\<rparr>"
  obtain pos t' where gf: "GetFreeGridPos t = (pos, t')" by fastforce
  have fr: "pack t' = pack t" "fired t' = fired t" using GetFreeGridPos_frame [of t] gf by simp_all
  have eq: "PutItem_new_grid item n s =
      upd_last_grid (\<lambda>g. g\<lparr>grid_num := n\<rparr>) (upd_last_grid (\<lambda>g. g\<lparr>grid_pos := word_of_int pos\<rparr>) t')"
    using gf by (simp add: PutItem_new_grid_def CreateItem_def GetPackInfo_def upd_last_grid_def
        t_def Let_def)
  show thesis
  proof (rule that [of pos])
    show "pack (PutItem_new_grid item n s) = (pack s)\<lparr>
       grids := grids (pack s) @ [\<lparr>grid_item = item\<lparr>item_gid := Some (nextgid (pack s))\<rparr>,
                                   grid_num = n, grid_pos = word_of_int pos\<rparr>],
       nextgid := nextgid (pack s) + 1\<rparr>"
      unfolding eq by (simp add: upd_last_grid_def Let_def fr t_def default_grid_def)
    show "fired (PutItem_new_grid item n s) = fired s"
      unfolding eq by (simp add: upd_last_grid_def Let_def fr t_def)
    show "pos = -1 \<or> 1 \<le> pos \<and> pos < sint (maxgrid (pack s)) \<and>
         (\<forall>g\<in>set (grids (pack s)). grid_num g \<noteq> 0 \<longrightarrow> grid_pos g \<noteq> word_of_int pos)"
      using GetFreeGridPos_result [OF gf] by (auto simp: IsGridFill_result t_def)
  qed
qed

lemma pack_inv_new_grid:
  assumes "pack_inv (pack s)" and "length (grids (pack s)) < unat (maxgrid (pack s))"
  shows "pack_inv (pack (PutItem_new_grid item 1 s))"
    (is "pack_inv ?p")
proof -
  obtain pos where p: "?p = (pack s)\<lparr>
       grids := grids (pack s) @ [\<lparr>grid_item = item\<lparr>item_gid := Some (nextgid (pack s))\<rparr>,
                                   grid_num = 1, grid_pos = word_of_int pos\<rparr>],
       nextgid := nextgid (pack s) + 1\<rparr>"
    and pos: "pos = -1 \<or> 1 \<le> pos \<and> pos < sint (maxgrid (pack s)) \<and>
         (\<forall>g\<in>set (grids (pack s)). grid_num g \<noteq> 0 \<longrightarrow> grid_pos g \<noteq> word_of_int pos)"
    by (rule PutItem_new_grid_spec [of item 1 s]) blast
  have mx: "unat (maxgrid (pack s)) < 2147483648" using assms(1) by (simp add: grids_inv_def)
  consider "pos = -1" | "1 \<le> pos" "pos < int (unat (maxgrid (pack s)))"
      "\<forall>g\<in>set (grids (pack s)). grid_num g \<noteq> 0 \<longrightarrow> grid_pos g \<noteq> word_of_int pos"
    using pos sint_u32_small [OF mx] by auto
  then show ?thesis
  proof cases
    case 1
    then show ?thesis using assms by (auto simp: p grids_inv_def grid_ok_def)
  next
    case 2
    have u: "unat (word_of_int pos :: u32) = nat pos" using 2(1,2) mx by (intro unat_u32_of_int) linarith+
    have "nat pos < unat (maxgrid (pack s))" using 2(1,2) by linarith
    then have r: "0 < (word_of_int pos :: u32)" "word_of_int pos < maxgrid (pack s)"
      using 2(1) u by (simp_all add: word_less_nat_alt)
    have "word_of_int pos \<notin> set (placed (grids (pack s)))"
      using 2(3) assms(1) by (auto simp: set_placed grids_inv_def)
    then show ?thesis using assms r by (auto simp: p grids_inv_def grid_ok_def)
  qed
qed

text \<open>The second loop always ends with nothing left to place.\<close>

lemma PutItem_add_num: "fst (PutItem_add item num s) = 0"
proof (induction item num s rule: PutItem_add.induct)
  case (1 item num s)
  then show ?case
    by (subst PutItem_add.simps) (auto simp: word_gt_0)
qed

lemma PutItem_add_0: "PutItem_add item num s = (n, s') \<Longrightarrow> n = 0"
  using PutItem_add_num [of item num s] by simp

lemma PutItem_add_spec:
  assumes "pack_inv (pack s)"
    and "length (grids (pack s)) + unat num \<le> unat (maxgrid (pack s))"
  shows "pack_inv (pack (snd (PutItem_add item num s)))
    \<and> maxgrid (pack (snd (PutItem_add item num s))) = maxgrid (pack s)
    \<and> fired (snd (PutItem_add item num s)) = fired s
    \<and> (\<forall>j. item_count j (grids (pack (snd (PutItem_add item num s)))) =
        item_count j (grids (pack s)) + (if j = item_id item then unat num else 0))"
  using assms
proof (induction item num s rule: PutItem_add.induct)
  case (1 item num s)
  note eq = PutItem_add.simps [of item num s]
  show ?case
  proof (cases "num = 0")
    case True
    then show ?thesis using 1(3) eq by simp
  next
    case False
    let ?s = "PutItem_new_grid item 1 s"
    obtain pos where p: "pack ?s = (pack s)\<lparr>
       grids := grids (pack s) @ [\<lparr>grid_item = item\<lparr>item_gid := Some (nextgid (pack s))\<rparr>,
                                   grid_num = 1, grid_pos = word_of_int pos\<rparr>],
       nextgid := nextgid (pack s) + 1\<rparr>" and f: "fired ?s = fired s"
      by (rule PutItem_new_grid_spec [of item 1 s]) blast
    have pos: "0 < num" using False by (simp add: word_gt_0)
    have mx: "unat (maxgrid (pack s)) < 2147483648" using 1(3) by (simp add: grids_inv_def)
    have n: "unat num \<noteq> 0" using False by (simp add: unat_eq_zero)
    have "sint num = int (unat num)" using 1(4) mx by (intro sint_u32_small) linarith
    moreover have "1 \<le> int (unat num)" using n by linarith
    ultimately have big: "\<not> iMaxTiled > sint num" by (simp only: iMaxTiled_def not_less)
    have u: "unat (num - 1) = unat num - 1" using False by (simp add: unat_minus_one)
    have inv: "pack_inv (pack ?s)" using 1(3,4) n by (intro pack_inv_new_grid) auto
    have len: "length (grids (pack ?s)) + unat (num - word_of_int iMaxTiled) \<le> unat (maxgrid (pack ?s))"
      using 1(4) n by (simp add: p u iMaxTiled_def)
    have IH: "pack_inv (pack (snd (PutItem_add item (num - word_of_int iMaxTiled) ?s)))
      \<and> maxgrid (pack (snd (PutItem_add item (num - word_of_int iMaxTiled) ?s))) = maxgrid (pack ?s)
      \<and> fired (snd (PutItem_add item (num - word_of_int iMaxTiled) ?s)) = fired ?s
      \<and> (\<forall>j. item_count j (grids (pack (snd (PutItem_add item (num - word_of_int iMaxTiled) ?s)))) =
          item_count j (grids (pack ?s)) + (if j = item_id item then unat (num - word_of_int iMaxTiled) else 0))"
      using 1(2) [OF pos big] inv len by (simp add: iMaxTiled_def)
    have step: "PutItem_add item num s = PutItem_add item (num - word_of_int iMaxTiled) ?s"
      using eq pos big by (simp add: iMaxTiled_def)
    show ?thesis unfolding step using IH n by (auto simp: p f u grid_count_def iMaxTiled_def)
  qed
qed

lemma PutItem_refused:
  assumes "pack_inv (pack s)" and "unat num < 2147483648" and "room (item_id item) (pack s) < unat num"
  shows "PutItem item num s = Inr (-1, s\<lparr>m_iDirty := m_iDirty s + 2\<rparr>)"
proof -
  let ?t = "s\<lparr>m_iDirty := m_iDirty s + 1\<rparr>"
  have "GetItemCapacity (item_id item) ?t = Inr (int (room (item_id item) (pack s)), ?t\<lparr>m_iDirty := m_iDirty s + 2\<rparr>)"
    using GetItemCapacity_room [of "{}" ?t "item_id item"] assms(1) by simp
  moreover have "int (room (item_id item) (pack s)) < sint num"
    using assms(3) by (simp only: sint_u32_small [OF assms(2)] of_nat_less_iff)
  ultimately show ?thesis by (simp add: PutItem_def GetPackInfo_def)
qed

lemma PutItem_accepted:
  assumes inv: "pack_inv (pack s)" and small: "unat num < 2147483648"
    and fits: "unat num \<le> room (item_id item) (pack s)"
  obtains s' where "PutItem item num s = Inr (0, s')" and "pack_inv (pack s')"
    and "maxgrid (pack s') = maxgrid (pack s)"
    and "\<And>j. item_count j (grids (pack s')) =
           item_count j (grids (pack s)) + (if j = item_id item then unat num else 0)"
    and "fired s' = fired s @ [\<lparr>fc_event = EVENT_PLAYER_ITEM_ADD, fc_receiver = None, fc_seconds = 0,
           fc_param = push_bit 32 (ucast (item_id item))\<rparr>]"
proof -
  let ?i = "item_id item" and ?gs = "grids (pack s)" and ?mx = "maxgrid (pack s)"
  let ?t = "s\<lparr>m_iDirty := m_iDirty s + 1\<rparr>" and ?t2 = "s\<lparr>m_iDirty := m_iDirty s + 2\<rparr>"
  have cap: "GetItemCapacity ?i ?t = Inr (int (room ?i (pack s)), ?t2)"
    using GetItemCapacity_room [of "{}" ?t ?i] inv by simp
  have go: "\<not> int (room ?i (pack s)) < sint num"
    using fits by (simp only: sint_u32_small [OF small] of_nat_less_iff not_less)
  obtain n gs where fill: "PutItem_fill ?i num ?gs = (n, gs)" by fastforce
  have ok: "\<forall>g\<in>set ?gs. grid_ok ?mx g" using inv by (simp add: grids_inv_def)
  note F = PutItem_fill_spec [OF ok small fill, of "{-1}"]
  define u where "u = ?t2\<lparr>pack := (pack s)\<lparr>grids := gs\<rparr>\<rparr>"
  have pu: "placed gs = placed ?gs" using F by (simp add: placed_def)
  have inv_u: "pack_inv (pack u)" using inv F by (auto simp: u_def grids_inv_def pu)
  have len_u: "length (grids (pack u)) + unat n \<le> unat (maxgrid (pack u))"
  proof -
    have "unat n = unat num - free_grids ?i ?gs" "length gs = length ?gs" using F by blast+
    moreover have "length ?gs \<le> unat ?mx" using inv by (simp add: grids_inv_def)
    ultimately show ?thesis using fits by (simp add: u_def room_def)
  qed
  note A = PutItem_add_spec [OF inv_u len_u, of item]
  define v where "v = snd (PutItem_add item n u)"
  have add: "PutItem_add item n u = (0, v)"
    using PutItem_add_num [of item n u] by (simp add: v_def prod_eq_iff)
  have res: "PutItem item num s = Inr (0, Knapsack_FireEvent EVENT_PLAYER_ITEM_ADD (push_bit 32 (ucast ?i)) v)"
    using cap go fill add by (simp add: PutItem_def GetPackInfo_def u_def Let_def)
  have cnt: "item_count j (grids (pack v)) = item_count j ?gs + (if j = ?i then unat num else 0)" for j
  proof (cases "j = ?i")
    case True
    then have "item_count j (grids (pack v)) = item_count j gs + unat n" using A by (simp add: v_def u_def)
    moreover have "item_count ?i gs + unat n = item_count ?i ?gs + unat num" using F by blast
    ultimately show ?thesis using True by simp
  next
    case False
    then have "item_count j (grids (pack v)) = item_count j gs" using A by (simp add: v_def u_def)
    moreover have "item_count j gs = item_count j ?gs" using F False by blast
    ultimately show ?thesis using False by simp
  qed
  show thesis
    by (rule that [OF res]) (use A cnt in \<open>auto simp: Knapsack_FireEvent_def v_def u_def\<close>)
qed

section \<open>Taking items out\<close>

lemma RemoveItem_take_Cons:
  assumes "grid_ok mx g" and "unat num < 2147483648"
  shows "RemoveItem_take i num (g # gs) =
    (if num = 0 then (0, g # gs, [])
     else if item_id (grid_item g) = i \<and> grid_num g = 1
     then (case RemoveItem_take i (num - 1) gs of (n, hs, rm) \<Rightarrow>
             (n, g\<lparr>grid_num := 0\<rparr> # hs, grid_pos g # rm))
     else (case RemoveItem_take i num gs of (n, hs, rm) \<Rightarrow> (n, g # hs, rm)))"
proof -
  have s: "sint num = int (unat num)" using assms(2) by (rule sint_u32_small)
  consider "num = 0" | "num = 1" "grid_num g = 1" | "unat num > 1" "grid_num g = 1"
    | "num \<noteq> 0" "grid_num g = 0"
    using assms(1) by (fastforce simp: grid_ok_def word_unat_eq_iff [of num])
  then show ?thesis
  proof cases
    case 3
    then have "num \<noteq> 0" by auto
    moreover have "1 < int (unat num)" using 3(1) by linarith
    then have "1 < sint num" by (simp only: s)
    ultimately show ?thesis using 3 by (simp add: word_gt_0 Let_def case_prod_beta)
  qed (simp_all add: word_gt_0 Let_def case_prod_beta)
qed

lemma RemoveItem_take_spec:
  assumes "\<forall>g\<in>set gs. grid_ok mx g" and "unat num < 2147483648"
    and "RemoveItem_take i num gs = (num', gs', rm)"
  shows "unat num' = unat num - item_count i gs \<and> length gs' = length gs
    \<and> map grid_pos gs' = map grid_pos gs \<and> (\<forall>g\<in>set gs'. grid_ok mx g)
    \<and> item_count i gs' + unat num = item_count i gs + unat num'
    \<and> (\<forall>j. j \<noteq> i \<longrightarrow> item_count j gs' = item_count j gs)
    \<and> (\<forall>r\<in>set rm. \<exists>g\<in>set gs'. grid_pos g = r \<and> grid_num g = 0)
    \<and> ((\<forall>g\<in>set gs. grid_num g = 0 \<longrightarrow> grid_pos g \<in> Z)
         \<longrightarrow> (\<forall>g\<in>set gs'. grid_num g = 0 \<longrightarrow> grid_pos g \<in> Z \<union> set rm))"
  using assms
proof (induction gs arbitrary: num num' gs' rm)
  case Nil
  then show ?case by simp
next
  case (Cons g gs)
  have g: "grid_ok mx g" and ok: "\<forall>g\<in>set gs. grid_ok mx g" using Cons.prems(1) by simp_all
  note eq = RemoveItem_take_Cons [OF g Cons.prems(2), of i gs]
  consider (zero) "num = 0" | (take) "num \<noteq> 0" "item_id (grid_item g) = i" "grid_num g = 1"
    | (skip) "num \<noteq> 0" "\<not> (item_id (grid_item g) = i \<and> grid_num g = 1)" by blast
  then show ?case
  proof cases
    case zero
    then show ?thesis using Cons.prems g by auto
  next
    case take
    obtain n hs rs where t: "RemoveItem_take i (num - 1) gs = (n, hs, rs)" by (metis prod_cases3)
    have u: "unat (num - 1) = unat num - 1" using take(1) by (rule unat_minus_one)
    have pos: "0 < unat num" using take(1) by (simp add: unat_gt_0)
    have IH: "unat n = unat (num - 1) - item_count i gs \<and> length hs = length gs
        \<and> map grid_pos hs = map grid_pos gs \<and> (\<forall>g\<in>set hs. grid_ok mx g)
        \<and> item_count i hs + unat (num - 1) = item_count i gs + unat n
        \<and> (\<forall>j. j \<noteq> i \<longrightarrow> item_count j hs = item_count j gs)
        \<and> (\<forall>r\<in>set rs. \<exists>g\<in>set hs. grid_pos g = r \<and> grid_num g = 0)
        \<and> ((\<forall>g\<in>set gs. grid_num g = 0 \<longrightarrow> grid_pos g \<in> Z)
             \<longrightarrow> (\<forall>g\<in>set hs. grid_num g = 0 \<longrightarrow> grid_pos g \<in> Z \<union> set rs))"
      by (rule Cons.IH [OF ok _ t]) (use Cons.prems(2) u in linarith)
    have e: "num' = n" "gs' = g\<lparr>grid_num := 0\<rparr> # hs" "rm = grid_pos g # rs"
      using Cons.prems(3) eq take t by auto
    have "unat n = unat (num - 1) - item_count i gs"
      and "item_count i hs + unat (num - 1) = item_count i gs + unat n" using IH by blast+
    then have "unat n = unat num - item_count i (g # gs)"
      and "item_count i gs' + unat num = item_count i (g # gs) + unat n"
      using take u pos by (simp_all add: grid_count_def e)
    moreover have "grid_ok mx (g\<lparr>grid_num := 0\<rparr>)" using g by (simp add: grid_ok_def)
    ultimately show ?thesis using IH take by (auto simp: e grid_count_def)
  next
    case skip
    obtain n hs rs where t: "RemoveItem_take i num gs = (n, hs, rs)" by (metis prod_cases3)
    have IH: "unat n = unat num - item_count i gs \<and> length hs = length gs
        \<and> map grid_pos hs = map grid_pos gs \<and> (\<forall>g\<in>set hs. grid_ok mx g)
        \<and> item_count i hs + unat num = item_count i gs + unat n
        \<and> (\<forall>j. j \<noteq> i \<longrightarrow> item_count j hs = item_count j gs)
        \<and> (\<forall>r\<in>set rs. \<exists>g\<in>set hs. grid_pos g = r \<and> grid_num g = 0)
        \<and> ((\<forall>g\<in>set gs. grid_num g = 0 \<longrightarrow> grid_pos g \<in> Z)
             \<longrightarrow> (\<forall>g\<in>set hs. grid_num g = 0 \<longrightarrow> grid_pos g \<in> Z \<union> set rs))"
      by (rule Cons.IH [OF ok Cons.prems(2) t])
    have e: "num' = n" "gs' = g # hs" "rm = rs"
      using Cons.prems(3) eq skip t by (auto split: if_splits)
    have z: "grid_count i g = 0" using skip(2) g by (auto simp: grid_count_def grid_ok_def)
    show ?thesis using IH g by (auto simp: e z)
  qed
qed

lemma item_count_mset: "item_count i gs = sum_mset (image_mset (grid_count i) (mset gs))"
  by (simp add: item_count_def sum_mset_sum_list flip: mset_map)

lemma placed_mset: "mset (placed gs) = filter_mset (\<lambda>x. x \<noteq> -1) (image_mset grid_pos (mset gs))"
  by (simp add: placed_def)

lemma swap_remove_grid:
  assumes "k < length gs" and "distinct (placed gs)"
  shows "item_count j (swap_remove k gs) = item_count j gs - grid_count j (gs ! k)"
    and "distinct (placed (swap_remove k gs))"
    and "grid_pos (gs ! k) \<noteq> -1 \<Longrightarrow> g \<in> set (swap_remove k gs) \<Longrightarrow> grid_pos g \<noteq> grid_pos (gs ! k)"
proof -
  have m: "mset gs = mset (gs ! k # swap_remove k gs)" using assms(1) by (simp add: mset_swap_remove)
  show "item_count j (swap_remove k gs) = item_count j gs - grid_count j (gs ! k)"
    unfolding item_count_mset m by simp
  have "mset (placed gs) = mset (placed (gs ! k # swap_remove k gs))" unfolding placed_mset m ..
  then have d: "distinct (placed (gs ! k # swap_remove k gs))"
    using assms(2) mset_eq_imp_distinct_iff by blast
  then show "distinct (placed (swap_remove k gs))" by (auto split: if_splits)
  show "grid_pos (gs ! k) \<noteq> -1 \<Longrightarrow> g \<in> set (swap_remove k gs) \<Longrightarrow> grid_pos g \<noteq> grid_pos (gs ! k)"
    using d by (auto simp: set_placed)
qed

lemma RemoveGrid_result:
  "RemoveGrid pos s =
    (if pos < maxgrid (pack s) then
       (case find_idx (\<lambda>g. grid_pos g = pos) (grids (pack s)) of
          None \<Rightarrow> (-1, s\<lparr>m_iDirty := m_iDirty s + 1\<rparr>)
        | Some k \<Rightarrow> (0, Knapsack_FireEvent EVENT_PLAYER_REMOVE_GRID_ITEM (ucast pos)
             (s\<lparr>m_iDirty := m_iDirty s + 2, pack := (pack s)\<lparr>grids := swap_remove k (grids (pack s))\<rparr>\<rparr>)))
     else (-1, s\<lparr>m_iDirty := m_iDirty s + 1\<rparr>))"
  by (cases "find_idx (\<lambda>g. grid_pos g = pos) (grids (pack s))")
    (simp_all add: RemoveGrid_def FindPackGridIdx_def GetPackInfo_def not_le not_less add.commute
      del: find_idx_None_iff)

definition grid_removed :: "u32 \<Rightarrow> fire_call" where
  "grid_removed pos = \<lparr>fc_event = EVENT_PLAYER_REMOVE_GRID_ITEM, fc_receiver = None,
     fc_seconds = 0, fc_param = ucast pos\<rparr>"

lemma RemoveGrid_spec:
  assumes inv: "grids_inv R (pack s)"
    and empty: "\<forall>g\<in>set (grids (pack s)). grid_pos g = pos \<longrightarrow> pos \<noteq> -1 \<longrightarrow> grid_num g = 0"
    and s': "s' = snd (RemoveGrid pos s)"
  shows "grids_inv (R - {pos}) (pack s') \<and> maxgrid (pack s') = maxgrid (pack s)
    \<and> set (grids (pack s')) \<subseteq> set (grids (pack s))
    \<and> (\<forall>j. item_count j (grids (pack s')) = item_count j (grids (pack s)))
    \<and> (\<exists>ps. fired s' = fired s @ map grid_removed ps)"
proof (cases "pos < maxgrid (pack s) \<and> find_idx (\<lambda>g. grid_pos g = pos) (grids (pack s)) \<noteq> None")
  case True
  let ?gs = "grids (pack s)"
  obtain k where lt: "pos < maxgrid (pack s)" and f: "find_idx (\<lambda>g. grid_pos g = pos) ?gs = Some k"
    using True by blast
  have k: "k < length ?gs" "grid_pos (?gs ! k) = pos" using find_idx_SomeD [OF f] by simp_all
  have pos: "pos \<noteq> -1"
    using lt word_order.extremum_strict by blast
  have d: "distinct (placed ?gs)" using inv by (simp add: grids_inv_def)
  have z: "grid_num (?gs ! k) = 0" using empty k pos nth_mem by blast
  note sw = swap_remove_grid [OF k(1) d]
  have sub: "set (swap_remove k ?gs) \<subseteq> set ?gs" using k(1) by (rule set_swap_remove_subset)
  have e: "pack s' = (pack s)\<lparr>grids := swap_remove k ?gs\<rparr>"
    and fe: "fired s' = fired s @ [grid_removed pos]"
    using lt f by (simp_all add: s' RemoveGrid_result Knapsack_FireEvent_def grid_removed_def)
  have c: "item_count j (swap_remove k ?gs) = item_count j ?gs" for j
    using sw(1) [of j] z by (simp add: grid_count_def)
  have np: "\<forall>g\<in>set (swap_remove k ?gs). grid_pos g \<noteq> pos" using sw(3) k(2) pos by auto
  have "grids_inv (R - {pos}) (pack s')"
    using inv sub np sw(2) unfolding grids_inv_def e by (auto dest: subsetD)
  moreover have "\<exists>ps. fired s' = fired s @ map grid_removed ps"
    by (rule exI [of _ "[pos]"]) (simp add: fe)
  ultimately show ?thesis using sub c by (simp add: e)
next
  case False
  then have e: "pack s' = pack s" "fired s' = fired s"
    by (auto simp: s' RemoveGrid_result simp del: find_idx_None_iff)
  have "grid_pos g \<noteq> pos \<or> grid_pos g = -1" if "g \<in> set (grids (pack s))" for g
    using False that inv by (auto simp: grids_inv_def grid_ok_def)
  then have "grids_inv (R - {pos}) (pack s')" using inv unfolding grids_inv_def e by blast
  then show ?thesis using e by simp
qed

lemma RemoveItem_sweep_spec:
  assumes "grids_inv (set rm) (pack s)"
    and "\<forall>g\<in>set (grids (pack s)). grid_pos g \<in> set rm \<longrightarrow> grid_pos g \<noteq> -1 \<longrightarrow> grid_num g = 0"
  shows "pack_inv (pack (RemoveItem_sweep rm s))
    \<and> maxgrid (pack (RemoveItem_sweep rm s)) = maxgrid (pack s)
    \<and> (\<forall>j. item_count j (grids (pack (RemoveItem_sweep rm s))) = item_count j (grids (pack s)))
    \<and> (\<exists>ps. fired (RemoveItem_sweep rm s) = fired s @ map grid_removed ps)"
  using assms
proof (induction rm arbitrary: s)
  case Nil
  then show ?case by simp
next
  case (Cons r rm)
  define t where "t = snd (RemoveGrid r s)"
  have "\<forall>g\<in>set (grids (pack s)). grid_pos g = r \<longrightarrow> r \<noteq> -1 \<longrightarrow> grid_num g = 0"
    using Cons.prems(2) by auto
  note G = RemoveGrid_spec [OF Cons.prems(1) this t_def]
  have "grids_inv (set rm) (pack t)" using G unfolding grids_inv_def by auto
  moreover have "\<forall>g\<in>set (grids (pack t)). grid_pos g \<in> set rm \<longrightarrow> grid_pos g \<noteq> -1 \<longrightarrow> grid_num g = 0"
    using G Cons.prems(2) by (meson list.set_intros(2) subsetD)
  ultimately have IH: "pack_inv (pack (RemoveItem_sweep rm t))
    \<and> maxgrid (pack (RemoveItem_sweep rm t)) = maxgrid (pack t)
    \<and> (\<forall>j. item_count j (grids (pack (RemoveItem_sweep rm t))) = item_count j (grids (pack t)))
    \<and> (\<exists>ps. fired (RemoveItem_sweep rm t) = fired t @ map grid_removed ps)"
    by (rule Cons.IH)
  have sw: "RemoveItem_sweep (r # rm) s = RemoveItem_sweep rm t" by (simp add: t_def)
  show ?case unfolding sw using IH G by (metis append.assoc map_append)
qed

lemma RemoveItem_refused:
  assumes "pack_inv (pack s)" and "unat num < 2147483648" and "item_count i (grids (pack s)) < unat num"
  shows "RemoveItem i num s = (-1, s\<lparr>m_iDirty := m_iDirty s + 1\<rparr>)"
proof -
  have "int (item_count i (grids (pack s))) < sint num"
    using assms(3) by (simp only: sint_u32_small [OF assms(2)] of_nat_less_iff)
  then show ?thesis using GetItemNum_count [OF assms(1), of i] by (simp add: RemoveItem_def)
qed

lemma RemoveItem_accepted:
  assumes inv: "pack_inv (pack s)" and small: "unat num < 2147483648"
    and has: "unat num \<le> item_count i (grids (pack s))"
  obtains s' ps where "RemoveItem i num s = (0, s')" and "pack_inv (pack s')"
    and "maxgrid (pack s') = maxgrid (pack s)"
    and "\<And>j. item_count j (grids (pack s')) =
           item_count j (grids (pack s)) - (if j = i then unat num else 0)"
    and "fired s' = fired s @ map grid_removed ps @
           [\<lparr>fc_event = EVENT_PLAYER_ITEM_DEC, fc_receiver = None, fc_seconds = 0,
             fc_param = push_bit 32 (ucast i)\<rparr>]"
proof -
  let ?gs = "grids (pack s)" and ?mx = "maxgrid (pack s)"
  have go: "\<not> int (item_count i ?gs) < sint num"
    using has by (simp only: sint_u32_small [OF small] of_nat_less_iff not_less)
  obtain n gs rm where take: "RemoveItem_take i num ?gs = (n, gs, rm)" by (metis prod_cases3)
  have ok: "\<forall>g\<in>set ?gs. grid_ok ?mx g" using inv by (simp add: grids_inv_def)
  note T = RemoveItem_take_spec [OF ok small take, of "{-1}"]
  have "unat n = unat num - item_count i ?gs" using T by blast
  then have n: "n = 0" using has by (simp add: word_unat_eq_iff)
  define t where "t = s\<lparr>m_iDirty := m_iDirty s + 2, pack := (pack s)\<lparr>grids := gs\<rparr>\<rparr>"
  have pl: "placed gs = placed ?gs" using T by (simp add: placed_def)
  have inv_t: "grids_inv (set rm) (pack t)" using inv T by (auto simp: t_def grids_inv_def pl)
  have emp: "\<forall>g\<in>set (grids (pack t)). grid_pos g \<in> set rm \<longrightarrow> grid_pos g \<noteq> -1 \<longrightarrow> grid_num g = 0"
  proof (intro ballI impI)
    fix g assume g: "g \<in> set (grids (pack t))" "grid_pos g \<in> set rm" "grid_pos g \<noteq> -1"
    then obtain h where h: "h \<in> set gs" "grid_pos h = grid_pos g" "grid_num h = 0" using T by blast
    then have "h = g"
      using placed_unique [of gs h g] inv_t g by (simp add: t_def grids_inv_def)
    then show "grid_num g = 0" using h by simp
  qed
  note S = RemoveItem_sweep_spec [OF inv_t emp]
  define v where "v = RemoveItem_sweep rm t"
  have res: "RemoveItem i num s = (0, Knapsack_FireEvent EVENT_PLAYER_ITEM_DEC (push_bit 32 (ucast i)) v)"
    using GetItemNum_count [OF inv, of i] go take
    by (simp add: RemoveItem_def GetPackInfo_def t_def v_def n add.commute)
  obtain ps where ps: "fired v = fired s @ map grid_removed ps" using S by (auto simp: v_def t_def)
  have cnt: "item_count j (grids (pack v)) = item_count j ?gs - (if j = i then unat num else 0)" for j
  proof -
    have "item_count j (grids (pack v)) = item_count j gs" using S by (simp add: v_def t_def)
    moreover have "item_count i gs + unat num = item_count i ?gs" using T n by simp
    moreover have "j \<noteq> i \<longrightarrow> item_count j gs = item_count j ?gs" using T by blast
    ultimately show ?thesis by (cases "j = i") auto
  qed
  show thesis
    by (rule that [OF res, of ps]) (use S cnt ps in \<open>auto simp: Knapsack_FireEvent_def v_def t_def\<close>)
qed

lemma ChangeMaxGrid_result:
  "ChangeMaxGrid chg s =
     (0, Knapsack_FireEvent EVENT_PLAYER_CHANGE_PACK_MAX_GRID (word_of_int (sint (maxgrid (pack s)) + uint chg))
           (s\<lparr>m_iDirty := m_iDirty s + 2,
              pack := (pack s)\<lparr>maxgrid := maxgrid (pack s) + ucast chg\<rparr>\<rparr>))"
proof -
  have "(word_of_int (sint (maxgrid (pack s)) + uint chg) :: u32) = maxgrid (pack s) + ucast chg"
    by (simp add: wi_hom_add [symmetric])
  then show ?thesis by (simp add: ChangeMaxGrid_def GetMaxGrid_def GetPackInfo_def add.commute)
qed

section \<open>The bag as a ledger\<close>

text \<open>The calls a client makes, with what a successful call books on each item id.\<close>

datatype bag_call = BagPut RoleItem u32 | BagTake u32 u32

definition bag_step :: "bag_call \<Rightarrow> Knapsack \<Rightarrow> fault + int \<times> Knapsack" where
  "bag_step c s = (case c of
     BagPut item num \<Rightarrow> PutItem item num s
   | BagTake i num \<Rightarrow> Inr (RemoveItem i num s))"

definition bag_admissible :: "bag_call \<Rightarrow> bool" where
  "bag_admissible c = (case c of
     BagPut item num \<Rightarrow> unat num < 2147483648
   | BagTake i num \<Rightarrow> unat num < 2147483648)"

definition bag_delta :: "bag_call \<Rightarrow> u32 \<Rightarrow> int" where
  "bag_delta c k = (case c of
     BagPut item num \<Rightarrow> (if k = item_id item then int (unat num) else 0)
   | BagTake i num \<Rightarrow> (if k = i then - int (unat num) else 0))"

definition bag_balance :: "Knapsack \<Rightarrow> u32 \<Rightarrow> nat" where
  "bag_balance s k = item_count k (grids (pack s))"

lemma bag_put_books:
  assumes "pack_inv (pack s)" and "unat num < 2147483648"
  shows "\<exists>r s'. PutItem item num s = Inr (r, s') \<and> pack_inv (pack s')
    \<and> (\<forall>k. int (bag_balance s' k) = int (bag_balance s k)
          + (if r = 0 then bag_delta (BagPut item num) k else 0))"
proof (cases "unat num \<le> room (item_id item) (pack s)")
  case True
  obtain s' where s': "PutItem item num s = Inr (0, s')" "pack_inv (pack s')"
    "\<And>j. item_count j (grids (pack s')) =
       item_count j (grids (pack s)) + (if j = item_id item then unat num else 0)"
    by (rule PutItem_accepted [OF assms True]) (rule that)
  have "int (bag_balance s' k) = int (bag_balance s k) + bag_delta (BagPut item num) k" for k
    unfolding bag_balance_def bag_delta_def s'(3) by simp
  then show ?thesis using s' by auto
next
  case False
  then show ?thesis using PutItem_refused [OF assms, of item] assms(1)
    by (simp add: bag_balance_def)
qed

lemma bag_take_books:
  assumes "pack_inv (pack s)" and "unat num < 2147483648"
  shows "\<exists>r s'. RemoveItem i num s = (r, s') \<and> pack_inv (pack s')
    \<and> (\<forall>k. int (bag_balance s' k) = int (bag_balance s k)
          + (if r = 0 then bag_delta (BagTake i num) k else 0))"
proof (cases "unat num \<le> item_count i (grids (pack s))")
  case True
  obtain s' ps where s': "RemoveItem i num s = (0, s')" "pack_inv (pack s')"
    "\<And>j. item_count j (grids (pack s')) =
       item_count j (grids (pack s)) - (if j = i then unat num else 0)"
    by (rule RemoveItem_accepted [OF assms True]) (rule that)
  have "int (bag_balance s' k) = int (bag_balance s k) + bag_delta (BagTake i num) k" for k
    unfolding bag_balance_def bag_delta_def s'(3) using True by (cases "k = i") (simp_all add: of_nat_diff)
  then show ?thesis using s' by auto
next
  case False
  then show ?thesis using RemoveItem_refused [OF assms, of i] assms(1)
    by (simp add: bag_balance_def)
qed

interpretation bag: ledger bag_step "\<lambda>s :: Knapsack. pack_inv (pack s)" bag_admissible bag_balance bag_delta
proof unfold_locales
  fix s :: Knapsack and c
  assume a: "pack_inv (pack s)" "bag_admissible c"
  show "\<exists>r s'. bag_step c s = Inr (r, s') \<and> pack_inv (pack s')
      \<and> (\<forall>k. int (bag_balance s' k) = int (bag_balance s k) + (if r = 0 then bag_delta c k else 0))"
  proof (cases c)
    case (BagPut item num)
    have "unat num < 2147483648" using a(2) by (simp add: BagPut bag_admissible_def)
    from bag_put_books [OF a(1) this, of item] show ?thesis
      by (simp only: BagPut bag_step_def bag_call.case)
  next
    case (BagTake i num)
    have "unat num < 2147483648" using a(2) by (simp add: BagTake bag_admissible_def)
    from bag_take_books [OF a(1) this, of i] show ?thesis
      by (simp only: BagTake bag_step_def bag_call.case sum.inject)
  qed
qed

section \<open>Properties\<close>

definition empty_bag :: "u32 \<Rightarrow> Knapsack" where
  "empty_bag mx = \<lparr>pack = \<lparr>maxgrid = mx, grids = [], nextgid = 1\<rparr>, m_iDirty = 0, fired = []\<rparr>"

definition sword :: RoleItem where
  "sword = \<lparr>item_id = 7, item_level = None, item_gid = None\<rparr>"

lemma empty_bag_inv: "unat mx < 2147483648 \<Longrightarrow> pack_inv (pack (empty_bag mx))"
  by (simp add: empty_bag_def grids_inv_def)




definition sword_bag :: Knapsack where
  "sword_bag = \<lparr>pack = \<lparr>maxgrid = 3,
     grids = [\<lparr>grid_item = sword, grid_num = 1, grid_pos = 1\<rparr>], nextgid = 1\<rparr>, m_iDirty = 0, fired = []\<rparr>"

lemma sword_bag_inv: "pack_inv (pack sword_bag)"
  by (simp add: sword_bag_def grids_inv_def grid_ok_def)




lemma PutItem_fired:
  assumes "PutItem item num s = Inr (0, s')"
  shows "\<exists>evs. fired s' = evs @ [\<lparr>fc_event = EVENT_PLAYER_ITEM_ADD, fc_receiver = None,
    fc_seconds = 0, fc_param = push_bit 32 (ucast (item_id item))\<rparr>]"
  using assms
  by (auto simp: PutItem_def Knapsack_FireEvent_def dest: PutItem_add_0
      split: sum.splits prod.splits if_splits)

lemma PutItem_fill_none:
  assumes "\<forall>g\<in>set gs. grid_ok mx g" and "free_grids i gs = 0"
  shows "PutItem_fill i num gs = (num, gs)"
  using assms
proof (induction gs)
  case Nil
  then show ?case by simp
next
  case (Cons g gs)
  have IH: "PutItem_fill i num gs = (num, gs)" using Cons by (auto split: if_splits)
  have "item_id (grid_item g) \<noteq> i \<or> grid_num g = 1"
    using Cons.prems by (auto simp: grid_ok_def split: if_splits)
  then show ?case using IH by (auto simp: iMaxTiled_def)
qed

lemma PutItem_add_negative:
  assumes "sint num < 0"
  shows "PutItem_add item num s = (0, PutItem_new_grid item num s)"
proof -
  have "num \<noteq> 0" using assms by auto
  then have "PutItem_add item num s = PutItem_add item 0 (PutItem_new_grid item num s)"
    using assms by (subst PutItem_add.simps) (simp add: word_gt_0 iMaxTiled_def)
  then show ?thesis by (subst (asm) (2) PutItem_add.simps) simp
qed

text \<open>
  The capacity check compares \<open>iCap < (int)num\<close>, so an amount of \<open>2^31\<close> or more, which is
  negative as an \<open>int\<close>, passes it whatever the room: with no partly free grid of the item, \<open>PutItem\<close>
  answers \<open>0\<close> and one new grid holds the whole amount, even when the package has no room at all.
\<close>

lemma PutItem_oversize_accepted:
  assumes inv: "pack_inv (pack s)" and big: "2147483648 \<le> unat num"
    and none: "free_grids (item_id item) (grids (pack s)) = 0"
  shows "\<exists>s'. PutItem item num s = Inr (0, s')
    \<and> length (grids (pack s')) = length (grids (pack s)) + 1
    \<and> item_count (item_id item) (grids (pack s')) = item_count (item_id item) (grids (pack s)) + unat num"
proof -
  let ?t = "s\<lparr>m_iDirty := m_iDirty s + 1\<rparr>" and ?t2 = "s\<lparr>m_iDirty := m_iDirty s + 2\<rparr>"
  have neg: "sint num < 0" using big by (rule sint_u32_big)
  have cap: "GetItemCapacity (item_id item) ?t = Inr (int (room (item_id item) (pack s)), ?t2)"
    using GetItemCapacity_room [of "{}" ?t "item_id item"] inv by simp
  have go: "\<not> int (room (item_id item) (pack s)) < sint num" using neg by linarith
  have fill: "PutItem_fill (item_id item) num (grids (pack s)) = (num, grids (pack s))"
    using inv none by (intro PutItem_fill_none) (auto simp: grids_inv_def)
  have res: "PutItem item num s = Inr (0, Knapsack_FireEvent EVENT_PLAYER_ITEM_ADD
      (push_bit 32 (ucast (item_id item))) (PutItem_new_grid item num ?t2))"
    using cap go fill by (simp add: PutItem_def GetPackInfo_def PutItem_add_negative [OF neg])
  obtain pos where "pack (PutItem_new_grid item num ?t2) = (pack ?t2)\<lparr>
       grids := grids (pack ?t2) @ [\<lparr>grid_item = item\<lparr>item_gid := Some (nextgid (pack ?t2))\<rparr>,
                                   grid_num = num, grid_pos = word_of_int pos\<rparr>],
       nextgid := nextgid (pack ?t2) + 1\<rparr>"
    by (rule PutItem_new_grid_spec) (rule that)
  then show ?thesis using res by (simp add: Knapsack_FireEvent_def grid_count_def)
qed

lemma PutItem_oversize_accepted_witness:
  "room 7 (pack (empty_bag 0)) = 0
    \<and> (\<exists>s'. PutItem sword 2147483648 (empty_bag 0) = Inr (0, s')
          \<and> item_count 7 (grids (pack s')) = 2147483648)"
  using PutItem_oversize_accepted [of "empty_bag 0" 2147483648 sword] empty_bag_inv [of 0]
  by (auto simp: empty_bag_def sword_def room_def)

text \<open>
  The event a successful \<open>PutItem\<close> fires is meant to carry the item id in the high half and
  the amount in the low half of its parameter.  The amount has been counted down to zero by then:
  whatever the package and the amount, the last event's parameter is the shifted id alone.
\<close>

lemma PutItem_event_param:
  assumes "PutItem item num s = Inr (0, s')"
  shows "\<exists>evs. fired s' = evs @ [\<lparr>fc_event = EVENT_PLAYER_ITEM_ADD, fc_receiver = None,
    fc_seconds = 0, fc_param = push_bit 32 (ucast (item_id item))\<rparr>]"
  using assms by (rule PutItem_fired)

lemma PutItem_event_param_witness:
  "\<exists>s' evs. PutItem sword 1 (empty_bag 3) = Inr (0, s')
    \<and> fired s' = evs @ [\<lparr>fc_event = EVENT_PLAYER_ITEM_ADD, fc_receiver = None,
          fc_seconds = 0, fc_param = 30064771072\<rparr>]"
proof -
  obtain s' where s': "PutItem sword 1 (empty_bag 3) = Inr (0, s')"
    by (rule PutItem_accepted [of "empty_bag 3" 1 sword])
      (simp_all add: empty_bag_inv, simp add: empty_bag_def room_def)
  show ?thesis using PutItem_event_param [OF s'] s' by (auto simp: sword_def push_bit_eq_mult)
qed

text \<open>
  \<open>ChangeMaxGrid\<close> grows the package by the byte it is given and keeps it well formed and its
  contents unchanged, as long as the new size stays non-negative as an \<open>int\<close>.
\<close>

lemma ChangeMaxGrid_correct:
  assumes "pack_inv (pack s)" and "unat (maxgrid (pack s)) + unat chg < 2147483648"
  shows "\<exists>s'. ChangeMaxGrid chg s = (0, s') \<and> pack_inv (pack s')
    \<and> grids (pack s') = grids (pack s)
    \<and> unat (maxgrid (pack s')) = unat (maxgrid (pack s)) + unat chg"
proof -
  let ?m = "maxgrid (pack s) + ucast chg"
  have "unat (ucast chg :: u32) = unat chg"
    using unsigned_less [of chg, where 'a = nat] by (simp add: unsigned_ucast_eq take_bit_nat_eq_self)
  then have m: "unat ?m = unat (maxgrid (pack s)) + unat chg"
    using assms(2) by (simp add: unat_word_ariths)
  then have "grid_ok (maxgrid (pack s)) g \<Longrightarrow> grid_ok ?m g" for g
    by (auto simp: grid_ok_def word_less_nat_alt)
  then show ?thesis using assms m
    by (auto simp: ChangeMaxGrid_result Knapsack_FireEvent_def grids_inv_def)
qed

lemma ChangeMaxGrid_correct_witness:
  "\<exists>s'. ChangeMaxGrid 5 (empty_bag 10) = (0, s') \<and> unat (maxgrid (pack s')) = 15"
  using ChangeMaxGrid_correct [of "empty_bag 10" 5] empty_bag_inv [of 10]
  by (auto simp: empty_bag_def)

end
