(* ===== verification/TaskLogic.thy ===== *)
theory TaskLogic
  imports Knapsack
begin

text \<open>
  The player's tasks: \<open>rgtd/zone/logic/PlayerTaskLogic.cpp\<close> on the messages \<open>RoleOneTask\<close> of
  \<open>proto/db/Role.proto\<close> and \<open>TaskObj\<close> of \<open>proto/res/task.proto\<close>.

  The lookup in the resource table \<open>TaskTable\<close> is the parameter \<open>cfg\<close>, from a task id to the
  objective of its configuration.  As for the bag, the calls of \<open>FireEvent\<close> are recorded.
\<close>

section \<open>Data\<close>

record RoleOneTask =
  task_id :: u32
  task_cur :: "u32 option"
  task_state :: "u32 option"

record TaskObj =
  obj_event :: u32
  obj_param :: u32
  obj_value :: u32
  obj_method :: u32

definition TASK_STATE_DOING :: u32 where "TASK_STATE_DOING = 0"
definition TASK_STATE_DONE :: u32 where "TASK_STATE_DONE = 1"

definition get_cur :: "RoleOneTask \<Rightarrow> u32" where
  "get_cur t = (case task_cur t of Some c \<Rightarrow> c | None \<Rightarrow> 0)"

definition get_state :: "RoleOneTask \<Rightarrow> u32" where
  "get_state t = (case task_state t of Some c \<Rightarrow> c | None \<Rightarrow> TASK_STATE_DOING)"

record TaskLogic =
  doing :: "RoleOneTask list"
  task_dirty :: int
  task_fired :: "fire_call list"

section \<open>Operations\<close>

definition CheckOneTask :: "(u32 \<Rightarrow> TaskObj option) \<Rightarrow> int \<Rightarrow> u64 \<Rightarrow> RoleOneTask \<Rightarrow> int \<times> RoleOneTask" where
  "CheckOneTask cfg iEvent ulParam task =
     (let dwParam = (ucast (drop_bit 32 ulParam) :: u32);
          dwValue = (ucast (ulParam AND 0xFFFFFFFF) :: u32)
      in case cfg (task_id task) of
           None \<Rightarrow> (-1, task)
         | Some obj \<Rightarrow>
             if sint (obj_event obj) \<noteq> iEvent then (0, task)
             else if obj_param obj \<noteq> 0 \<and> obj_param obj \<noteq> dwParam then (0, task)
             else
               let task =
                     (if obj_method obj = 0 then task\<lparr>task_cur := Some dwValue\<rparr>
                      else if get_state task = TASK_STATE_DOING
                      then task\<lparr>task_cur := Some (get_cur task + dwValue)\<rparr>
                      else task)
               in if get_state task = TASK_STATE_DOING \<and> get_cur task \<ge> obj_value obj
                  then (0, task\<lparr>task_state := Some TASK_STATE_DONE\<rparr>)
                  else (0, task))"

definition task_done_call :: "u32 \<Rightarrow> fire_call" where
  "task_done_call tid = \<lparr>fc_event = EVENT_PLAYER_TASK_DONE, fc_receiver = Some ''task'',
     fc_seconds = 0, fc_param = ucast tid\<rparr>"

text \<open>The loop of \<open>OnEvent\<close>; a task that cannot be checked is swapped to the end and dropped.\<close>

function Task_OnEvent_loop ::
  "(u32 \<Rightarrow> TaskObj option) \<Rightarrow> int \<Rightarrow> u64 \<Rightarrow> nat \<Rightarrow> RoleOneTask list \<Rightarrow> fire_call list
    \<Rightarrow> RoleOneTask list \<times> fire_call list" where
  "Task_OnEvent_loop cfg iEvent ulParam i ts evs =
     (if i < length ts then
        let state = get_state (ts ! i);
            (ret, one_task) = CheckOneTask cfg iEvent ulParam (ts ! i);
            ts = ts[i := one_task]
        in if ret \<noteq> 0 then Task_OnEvent_loop cfg iEvent ulParam i (swap_remove i ts) evs
           else if state = TASK_STATE_DOING \<and> get_state one_task = TASK_STATE_DONE
           then Task_OnEvent_loop cfg iEvent ulParam (i + 1) ts (evs @ [task_done_call (task_id one_task)])
           else Task_OnEvent_loop cfg iEvent ulParam (i + 1) ts evs
      else (ts, evs))"
  by pat_completeness auto
termination
  by (relation "measure (\<lambda>(cfg, ev, p, i, ts, evs). length ts - i)") auto

declare Task_OnEvent_loop.simps [simp del]

definition Task_OnEvent :: "(u32 \<Rightarrow> TaskObj option) \<Rightarrow> int \<Rightarrow> u64 \<Rightarrow> TaskLogic \<Rightarrow> TaskLogic" where
  "Task_OnEvent cfg iEvent ulParam s =
     (let (ts, evs) = Task_OnEvent_loop cfg iEvent ulParam 0 (doing s) (task_fired s)
      in s\<lparr>doing := ts, task_dirty := task_dirty s + 1, task_fired := evs\<rparr>)"

section \<open>What an event does to the list of tasks\<close>

abbreviation checked where "checked cfg ev p t \<equiv> snd (CheckOneTask cfg ev p t)"

definition completes :: "(u32 \<Rightarrow> TaskObj option) \<Rightarrow> int \<Rightarrow> u64 \<Rightarrow> RoleOneTask \<Rightarrow> bool" where
  "completes cfg ev p t \<longleftrightarrow> cfg (task_id t) \<noteq> None \<and> get_state t = TASK_STATE_DOING
     \<and> get_state (checked cfg ev p t) = TASK_STATE_DONE"

lemma CheckOneTask_ret: "fst (CheckOneTask cfg ev p t) = (if cfg (task_id t) = None then -1 else 0)"
  by (auto simp: CheckOneTask_def Let_def split: option.split)

lemma CheckOneTask_id [simp]: "task_id (checked cfg ev p t) = task_id t"
  by (auto simp: CheckOneTask_def Let_def split: option.split)

lemma take_swap_remove: "i < length xs \<Longrightarrow> take i (swap_remove i xs) = take i xs"
  by (rule nth_equalityI) (auto simp: swap_remove_def SwapElements_def nth_butlast)

lemma mset_drop_swap_remove:
  assumes "i < length xs"
  shows "mset (drop i (swap_remove i xs)) = mset (drop (Suc i) xs)"
proof -
  have "mset (take i xs) + mset (drop i (swap_remove i xs)) = mset (swap_remove i xs)"
    using assms by (metis append_take_drop_id mset_append take_swap_remove)
  also have "\<dots> = mset xs - {#xs ! i#}" using assms by (rule mset_swap_remove)
  also have "mset xs = mset (take i xs) + add_mset (xs ! i) (mset (drop (Suc i) xs))"
    using assms by (metis id_take_nth_drop mset.simps(2) mset_append)
  finally show ?thesis by simp
qed

lemma Task_OnEvent_loop_spec:
  assumes "Task_OnEvent_loop cfg ev p i ts evs = (ts', evs')"
  shows "mset ts' = mset (take i ts)
      + image_mset (checked cfg ev p) (filter_mset (\<lambda>t. cfg (task_id t) \<noteq> None) (mset (drop i ts)))
    \<and> mset evs' = mset evs + image_mset (\<lambda>t. task_done_call (task_id t))
        (filter_mset (completes cfg ev p) (mset (drop i ts)))"
  using assms
proof (induction cfg ev p i ts evs arbitrary: ts' evs' rule: Task_OnEvent_loop.induct)
  case (1 cfg ev p i ts evs)
  show ?case
  proof (cases "i < length ts")
    case False
    then show ?thesis using 1(4) by (simp add: Task_OnEvent_loop.simps [of _ _ _ i])
  next
    case True
    let ?t = "ts ! i" and ?t' = "checked cfg ev p (ts ! i)"
    let ?us = "ts[i := ?t']"
    have dr: "drop i ts = ?t # drop (Suc i) ts" using True by (simp add: Cons_nth_drop_Suc)
    have tk: "take (Suc i) ?us = take i ts @ [?t']" using True by (simp add: take_Suc_conv_app_nth)
    have pr: "(fst (CheckOneTask cfg ev p ?t), ?t') = CheckOneTask cfg ev p ?t" by simp
    show ?thesis
    proof (cases "cfg (task_id ?t)")
      case None
      then have r: "fst (CheckOneTask cfg ev p ?t) \<noteq> 0" by (simp add: CheckOneTask_ret)
      then have "Task_OnEvent_loop cfg ev p i (swap_remove i ?us) evs = (ts', evs')"
        using 1(4) True by (simp add: Task_OnEvent_loop.simps [of _ _ _ i ts] case_prod_beta Let_def)
      note IH = 1(1) [OF True refl refl pr refl r this]
      have "mset (drop i (swap_remove i ?us)) = mset (drop (Suc i) ts)"
        using True by (simp add: mset_drop_swap_remove)
      moreover have "take i (swap_remove i ?us) = take i ts" using True by (simp add: take_swap_remove)
      ultimately show ?thesis using IH None by (simp add: dr completes_def)
    next
      case (Some obj)
      then have r: "\<not> fst (CheckOneTask cfg ev p ?t) \<noteq> 0" by (simp add: CheckOneTask_ret)
      have df: "drop (i + 1) ?us = drop (Suc i) ts" by simp
      show ?thesis
      proof (cases "get_state ?t = TASK_STATE_DOING \<and> get_state ?t' = TASK_STATE_DONE")
        case True': True
        have "Task_OnEvent_loop cfg ev p (i + 1) ?us (evs @ [task_done_call (task_id ?t')]) = (ts', evs')"
          using 1(4) True r True'
          by (simp add: Task_OnEvent_loop.simps [of _ _ _ i ts] case_prod_beta Let_def)
        note IH = 1(2) [OF True refl refl pr refl r True' this]
        show ?thesis using IH Some True' by (simp add: dr df tk completes_def)
      next
        case False
        have "Task_OnEvent_loop cfg ev p (i + 1) ?us evs = (ts', evs')"
          using 1(4) True r False
          by (auto simp: Task_OnEvent_loop.simps [of _ _ _ i ts] case_prod_beta Let_def)
        note IH = 1(3) [OF True refl refl pr refl r False this]
        show ?thesis using IH Some False by (auto simp: dr df tk completes_def)
      qed
    qed
  qed
qed

section \<open>Properties\<close>

text \<open>
  C34.  An event changes the list of running tasks as follows, whatever the order of the list: the
  tasks without configuration are dropped, every other task is checked exactly once and kept, and
  one \<open>TASK_DONE\<close> event is fired for each task that goes from doing to done, none for any other.
  In particular the loop terminates and the removal by swapping skips no task.
\<close>

theorem Task_OnEvent_correct:
  "mset (doing (Task_OnEvent cfg ev p s))
      = image_mset (checked cfg ev p) (filter_mset (\<lambda>t. cfg (task_id t) \<noteq> None) (mset (doing s)))
   \<and> mset (task_fired (Task_OnEvent cfg ev p s))
      = mset (task_fired s)
        + image_mset (\<lambda>t. task_done_call (task_id t)) (filter_mset (completes cfg ev p) (mset (doing s)))"
proof -
  obtain ts evs where r: "Task_OnEvent_loop cfg ev p 0 (doing s) (task_fired s) = (ts, evs)" by fastforce
  show ?thesis using Task_OnEvent_loop_spec [OF r] by (simp add: Task_OnEvent_def r)
qed

text \<open>
  A task that is done stays done whatever events follow, and it turns done only by an event
  of its own code, with its own parameter if it has one, and with the required value reached.
\<close>

lemma CheckOneTask_done:
  "(get_state t = TASK_STATE_DONE \<longrightarrow> get_state (checked cfg ev p t) = TASK_STATE_DONE)
   \<and> (completes cfg ev p t \<longrightarrow> (\<exists>obj. cfg (task_id t) = Some obj \<and> sint (obj_event obj) = ev
        \<and> (obj_param obj = 0 \<or> obj_param obj = ucast (drop_bit 32 p))
        \<and> obj_value obj \<le> get_cur (checked cfg ev p t)))"
  unfolding completes_def
  by (auto simp: CheckOneTask_def Let_def get_state_def get_cur_def TASK_STATE_DOING_def
      TASK_STATE_DONE_def split: option.splits if_splits)

definition collect_task :: RoleOneTask where
  "collect_task = \<lparr>task_id = 11, task_cur = Some 2, task_state = None\<rparr>"

definition collect_cfg :: "u32 \<Rightarrow> TaskObj option" where
  "collect_cfg i = (if i = 11
     then Some \<lparr>obj_event = 2004, obj_param = 7, obj_value = 3, obj_method = 1\<rparr> else None)"

lemma CheckOneTask_done_witness:
  "completes collect_cfg 2004 (push_bit 32 7 OR 1) collect_task
   \<and> 3 \<le> get_cur (checked collect_cfg 2004 (push_bit 32 7 OR 1) collect_task)"
proof -
  have c: "completes collect_cfg 2004 (push_bit 32 7 OR 1) collect_task"
    by (simp add: completes_def CheckOneTask_def collect_cfg_def collect_task_def get_state_def
        get_cur_def TASK_STATE_DOING_def TASK_STATE_DONE_def)
  then show ?thesis
    using CheckOneTask_done [of collect_task collect_cfg 2004 "push_bit 32 7 OR 1"]
    by (simp add: collect_cfg_def collect_task_def)
qed

text \<open>
  A task that counts the items a player receives never makes progress: the event a successful
  \<open>PutItem\<close> fires carries the value zero, so checking a counting task on it leaves its counter.
\<close>

lemma PutItem_event_no_progress:
  assumes "PutItem item num s = Inr (0, s')" and "cfg (task_id t) = Some obj"
    and "obj_method obj \<noteq> 0"
  shows "get_cur (checked cfg (fc_event (last (fired s'))) (fc_param (last (fired s'))) t) = get_cur t"
proof -
  obtain evs where e: "fired s' = evs @ [\<lparr>fc_event = EVENT_PLAYER_ITEM_ADD, fc_receiver = None,
      fc_seconds = 0, fc_param = push_bit 32 (ucast (item_id item))\<rparr>]"
    using PutItem_fired [OF assms(1)] by blast
  have low: "ucast (push_bit 32 (ucast (item_id item) :: u64) AND 0xFFFFFFFF) = (0 :: u32)"
    by (rule bit_word_eqI) (auto simp: bit_simps)
  show ?thesis using assms(2,3) low
    by (auto simp: e CheckOneTask_def Let_def get_cur_def get_state_def split: option.splits)
qed

lemma PutItem_event_no_progress_witness:
  "\<exists>s'. PutItem sword 1 (empty_bag 3) = Inr (0, s')
    \<and> get_cur (checked collect_cfg (fc_event (last (fired s'))) (fc_param (last (fired s'))) collect_task) = 2"
proof -
  obtain s' where s': "PutItem sword 1 (empty_bag 3) = Inr (0, s')"
    by (rule PutItem_accepted [of "empty_bag 3" 1 sword])
      (simp_all add: empty_bag_inv, simp add: empty_bag_def room_def)
  show ?thesis
    using PutItem_event_no_progress [OF s', of collect_cfg collect_task] s'
    by (simp add: collect_cfg_def collect_task_def get_cur_def)
qed

end
