(* ===== verification/TimerMgr.thy ===== *)
theory TimerMgr
  imports Prelude "HOL-Library.Signed_Division"
begin

text \<open>
  The timer manager: \<open>component/TimerMgr.h\<close> and \<open>component/TimerMgr.cpp\<close>.

  The multimap \<open>m_mpTimers\<close> is the list of its pairs in iteration order, the two hash tables
  are maps, and function pointers are values of a type parameter \<open>'c\<close>.  \<open>Expired\<close> walks the
  multimap while the callbacks it calls insert into it; its iterator is the field \<open>m_it\<close>, the
  index of the element it points at (the length of the list is \<open>end()\<close>), which an insertion in
  front of it shifts.  What a function pointer does when called is the parameter \<open>run\<close>, on the
  manager and the rest of the process; the clock functions of \<open>base/DateTime.h\<close> and the results
  of the system calls are parameters too.
\<close>

section \<open>State\<close>

record timeval =
  tv_sec :: int
  tv_usec :: int

record 'c TimerEvent =
  te_iEvent :: int
  te_ulParam :: u64
  te_cb :: "'c option"
  te_ulExpiredTime :: u64
  te_dwTimerID :: u32

record 'c TimerMgr =
  m_lTickUs :: int
  m_itv :: timeval
  m_curTime :: timeval
  m_curMsTime :: u64
  m_lastTime :: timeval
  m_old_sa :: bool  \<comment> \<open>the saved action has a handler\<close>
  m_updatTickHandler :: "'c option"
  m_mpTimers :: "(u64 \<times> u32) list"
  m_mpTimerEvents :: "u32 \<rightharpoonup> 'c TimerEvent"
  m_mpListeners :: "int \<rightharpoonup> 'c"
  dwNextTimerID :: u32
  m_it :: nat

definition TimerMgr_new :: "'c TimerMgr" where
  "TimerMgr_new = \<lparr>m_lTickUs = 0, m_itv = \<lparr>tv_sec = 0, tv_usec = 0\<rparr>,
     m_curTime = \<lparr>tv_sec = 0, tv_usec = 0\<rparr>, m_curMsTime = 0,
     m_lastTime = \<lparr>tv_sec = 0, tv_usec = 0\<rparr>, m_old_sa = False, m_updatTickHandler = None,
     m_mpTimers = [], m_mpTimerEvents = Map.empty, m_mpListeners = Map.empty,
     dwNextTimerID = 1, m_it = 0\<rparr>"

section \<open>Operations\<close>

definition UpdateMsTime :: "'c TimerMgr \<Rightarrow> 'c TimerMgr" where
  "UpdateMsTime m = m\<lparr>m_curMsTime :=
     word_of_int (tv_sec (m_curTime m) * 1000 + tv_usec (m_curTime m) sdiv 1000)\<rparr>"

definition TimerMgr_Destroy :: "'c TimerMgr \<Rightarrow> 'c TimerMgr" where
  "TimerMgr_Destroy m = (if m_old_sa m then m\<lparr>m_old_sa := False, m_updatTickHandler := None\<rparr> else m)"

definition TimerMgr_AddListener :: "int \<Rightarrow> 'c \<Rightarrow> 'c TimerMgr \<Rightarrow> int \<times> 'c TimerMgr" where
  "TimerMgr_AddListener iEvent listener m =
     (if m_mpListeners m iEvent = None
      then (0, m\<lparr>m_mpListeners := (m_mpListeners m)(iEvent \<mapsto> listener)\<rparr>)
      else (-1, m))"

text \<open>\<open>std::multimap::insert\<close>: behind the last pair whose key is not greater.\<close>

definition mm_pos :: "u64 \<Rightarrow> (u64 \<times> u32) list \<Rightarrow> nat" where
  "mm_pos t xs = length (takeWhile (\<lambda>y. fst y \<le> t) xs)"

definition mm_insert :: "u64 \<times> u32 \<Rightarrow> (u64 \<times> u32) list \<Rightarrow> (u64 \<times> u32) list" where
  "mm_insert x xs = take (mm_pos (fst x) xs) xs @ x # drop (mm_pos (fst x) xs) xs"

definition mgr_insert :: "u64 \<times> u32 \<Rightarrow> 'c TimerMgr \<Rightarrow> 'c TimerMgr" where
  "mgr_insert x m = m\<lparr>m_mpTimers := mm_insert x (m_mpTimers m),
     m_it := (if mm_pos (fst x) (m_mpTimers m) \<le> m_it m then m_it m + 1 else m_it m)\<rparr>"

definition AddTimer :: "int \<Rightarrow> int \<Rightarrow> 'c option \<Rightarrow> u64 \<Rightarrow> 'c TimerMgr \<Rightarrow> (u32 \<times> 'c TimerMgr) option" where
  "AddTimer msLater iEvent func ulParam m =
     (let expiredTime = m_curMsTime m + word_of_int msLater
      in case probe (\<lambda>i. m_mpTimerEvents m i \<noteq> None) (dwNextTimerID m) of
           None \<Rightarrow> None
         | Some tid \<Rightarrow>
             let te = \<lparr>te_iEvent = iEvent, te_ulParam = ulParam, te_cb = func,
                       te_ulExpiredTime = expiredTime, te_dwTimerID = tid\<rparr>;
                 m = mgr_insert (expiredTime, tid) m;
                 m = m\<lparr>m_mpTimerEvents := (m_mpTimerEvents m)(tid \<mapsto> te)\<rparr>
             in Some (tid, m\<lparr>dwNextTimerID := tid + 1\<rparr>))"

definition CancelTimer :: "u32 \<Rightarrow> 'c TimerMgr \<Rightarrow> 'c TimerMgr" where
  "CancelTimer dwEventHandle m =
     m\<lparr>m_mpTimerEvents := (m_mpTimerEvents m)(dwEventHandle := None)\<rparr>"

type_synonym ('c, 'e) runner =
  "'c \<Rightarrow> int \<Rightarrow> u64 \<Rightarrow> 'c TimerMgr \<times> 'e \<Rightarrow> ('c TimerMgr \<times> 'e) option"

text \<open>Deliver one event: to its own callback, or to the listener of its code.\<close>

definition Expired_fire :: "('c, 'e) runner \<Rightarrow> 'c TimerEvent \<Rightarrow> 'c TimerMgr \<times> 'e \<Rightarrow> ('c TimerMgr \<times> 'e) option" where
  "Expired_fire run te me =
     (case te_cb te of
        Some cb \<Rightarrow> run cb (te_iEvent te) (te_ulParam te) me
      | None \<Rightarrow>
          (case m_mpListeners (fst me) (te_iEvent te) of
             Some cb \<Rightarrow> run cb (te_iEvent te) (te_ulParam te) me
           | None \<Rightarrow> Some me))"

text \<open>Body of the loop of \<open>Expired\<close>: take the pair at the iterator out, deliver its event.\<close>

definition Expired_step :: "('c, 'e) runner \<Rightarrow> 'c TimerMgr \<times> 'e \<Rightarrow> ('c TimerMgr \<times> 'e) option" where
  "Expired_step run me =
     (let (m, e) = me;
          dwTimerID = snd (m_mpTimers m ! m_it m);
          m = m\<lparr>m_mpTimers := take (m_it m) (m_mpTimers m) @ drop (Suc (m_it m)) (m_mpTimers m)\<rparr>
      in case m_mpTimerEvents m dwTimerID of
           Some te \<Rightarrow>
             Expired_fire run te (m\<lparr>m_mpTimerEvents := (m_mpTimerEvents m)(dwTimerID := None)\<rparr>, e)
         | None \<Rightarrow> Some (m, e))"

definition Expired_due :: "'c TimerMgr \<Rightarrow> bool" where
  "Expired_due m \<longleftrightarrow> m_it m < length (m_mpTimers m) \<and> fst (m_mpTimers m ! m_it m) \<le> m_curMsTime m"

partial_function (option) Expired_loop ::
  "('c, 'e) runner \<Rightarrow> 'c TimerMgr \<times> 'e \<Rightarrow> ('c TimerMgr \<times> 'e) option" where
  "Expired_loop run me =
     (if Expired_due (fst me)
      then Option.bind (Expired_step run me) (Expired_loop run)
      else Some me)"

definition Expired :: "('c, 'e) runner \<Rightarrow> 'c TimerMgr \<times> 'e \<Rightarrow> ('c TimerMgr \<times> 'e) option" where
  "Expired run me = Expired_loop run ((fst me)\<lparr>m_it := 0\<rparr>, snd me)"

text \<open>
  The signal handler.  \<open>tvNow\<close> is what the clock says; \<open>uspast\<close> and \<open>usappend\<close> are the functions of
  \<open>base/DateTime.h\<close>; \<open>tick\<close> is what a call of the tick handler does.
\<close>

definition UpdateTick ::
  "(timeval \<Rightarrow> timeval \<Rightarrow> int) \<Rightarrow> (timeval \<Rightarrow> int \<Rightarrow> timeval) \<Rightarrow> ('c, 'e) runner
    \<Rightarrow> ('c \<Rightarrow> timeval \<Rightarrow> int \<Rightarrow> 'c TimerMgr \<times> 'e \<Rightarrow> ('c TimerMgr \<times> 'e) option)
    \<Rightarrow> timeval \<Rightarrow> 'c TimerMgr \<times> 'e \<Rightarrow> ('c TimerMgr \<times> 'e) option" where
  "UpdateTick uspast usappend run tick tvNow me =
     (let (m, e) = me;
          lElapseTime = sint (word_of_int (uspast tvNow (m_lastTime m)) :: u32);
          m = m\<lparr>m_curTime := usappend (m_curTime m) lElapseTime\<rparr>;
          m = UpdateMsTime m;
          m = m\<lparr>m_lastTime := tvNow\<rparr>
      in case (if lElapseTime > 10000 then Expired run (m, e) else Some (m, e)) of
           None \<Rightarrow> None
         | Some (m, e) \<Rightarrow>
             (case m_updatTickHandler m of
                Some h \<Rightarrow> tick h (m_curTime m) lElapseTime (m, e)
              | None \<Rightarrow> Some (m, e)))"

text \<open>
  \<open>Init\<close>: \<open>now1\<close> and \<open>now2\<close> are the two clock readings; \<open>old_sa\<close> is \<open>None\<close> when \<open>SignalAction\<close> fails,
  and otherwise says whether the action it replaced had a handler; \<open>timer_ret\<close> is the result of
  \<open>setitimer\<close>.
\<close>

definition TimerMgr_Init ::
  "timeval \<Rightarrow> timeval \<Rightarrow> bool option \<Rightarrow> int \<Rightarrow> int \<Rightarrow> 'c option \<Rightarrow> 'c TimerMgr \<Rightarrow> int \<times> 'c TimerMgr" where
  "TimerMgr_Init now1 now2 old_sa timer_ret lTickUs handler m =
     (let m = m\<lparr>m_lTickUs := lTickUs, m_curTime := now1, m_lastTime := now2\<rparr>;
          m = UpdateMsTime m
      in case old_sa of
           None \<Rightarrow> (-1, m)
         | Some old \<Rightarrow>
             let m = m\<lparr>m_old_sa := old,
                       m_itv := \<lparr>tv_sec = lTickUs sdiv 1000000, tv_usec = lTickUs smod 1000000\<rparr>\<rparr>
             in if timer_ret \<noteq> 0 then (-1, m)
                else (timer_ret, m\<lparr>m_updatTickHandler := handler\<rparr>))"

section \<open>The multimap\<close>

lemma mset_mm_insert [simp]: "mset (mm_insert x xs) = add_mset x (mset xs)"
  by (simp add: mm_insert_def) (metis append_take_drop_id mset_append)

lemma set_mm_insert [simp]: "set (mm_insert x xs) = insert x (set xs)"
  by (metis mset_mm_insert set_mset_add_mset_insert set_mset_mset)

lemma mm_pos_le: "mm_pos t xs \<le> length xs"
  by (simp add: mm_pos_def length_takeWhile_le)

lemma take_mm_pos: "take (mm_pos t xs) xs = takeWhile (\<lambda>y. fst y \<le> t) xs"
  by (simp add: mm_pos_def takeWhile_eq_take [symmetric])

lemma drop_mm_pos: "drop (mm_pos t xs) xs = dropWhile (\<lambda>y. fst y \<le> t) xs"
  by (simp add: mm_pos_def dropWhile_eq_drop [symmetric])

lemma mm_insert_alt:
  "mm_insert x xs = takeWhile (\<lambda>y. fst y \<le> fst x) xs @ x # dropWhile (\<lambda>y. fst y \<le> fst x) xs"
  by (simp add: mm_insert_def take_mm_pos drop_mm_pos)

definition mm_sorted :: "(u64 \<times> u32) list \<Rightarrow> bool" where
  "mm_sorted xs = sorted (map fst xs)"

lemma mm_sorted_simps [simp]:
  "mm_sorted []"
  "mm_sorted (x # xs) \<longleftrightarrow> (\<forall>y\<in>set xs. fst x \<le> fst y) \<and> mm_sorted xs"
  "mm_sorted (xs @ ys) \<longleftrightarrow> mm_sorted xs \<and> mm_sorted ys \<and> (\<forall>x\<in>set xs. \<forall>y\<in>set ys. fst x \<le> fst y)"
  by (auto simp: mm_sorted_def sorted_append)

lemma mm_sorted_insert [simp]: "mm_sorted xs \<Longrightarrow> mm_sorted (mm_insert x xs)"
proof (induction xs)
  case Nil
  then show ?case by (simp add: mm_insert_alt)
next
  case (Cons y xs)
  show ?case
  proof (cases "fst y \<le> fst x")
    case True
    then have "mm_insert x (y # xs) = y # mm_insert x xs" by (simp add: mm_insert_alt)
    then show ?thesis using Cons True by auto
  next
    case False
    then have "mm_insert x (y # xs) = x # y # xs" by (simp add: mm_insert_alt)
    then show ?thesis using Cons.prems False by auto
  qed
qed

section \<open>Adding and cancelling\<close>

text \<open>
  What clients rely on: a fresh handle for every timer, the pending timers change only by the
  timer that is added or cancelled.
\<close>

locale timer_service =
  fixes add_timer :: "int \<Rightarrow> int \<Rightarrow> 'c option \<Rightarrow> u64 \<Rightarrow> 'm \<Rightarrow> (u32 \<times> 'm) option"
    and cancel :: "u32 \<Rightarrow> 'm \<Rightarrow> 'm"
    and pending :: "'m \<Rightarrow> u32 \<rightharpoonup> int \<times> 'c option \<times> u64"
  assumes add_pending: "dom (pending m) \<noteq> UNIV \<Longrightarrow>
      \<exists>i m'. add_timer ms ev cb p m = Some (i, m') \<and> pending m i = None
        \<and> pending m' = (pending m)(i \<mapsto> (ev, cb, p))"
    and cancel_pending: "pending (cancel i m) = (pending m)(i := None)"
begin

lemma add_cancel:
  assumes "dom (pending m) \<noteq> UNIV"
  shows "\<exists>i m'. add_timer ms ev cb p m = Some (i, m') \<and> pending (cancel i m') = pending m"
  using add_pending [OF assms, of ms ev cb p] by (fastforce simp: cancel_pending fun_upd_idem_iff)

lemma add_keeps:
  assumes "add_timer ms ev cb p m = Some (i, m')" and "dom (pending m) \<noteq> UNIV"
    and "pending m j = Some x"
  shows "pending m' j = Some x \<and> i \<noteq> j"
  using add_pending [OF assms(2), of ms ev cb p] assms by auto

end

definition timer_pending :: "'c TimerMgr \<Rightarrow> u32 \<rightharpoonup> int \<times> 'c option \<times> u64" where
  "timer_pending m = (\<lambda>i. map_option (\<lambda>te. (te_iEvent te, te_cb te, te_ulParam te)) (m_mpTimerEvents m i))"

lemma timer_pending_eq_None [simp]: "timer_pending m i = None \<longleftrightarrow> m_mpTimerEvents m i = None"
  by (simp add: timer_pending_def)

lemma AddTimer_result:
  assumes "m_mpTimerEvents m j = None"
  obtains tid where "m_mpTimerEvents m tid = None"
    and "AddTimer ms ev cb p m = Some (tid, m\<lparr>
      m_mpTimers := mm_insert (m_curMsTime m + word_of_int ms, tid) (m_mpTimers m),
      m_it := (if mm_pos (m_curMsTime m + word_of_int ms) (m_mpTimers m) \<le> m_it m then m_it m + 1 else m_it m),
      m_mpTimerEvents := (m_mpTimerEvents m)(tid \<mapsto> \<lparr>te_iEvent = ev, te_ulParam = p, te_cb = cb,
        te_ulExpiredTime = m_curMsTime m + word_of_int ms, te_dwTimerID = tid\<rparr>),
      dwNextTimerID := tid + 1\<rparr>)"
proof -
  obtain tid where "probe (\<lambda>i. m_mpTimerEvents m i \<noteq> None) (dwNextTimerID m) = Some tid"
    and "m_mpTimerEvents m tid = None"
    using probe_word_returns [of "\<lambda>i. m_mpTimerEvents m i \<noteq> None" j] assms by auto
  then show thesis by (intro that [of tid]) (simp_all add: AddTimer_def mgr_insert_def Let_def)
qed

interpretation timers: timer_service AddTimer CancelTimer timer_pending
proof unfold_locales
  fix m :: "'c TimerMgr" and ms ev cb p
  assume "dom (timer_pending m) \<noteq> UNIV"
  then obtain j where "m_mpTimerEvents m j = None" by (auto simp: dom_def timer_pending_def)
  then obtain tid where tid: "m_mpTimerEvents m tid = None"
    and eq: "AddTimer ms ev cb p m = Some (tid, m\<lparr>
      m_mpTimers := mm_insert (m_curMsTime m + word_of_int ms, tid) (m_mpTimers m),
      m_it := (if mm_pos (m_curMsTime m + word_of_int ms) (m_mpTimers m) \<le> m_it m then m_it m + 1 else m_it m),
      m_mpTimerEvents := (m_mpTimerEvents m)(tid \<mapsto> \<lparr>te_iEvent = ev, te_ulParam = p, te_cb = cb,
        te_ulExpiredTime = m_curMsTime m + word_of_int ms, te_dwTimerID = tid\<rparr>),
      dwNextTimerID := tid + 1\<rparr>)"
    by (rule AddTimer_result)
  show "\<exists>i m'. AddTimer ms ev cb p m = Some (i, m') \<and> timer_pending m i = None
      \<and> timer_pending m' = (timer_pending m)(i \<mapsto> (ev, cb, p))"
    using tid by (auto simp: eq timer_pending_def fun_eq_iff)
next
  fix i and m :: "'c TimerMgr"
  show "timer_pending (CancelTimer i m) = (timer_pending m)(i := None)"
    by (simp add: CancelTimer_def timer_pending_def fun_eq_iff)
qed

interpretation listeners: registry TimerMgr_AddListener m_mpListeners
  by unfold_locales (auto simp: TimerMgr_AddListener_def)

section \<open>The expiry loop\<close>

text \<open>
  What a callback may do to the manager while \<open>Expired\<close> runs: any sequence of timers added with a
  positive delay that does not run past the end of the clock, and of cancellations.
\<close>

inductive cb_effect :: "'c TimerMgr \<Rightarrow> 'c TimerMgr \<Rightarrow> bool" where
  cb_done: "cb_effect m m"
| cb_add: "\<lbrakk>cb_effect m m'; 0 < ms; uint (m_curMsTime m') + ms < 18446744073709551616;
     AddTimer ms ev cb p m' = Some (tid, m'')\<rbrakk> \<Longrightarrow> cb_effect m m''"
| cb_cancel: "cb_effect m m' \<Longrightarrow> cb_effect m (CancelTimer tid m')"

definition due_entries :: "'c TimerMgr \<Rightarrow> (u64 \<times> u32) list" where
  "due_entries m = filter (\<lambda>x. fst x \<le> m_curMsTime m) (m_mpTimers m)"

text \<open>Invariant of the loop: the list is sorted and nothing in front of the iterator is due.\<close>

definition expiry_inv :: "'c TimerMgr \<Rightarrow> bool" where
  "expiry_inv m \<longleftrightarrow> mm_sorted (m_mpTimers m) \<and> m_it m \<le> length (m_mpTimers m)
     \<and> (\<forall>x\<in>set (take (m_it m) (m_mpTimers m)). m_curMsTime m < fst x)"

lemma later_time:
  assumes "0 < ms" and "uint (c :: u64) + ms < 18446744073709551616"
  shows "c < c + word_of_int ms"
proof -
  have c: "0 \<le> uint c" by simp
  then have "ms < 18446744073709551616" using assms(2) by linarith
  then have "uint (word_of_int ms :: u64) = ms"
    using assms(1) by (simp add: unsigned_of_int take_bit_int_eq_self)
  then have "uint (c + word_of_int ms) = (uint c + ms) mod 2 ^ 64" by (simp add: uint_word_ariths)
  also have "\<dots> = uint c + ms" using assms c by simp
  finally have "uint (c + word_of_int ms) = uint c + ms" .
  then show ?thesis using assms(1) by (simp add: word_less_def)
qed

lemma mgr_insert_expiry:
  assumes inv: "expiry_inv m" and t: "m_curMsTime m < t"
  shows "expiry_inv (mgr_insert (t, tid) m)
    \<and> due_entries (mgr_insert (t, tid) m) = due_entries m"
proof -
  let ?xs = "m_mpTimers m" and ?k = "mm_pos t (m_mpTimers m)" and ?j = "m_it m"
  have k: "?k \<le> length ?xs" by (rule mm_pos_le)
  have ins: "mm_insert (t, tid) ?xs = take ?k ?xs @ (t, tid) # drop ?k ?xs" by (simp add: mm_insert_def)
  have due: "due_entries (mgr_insert (t, tid) m) = due_entries m"
  proof -
    have "filter P (take ?k ?xs) @ filter P (drop ?k ?xs) = filter P ?xs" for P
      by (metis append_take_drop_id filter_append)
    then show ?thesis using t by (simp add: due_entries_def mgr_insert_def ins not_le)
  qed
  have late: "\<forall>x\<in>set (take ?j ?xs). m_curMsTime m < fst x" using inv by (simp add: expiry_inv_def)
  have "\<forall>x\<in>set (take (if ?k \<le> ?j then ?j + 1 else ?j) (mm_insert (t, tid) ?xs)). m_curMsTime m < fst x"
  proof (cases "?k \<le> ?j")
    case True
    have "take (?j + 1) (mm_insert (t, tid) ?xs) = take ?k ?xs @ (t, tid) # take (?j - ?k) (drop ?k ?xs)"
      using True k by (simp add: ins Suc_diff_le)
    moreover have "take ?j ?xs = take ?k ?xs @ take (?j - ?k) (drop ?k ?xs)"
      using True by (metis le_add_diff_inverse take_add)
    ultimately show ?thesis using True late t by auto
  next
    case False
    then have "take ?j (mm_insert (t, tid) ?xs) = take ?j ?xs" using k by (simp add: ins)
    then show ?thesis using False late by simp
  qed
  moreover have "length (mm_insert (t, tid) ?xs) = length ?xs + 1" using k by (simp add: ins)
  ultimately show ?thesis using inv due
    by (auto simp: expiry_inv_def mgr_insert_def)
qed

lemma AddTimer_mgr_insert:
  assumes "AddTimer ms ev cb p m = Some (tid, m')"
  shows "m_mpTimers m' = m_mpTimers (mgr_insert (m_curMsTime m + word_of_int ms, tid) m)
    \<and> m_it m' = m_it (mgr_insert (m_curMsTime m + word_of_int ms, tid) m)
    \<and> m_curMsTime m' = m_curMsTime m"
  using assms by (auto simp: AddTimer_def mgr_insert_def Let_def split: option.splits)

lemma expiry_inv_cong:
  assumes "m_mpTimers m' = m_mpTimers m" and "m_it m' = m_it m" and "m_curMsTime m' = m_curMsTime m"
  shows "expiry_inv m' = expiry_inv m" and "due_entries m' = due_entries m"
  using assms by (simp_all add: expiry_inv_def due_entries_def)

lemma cb_effect_expiry:
  assumes "cb_effect m m'" and "expiry_inv m"
  shows "expiry_inv m' \<and> due_entries m' = due_entries m \<and> m_curMsTime m' = m_curMsTime m"
  using assms
proof (induction rule: cb_effect.induct)
  case (cb_done m)
  then show ?case by simp
next
  case (cb_add m m' ms ev cb p tid m'')
  let ?n = "mgr_insert (m_curMsTime m' + word_of_int ms, tid) m'"
  note A = AddTimer_mgr_insert [OF cb_add.hyps(4)]
  have "m_curMsTime m' < m_curMsTime m' + word_of_int ms"
    using cb_add.hyps(2,3) by (rule later_time)
  then have I: "expiry_inv ?n \<and> due_entries ?n = due_entries m'"
    using cb_add mgr_insert_expiry by blast
  have "m_curMsTime m'' = m_curMsTime ?n" using A by (simp add: mgr_insert_def)
  then have "expiry_inv m'' = expiry_inv ?n" "due_entries m'' = due_entries ?n"
    using A expiry_inv_cong [of m'' ?n] by simp_all
  then show ?case using I A cb_add.IH cb_add.prems by simp
next
  case (cb_cancel m m' tid)
  then show ?case by (auto simp: CancelTimer_def expiry_inv_def due_entries_def)
qed

lemma Expired_due_entries:
  assumes inv: "expiry_inv m" and due: "Expired_due m"
  shows "due_entries m = m_mpTimers m ! m_it m #
      due_entries (m\<lparr>m_mpTimers := take (m_it m) (m_mpTimers m) @ drop (Suc (m_it m)) (m_mpTimers m)\<rparr>)"
    and "expiry_inv (m\<lparr>m_mpTimers := take (m_it m) (m_mpTimers m) @ drop (Suc (m_it m)) (m_mpTimers m)\<rparr>)"
proof -
  let ?xs = "m_mpTimers m" and ?j = "m_it m"
  have j: "?j < length ?xs" and x: "fst (?xs ! ?j) \<le> m_curMsTime m"
    using due by (simp_all add: Expired_due_def)
  have sp: "?xs = take ?j ?xs @ ?xs ! ?j # drop (Suc ?j) ?xs" using j by (rule id_take_nth_drop)
  have "\<forall>x\<in>set (take ?j ?xs). \<not> fst x \<le> m_curMsTime m" using inv by (auto simp: expiry_inv_def)
  then have pre: "filter (\<lambda>x. fst x \<le> m_curMsTime m) (take ?j ?xs) = []" by simp
  have "filter (\<lambda>x. fst x \<le> m_curMsTime m) ?xs
      = ?xs ! ?j # filter (\<lambda>x. fst x \<le> m_curMsTime m) (drop (Suc ?j) ?xs)"
    by (subst sp) (simp only: filter_append pre filter.simps x if_True append_Nil)
  then show "due_entries m = ?xs ! ?j # due_entries (m\<lparr>m_mpTimers := take ?j ?xs @ drop (Suc ?j) ?xs\<rparr>)"
    by (simp add: due_entries_def pre)
  have "mm_sorted (take ?j ?xs @ ?xs ! ?j # drop (Suc ?j) ?xs)" using inv sp by (simp add: expiry_inv_def)
  then show "expiry_inv (m\<lparr>m_mpTimers := take ?j ?xs @ drop (Suc ?j) ?xs\<rparr>)"
    using inv j by (simp add: expiry_inv_def)
qed

lemma not_due_drained:
  assumes "expiry_inv m" and "\<not> Expired_due m"
  shows "due_entries m = []"
proof (cases "m_it m < length (m_mpTimers m)")
  case True
  let ?xs = "m_mpTimers m" and ?j = "m_it m"
  have late: "m_curMsTime m < fst (?xs ! ?j)" using assms(2) True by (simp add: Expired_due_def)
  have sp: "?xs = take ?j ?xs @ ?xs ! ?j # drop (Suc ?j) ?xs" using True by (rule id_take_nth_drop)
  have "mm_sorted (take ?j ?xs @ ?xs ! ?j # drop (Suc ?j) ?xs)"
    using assms(1) sp by (simp add: expiry_inv_def)
  then have "\<forall>x\<in>set (drop (Suc ?j) ?xs). m_curMsTime m < fst x" using late by auto
  moreover have "\<forall>x\<in>set (take ?j ?xs). m_curMsTime m < fst x" using assms(1) by (simp add: expiry_inv_def)
  ultimately have "\<forall>x\<in>set ?xs. m_curMsTime m < fst x"
    using late by (subst sp) auto
  then show ?thesis by (auto simp: due_entries_def not_le)
next
  case False
  then show ?thesis using assms(1) by (auto simp: due_entries_def expiry_inv_def not_le)
qed

text \<open>The contract of the callbacks during a run of \<open>Expired\<close>.\<close>

definition cb_contract :: "('c, 'e) runner \<Rightarrow> bool" where
  "cb_contract run \<longleftrightarrow> (\<forall>cb ev p m e. \<exists>m' e'. run cb ev p (m, e) = Some (m', e') \<and> cb_effect m m')"

lemma Expired_step_effect:
  assumes "cb_contract run" and inv: "expiry_inv m" and due: "Expired_due m"
  shows "\<exists>m' e'. Expired_step run (m, e) = Some (m', e') \<and> expiry_inv m'
    \<and> due_entries m = m_mpTimers m ! m_it m # due_entries m' \<and> m_curMsTime m' = m_curMsTime m"
proof -
  let ?n = "m\<lparr>m_mpTimers := take (m_it m) (m_mpTimers m) @ drop (Suc (m_it m)) (m_mpTimers m)\<rparr>"
  let ?tid = "snd (m_mpTimers m ! m_it m)"
  let ?k = "?n\<lparr>m_mpTimerEvents := (m_mpTimerEvents m)(?tid := None)\<rparr>"
  note D = Expired_due_entries [OF inv due]
  have k: "expiry_inv ?k" "due_entries ?k = due_entries ?n"
    using D(2) expiry_inv_cong [of ?k ?n] by simp_all
  show ?thesis
  proof (cases "m_mpTimerEvents m ?tid")
    case None
    then have "Expired_step run (m, e) = Some (?n, e)" by (simp add: Expired_step_def Let_def)
    then show ?thesis using D by simp
  next
    case (Some te)
    have "\<exists>m' e'. Expired_fire run te (?k, e) = Some (m', e') \<and> cb_effect ?k m'"
      using assms(1) cb_done [of ?k]
      by (simp add: Expired_fire_def cb_contract_def split: option.split)
    then obtain m' e' where f: "Expired_fire run te (?k, e) = Some (m', e')" "cb_effect ?k m'" by blast
    have "Expired_step run (m, e) = Some (m', e')" using Some f(1) by (simp add: Expired_step_def Let_def)
    then show ?thesis using cb_effect_expiry [OF f(2) k(1)] k(2) D(1) by simp
  qed
qed

lemma Expired_loop_drains:
  assumes "cb_contract run" and "expiry_inv m"
  shows "\<exists>m' e'. Expired_loop run (m, e) = Some (m', e') \<and> due_entries m' = []
    \<and> m_curMsTime m' = m_curMsTime m"
  using assms(2)
proof (induction "length (due_entries m)" arbitrary: m e rule: less_induct)
  case less
  show ?case
  proof (cases "Expired_due m")
    case True
    obtain m' e' where s: "Expired_step run (m, e) = Some (m', e')" "expiry_inv m'"
      "due_entries m = m_mpTimers m ! m_it m # due_entries m'" "m_curMsTime m' = m_curMsTime m"
      using Expired_step_effect [OF assms(1) less.prems True] by blast
    have "\<exists>m'' e''. Expired_loop run (m', e') = Some (m'', e'') \<and> due_entries m'' = []
        \<and> m_curMsTime m'' = m_curMsTime m'"
      by (rule less.hyps) (use s in simp_all)
    then show ?thesis using True s(1,4) by (subst Expired_loop.simps) simp
  next
    case False
    then show ?thesis using not_due_drained [OF less.prems False]
      by (subst Expired_loop.simps) simp
  qed
qed

section \<open>Which events an expiry delivers\<close>

text \<open>
  For callbacks that leave the manager alone (they work on the rest of the process, \<open>act\<close>) the
  effect of \<open>Expired\<close> is determined completely.
\<close>

definition due_events :: "'c TimerMgr \<Rightarrow> 'c TimerEvent list" where
  "due_events m = List.map_filter (\<lambda>x. m_mpTimerEvents m (snd x)) (due_entries m)"

definition deliver :: "('c \<Rightarrow> int \<Rightarrow> u64 \<Rightarrow> 'e \<Rightarrow> 'e) \<Rightarrow> (int \<rightharpoonup> 'c) \<Rightarrow> 'c TimerEvent \<Rightarrow> 'e \<Rightarrow> 'e" where
  "deliver act listeners te e =
     (case te_cb te of
        Some cb \<Rightarrow> act cb (te_iEvent te) (te_ulParam te) e
      | None \<Rightarrow> (case listeners (te_iEvent te) of
          Some cb \<Rightarrow> act cb (te_iEvent te) (te_ulParam te) e | None \<Rightarrow> e))"

definition pure_runner :: "('c \<Rightarrow> int \<Rightarrow> u64 \<Rightarrow> 'e \<Rightarrow> 'e) \<Rightarrow> ('c, 'e) runner" where
  "pure_runner act cb ev p me = Some (fst me, act cb ev p (snd me))"

text \<open>
  Invariant of the tables as long as identifiers are not reused: the list is sorted, an
  identifier occurs in it once, and every pending event has its entry at its own expiry time.
\<close>

definition timer_inv :: "'c TimerMgr \<Rightarrow> bool" where
  "timer_inv m \<longleftrightarrow> mm_sorted (m_mpTimers m) \<and> distinct (map snd (m_mpTimers m))
     \<and> (\<forall>x\<in>set (m_mpTimers m). unat (snd x) < unat (dwNextTimerID m))
     \<and> (\<forall>i te. m_mpTimerEvents m i = Some te \<longrightarrow>
          te_dwTimerID te = i \<and> (te_ulExpiredTime te, i) \<in> set (m_mpTimers m))"

lemma Expired_fire_pure:
  "Expired_fire (pure_runner act) te (m, e) = Some (m, deliver act (m_mpListeners m) te e)"
  by (simp add: Expired_fire_def pure_runner_def deliver_def split: option.split)

lemma Expired_loop_pure:
  assumes "m_it m = 0" and "mm_sorted (m_mpTimers m)" and "distinct (map snd (m_mpTimers m))"
  shows "Expired_loop (pure_runner act) (m, e) = Some
    (m\<lparr>m_mpTimers := filter (\<lambda>x. \<not> fst x \<le> m_curMsTime m) (m_mpTimers m),
       m_mpTimerEvents := m_mpTimerEvents m |` (- snd ` set (due_entries m))\<rparr>,
     fold (deliver act (m_mpListeners m)) (due_events m) e)"
  using assms
proof (induction "m_mpTimers m" arbitrary: m e)
  case Nil
  then have n: "m_mpTimers m = []" by simp
  then have "due_entries m = []" by (simp add: due_entries_def)
  then have "m_mpTimerEvents m |` (- snd ` set (due_entries m)) = m_mpTimerEvents m"
    by (simp add: restrict_map_def)
  then show ?case using n
    by (subst Expired_loop.simps) (simp add: Expired_due_def due_events_def due_entries_def
      List.map_filter_simps restrict_map_def)
next
  case (Cons x xs)
  have ts: "m_mpTimers m = x # xs" using Cons.hyps(2) by simp
  show ?case
  proof (cases "fst x \<le> m_curMsTime m")
    case True
    define n where "n = m\<lparr>m_mpTimers := xs, m_mpTimerEvents := (m_mpTimerEvents m)(snd x := None)\<rparr>"
    have due: "due_entries m = x # due_entries n" using True ts by (simp add: due_entries_def n_def)
    have other: "snd y \<noteq> snd x" if "y \<in> set (due_entries n)" for y
    proof -
      have "y \<in> set xs" using that by (simp add: due_entries_def n_def)
      moreover have "snd x \<notin> snd ` set xs" using Cons.prems(3) ts by simp
      ultimately show ?thesis by (metis imageI)
    qed
    define e1 where "e1 = (case m_mpTimerEvents m (snd x) of
        Some te \<Rightarrow> deliver act (m_mpListeners m) te e | None \<Rightarrow> e)"
    have step: "Expired_step (pure_runner act) (m, e) = Some (n, e1)"
      using ts Cons.prems(1)
      by (cases "m_mpTimerEvents m (snd x)")
        (simp_all add: Expired_step_def n_def e1_def Expired_fire_pure fun_upd_idem)
    have "due_events n = List.map_filter (\<lambda>y. m_mpTimerEvents m (snd y)) (due_entries n)"
      unfolding due_events_def by (rule map_filter_cong_on) (use other in \<open>simp add: n_def\<close>)
    then have ev: "fold (deliver act (m_mpListeners m)) (due_events m) e
        = fold (deliver act (m_mpListeners n)) (due_events n) e1"
      by (cases "m_mpTimerEvents m (snd x)")
        (simp_all add: due_events_def due List.map_filter_simps e1_def n_def)
    have tab: "m_mpTimerEvents n |` (- snd ` set (due_entries n))
        = m_mpTimerEvents m |` (- snd ` set (due_entries m))"
      unfolding due by (auto simp: n_def restrict_map_def fun_eq_iff)
    have IH: "Expired_loop (pure_runner act) (n, e1) = Some
      (n\<lparr>m_mpTimers := filter (\<lambda>x. \<not> fst x \<le> m_curMsTime n) (m_mpTimers n),
         m_mpTimerEvents := m_mpTimerEvents n |` (- snd ` set (due_entries n))\<rparr>,
       fold (deliver act (m_mpListeners n)) (due_events n) e1)"
      by (rule Cons.hyps(1)) (use Cons.prems ts in \<open>simp_all add: n_def\<close>)
    have "Expired_loop (pure_runner act) (m, e) = Expired_loop (pure_runner act) (n, e1)"
      using step True ts Cons.prems(1) by (subst Expired_loop.simps) (simp add: Expired_due_def)
    also note IH
    finally show ?thesis unfolding tab ev [symmetric] using True ts by (simp add: n_def)
  next
    case False
    then have "\<forall>y\<in>set (m_mpTimers m). \<not> fst y \<le> m_curMsTime m" using Cons.prems(2) ts by auto
    then have d: "due_entries m = []" "filter (\<lambda>x. \<not> fst x \<le> m_curMsTime m) (m_mpTimers m) = m_mpTimers m"
      by (simp_all add: due_entries_def)
    then show ?thesis using False ts Cons.prems(1)
      by (subst Expired_loop.simps)
        (simp add: Expired_due_def due_events_def List.map_filter_simps restrict_map_def)
  qed
qed

lemma timer_inv_new: "timer_inv TimerMgr_new"
  by (simp add: timer_inv_def TimerMgr_new_def)

lemma timer_inv_fresh:
  assumes "timer_inv m"
  shows "m_mpTimerEvents m (dwNextTimerID m) = None"
proof (cases "m_mpTimerEvents m (dwNextTimerID m)")
  case (Some te)
  then have "(te_ulExpiredTime te, dwNextTimerID m) \<in> set (m_mpTimers m)"
    using assms by (simp add: timer_inv_def)
  then have "unat (dwNextTimerID m) < unat (dwNextTimerID m)"
    using assms by (fastforce simp: timer_inv_def)
  then show ?thesis by simp
qed

lemma AddTimer_timer_inv:
  assumes inv: "timer_inv m" and room: "unat (dwNextTimerID m) < 4294967295"
  shows "\<exists>m'. AddTimer ms ev cb p m = Some (dwNextTimerID m, m') \<and> timer_inv m'
    \<and> unat (dwNextTimerID m') = unat (dwNextTimerID m) + 1
    \<and> mset (m_mpTimers m') = add_mset (m_curMsTime m + word_of_int ms, dwNextTimerID m) (mset (m_mpTimers m))
    \<and> m_mpTimerEvents m' = (m_mpTimerEvents m)(dwNextTimerID m \<mapsto> \<lparr>te_iEvent = ev, te_ulParam = p,
        te_cb = cb, te_ulExpiredTime = m_curMsTime m + word_of_int ms, te_dwTimerID = dwNextTimerID m\<rparr>)"
proof -
  let ?i = "dwNextTimerID m" and ?t = "m_curMsTime m + word_of_int ms"
  have fr: "m_mpTimerEvents m ?i = None" using inv by (rule timer_inv_fresh)
  then have pr: "probe (\<lambda>i. m_mpTimerEvents m i \<noteq> None) ?i = Some ?i" by (simp add: probe_free)
  have nx: "unat (?i + 1) = unat ?i + 1" using room by (simp add: unat_word_ariths)
  have new: "?i \<notin> snd ` set (m_mpTimers m)" using inv by (force simp: timer_inv_def)
  let ?m' = "mgr_insert (?t, ?i) m\<lparr>m_mpTimerEvents := (m_mpTimerEvents m)(?i \<mapsto> \<lparr>te_iEvent = ev,
        te_ulParam = p, te_cb = cb, te_ulExpiredTime = ?t, te_dwTimerID = ?i\<rparr>), dwNextTimerID := ?i + 1\<rparr>"
  have res: "AddTimer ms ev cb p m = Some (?i, ?m')"
    using pr by (simp add: AddTimer_def Let_def mgr_insert_def)
  have "mset (map snd (mm_insert (?t, ?i) (m_mpTimers m))) = mset (?i # map snd (m_mpTimers m))" by simp
  then have "distinct (map snd (mm_insert (?t, ?i) (m_mpTimers m)))"
    using inv new mset_eq_imp_distinct_iff [of _ "?i # map snd (m_mpTimers m)"]
    by (simp add: timer_inv_def)
  then have "timer_inv ?m'"
    using inv nx by (auto simp: timer_inv_def mgr_insert_def)
  then show ?thesis using res nx by (simp add: mgr_insert_def)
qed

lemma CancelTimer_timer_inv: "timer_inv m \<Longrightarrow> timer_inv (CancelTimer i m)"
  by (auto simp: timer_inv_def CancelTimer_def)

text \<open>The entry of a pending event carries its expiry time.\<close>

lemma timer_inv_entry:
  assumes inv: "timer_inv m" and te: "m_mpTimerEvents m i = Some te"
  shows "(t, i) \<in> set (m_mpTimers m) \<longleftrightarrow> t = te_ulExpiredTime te"
proof -
  have e: "(te_ulExpiredTime te, i) \<in> set (m_mpTimers m)" using inv te by (simp add: timer_inv_def)
  have "inj_on snd (set (m_mpTimers m))" using inv by (simp add: timer_inv_def distinct_map)
  then have "t = te_ulExpiredTime te" if "(t, i) \<in> set (m_mpTimers m)"
    using that e by (metis fst_conv inj_onD snd_conv)
  then show ?thesis using e by blast
qed

lemma timer_inv_due:
  assumes "timer_inv m" and "m_mpTimerEvents m i = Some te"
  shows "i \<in> snd ` set (due_entries m) \<longleftrightarrow> te_ulExpiredTime te \<le> m_curMsTime m"
proof -
  have "i \<in> snd ` set (due_entries m) \<longleftrightarrow> (\<exists>t. (t, i) \<in> set (m_mpTimers m) \<and> t \<le> m_curMsTime m)"
    by (force simp: due_entries_def)
  then show ?thesis using timer_inv_entry [OF assms] by simp
qed

lemma set_map_filter_Some: "set (List.map_filter f xs) = {y. \<exists>x\<in>set xs. f x = Some y}"
  by (induction xs) (auto simp: List.map_filter_simps split: option.splits)

lemma due_events_set:
  assumes "timer_inv m"
  shows "set (due_events m) = {te. \<exists>i. m_mpTimerEvents m i = Some te \<and> te_ulExpiredTime te \<le> m_curMsTime m}"
proof -
  have "set (due_events m) = {te. \<exists>i\<in>snd ` set (due_entries m). m_mpTimerEvents m i = Some te}"
    by (auto simp: due_events_def set_map_filter_Some)
  then show ?thesis using timer_inv_due [OF assms] by blast
qed

lemma map_filter_events:
  assumes inv: "timer_inv m" and "set xs \<subseteq> set (m_mpTimers m)"
  shows "map te_dwTimerID (List.map_filter (\<lambda>x. m_mpTimerEvents m (snd x)) xs)
      = map snd (filter (\<lambda>x. m_mpTimerEvents m (snd x) \<noteq> None) xs)
    \<and> map te_ulExpiredTime (List.map_filter (\<lambda>x. m_mpTimerEvents m (snd x)) xs)
      = map fst (filter (\<lambda>x. m_mpTimerEvents m (snd x) \<noteq> None) xs)"
  using assms(2)
proof (induction xs)
  case Nil
  then show ?case by (simp add: List.map_filter_simps)
next
  case (Cons x xs)
  have x: "(fst x, snd x) \<in> set (m_mpTimers m)" using Cons.prems by simp
  show ?case
  proof (cases "m_mpTimerEvents m (snd x)")
    case None
    then show ?thesis using Cons by (simp add: List.map_filter_simps)
  next
    case (Some te)
    have "fst x = te_ulExpiredTime te" using timer_inv_entry [OF inv Some, of "fst x"] x by blast
    moreover have "te_dwTimerID te = snd x" using inv Some by (simp add: timer_inv_def)
    ultimately show ?thesis using Some Cons by (simp add: List.map_filter_simps)
  qed
qed

lemma distinct_map_filter_if: "distinct (map f xs) \<Longrightarrow> distinct (map f (filter P xs))"
  by (induction xs) auto

lemma due_events_order:
  assumes inv: "timer_inv m"
  shows "distinct (map te_dwTimerID (due_events m))" and "sorted (map te_ulExpiredTime (due_events m))"
proof -
  have "set (due_entries m) \<subseteq> set (m_mpTimers m)" by (auto simp: due_entries_def)
  note E = map_filter_events [OF inv this]
  show "distinct (map te_dwTimerID (due_events m))"
    using E inv by (simp add: due_events_def due_entries_def distinct_map_filter_if timer_inv_def)
  show "sorted (map te_ulExpiredTime (due_events m))"
    using E inv by (simp add: due_events_def due_entries_def sorted_filter timer_inv_def mm_sorted_def)
qed

lemma Expired_pure_inv:
  assumes inv: "timer_inv m"
  shows "timer_inv (m\<lparr>m_it := k, m_mpTimers := filter (\<lambda>x. \<not> fst x \<le> m_curMsTime m) (m_mpTimers m),
       m_mpTimerEvents := m_mpTimerEvents m |` (- snd ` set (due_entries m))\<rparr>)"
proof -
  have "mm_sorted (filter P (m_mpTimers m))" for P
    using inv by (simp add: timer_inv_def mm_sorted_def sorted_filter)
  moreover have "te_dwTimerID te = i \<and> (te_ulExpiredTime te, i) \<in> set (m_mpTimers m)
      \<and> \<not> te_ulExpiredTime te \<le> m_curMsTime m"
    if "(m_mpTimerEvents m |` (- snd ` set (due_entries m))) i = Some te" for i te
  proof -
    have te: "m_mpTimerEvents m i = Some te" "i \<notin> snd ` set (due_entries m)"
      using that by (auto simp: restrict_map_def split: if_splits)
    then show ?thesis using inv timer_inv_due [OF inv te(1)] by (simp add: timer_inv_def)
  qed
  ultimately show ?thesis
    using inv by (auto simp: timer_inv_def distinct_map_filter_if)
qed

section \<open>Properties\<close>

text \<open>
  C23.  \<open>Expired\<close> always returns, whatever timers the callbacks it runs add (with a positive
  delay) or cancel meanwhile, and afterwards no entry that is due is left in the multimap: a
  callback can neither make the walk run for ever nor make it miss an entry.
\<close>

theorem Expired_drains:
  assumes "cb_contract run" and "mm_sorted (m_mpTimers m)"
  shows "\<exists>m' e'. Expired run (m, e) = Some (m', e') \<and> due_entries m' = []
    \<and> m_curMsTime m' = m_curMsTime m"
  using Expired_loop_drains [OF assms(1), of "m\<lparr>m_it := 0\<rparr>" e] assms(2)
  by (simp add: Expired_def expiry_inv_def)


definition two_timers :: "unit TimerMgr" where
  "two_timers = TimerMgr_new\<lparr>m_curMsTime := 7, m_mpTimers := [(5, 1), (9, 2)],
     m_mpTimerEvents := [1 \<mapsto> \<lparr>te_iEvent = 3, te_ulParam = 50, te_cb = Some (),
                            te_ulExpiredTime = 5, te_dwTimerID = 1\<rparr>,
                         2 \<mapsto> \<lparr>te_iEvent = 4, te_ulParam = 60, te_cb = Some (),
                            te_ulExpiredTime = 9, te_dwTimerID = 2\<rparr>],
     dwNextTimerID := 3\<rparr>"

lemma two_timers_inv: "timer_inv two_timers"
  by (auto simp: timer_inv_def two_timers_def split: if_splits)

definition rearm :: "(unit, nat) runner" where
  "rearm cb ev p me =
     (if uint (m_curMsTime (fst me)) + 100 < 18446744073709551616 then
        (case AddTimer 100 ev (Some cb) p (fst me) of
           Some (tid, m) \<Rightarrow> Some (m, Suc (snd me))
         | None \<Rightarrow> Some me)
      else Some me)"

lemma rearm_contract: "cb_contract rearm"
  unfolding cb_contract_def rearm_def
  by (auto intro: cb_done cb_add [OF cb_done, where ms = 100] split: option.split)

theorem Expired_drains_witness:
  "\<exists>m' n. Expired rearm (two_timers, 0) = Some (m', n) \<and> due_entries m' = []"
  using Expired_drains [OF rearm_contract, of two_timers 0] two_timers_inv
  by (auto simp: timer_inv_def)


text \<open>
  C40.  While identifiers have not run out, \<open>AddTimer\<close> returns, under a fresh identifier, a timer
  that expires the given number of milliseconds from now (modulo \<open>2^64\<close>), keeps the tables
  consistent and every pending timer in place.
\<close>

theorem AddTimer_correct:
  assumes "timer_inv m" and "unat (dwNextTimerID m) < 4294967295"
  shows "\<exists>tid m'. AddTimer ms ev cb p m = Some (tid, m') \<and> timer_inv m'
    \<and> m_mpTimerEvents m tid = None
    \<and> m_mpTimerEvents m' = (m_mpTimerEvents m)(tid \<mapsto> \<lparr>te_iEvent = ev, te_ulParam = p, te_cb = cb,
        te_ulExpiredTime = m_curMsTime m + word_of_int ms, te_dwTimerID = tid\<rparr>)
    \<and> mset (m_mpTimers m') = add_mset (m_curMsTime m + word_of_int ms, tid) (mset (m_mpTimers m))"
  using AddTimer_timer_inv [OF assms, of ms ev cb p] timer_inv_fresh [OF assms(1)] by blast

theorem AddTimer_correct_witness:
  "\<exists>tid m'. AddTimer 20 8 None 5 two_timers = Some (tid, m') \<and> timer_inv m'
    \<and> map_option te_ulExpiredTime (m_mpTimerEvents m' tid) = Some 27"
  using AddTimer_correct [OF two_timers_inv, of 20 8 None 5]
  by (auto simp: two_timers_def TimerMgr_new_def)

text \<open>
  Even when the 32-bit identifiers have wrapped round, \<open>AddTimer\<close> returns as long as one of
  them is not pending, never overwrites a pending timer, and cancelling the timer it returned
  restores exactly the timers pending before.
\<close>

lemma AddTimer_CancelTimer:
  assumes "dom (timer_pending m) \<noteq> UNIV"
  shows "\<exists>i m'. AddTimer ms ev cb p m = Some (i, m') \<and> timer_pending m i = None
    \<and> timer_pending m' i = Some (ev, cb, p) \<and> timer_pending (CancelTimer i m') = timer_pending m"
proof -
  obtain i m' where a: "AddTimer ms ev cb p m = Some (i, m')" "timer_pending m i = None"
    "timer_pending m' = (timer_pending m)(i \<mapsto> (ev, cb, p))"
    using timers.add_pending [OF assms, of ms ev cb p] by blast
  moreover have "timer_pending (CancelTimer i m') = timer_pending m"
    using timers.add_cancel [OF assms, of ms ev cb p] a(1) by simp
  ultimately show ?thesis by simp
qed

lemma AddTimer_CancelTimer_witness:
  "\<exists>i m'. AddTimer 20 8 None 5 two_timers = Some (i, m')
    \<and> timer_pending (CancelTimer i m') = timer_pending two_timers"
proof -
  have "3 \<notin> dom (timer_pending two_timers)" by (simp add: dom_def timer_pending_def two_timers_def TimerMgr_new_def)
  then have "dom (timer_pending two_timers) \<noteq> UNIV" by blast
  from AddTimer_CancelTimer [OF this, of 20 8 None 5] show ?thesis by blast
qed

end
