(* ===== verification/EventCenter.thy ===== *)
theory EventCenter
  imports EventCodes TimerMgr
begin

text \<open>
  The event centre: \<open>rgtd/zone/logic/EventCenter.h\<close> and \<open>rgtd/zone/logic/EventCenter.cpp\<close>.

  The centre fires player events at once or after a delay, for which it asks the timer manager
  for a timer and parks the parameters under a sequence number.  The state holds the timer
  manager it uses; \<open>'p\<close> is a reference to a player, \<open>'c\<close> a function pointer, \<open>'e\<close> the rest of the
  process.  The parameter \<open>zone\<close> is the lookup \<open>ZoneAgentMgr::GetZonePlayerAgentPtr\<close>, \<open>notify\<close> the
  call \<open>GetLogicCenter().NotifyEvent\<close> on a player, and \<open>onTimer\<close> the function pointer of
  \<open>EventCenter::OnTimer\<close>.
\<close>

section \<open>State\<close>

record DelayEventParam =
  dep_iEvent :: int
  dep_ulParam :: u64
  dep_reciever :: string
  dep_arg :: u64

definition DelayEventParam_new :: DelayEventParam where
  "DelayEventParam_new = \<lparr>dep_iEvent = 0, dep_ulParam = 0, dep_reciever = '''', dep_arg = 0\<rparr>"

record ('c, 'p) EventCenter =
  timerMgr :: "'c TimerMgr"
  m_mpPlayerAgents :: "u64 \<rightharpoonup> 'p"
  m_iDelayEventNextSeq :: int
  m_mpDelayEventParams :: "int \<rightharpoonup> DelayEventParam"

definition MAX_PLAYER_EVENT_DELAY_TIME :: int where
  "MAX_PLAYER_EVENT_DELAY_TIME = 600"

type_synonym ('c, 'p, 'e) notifier =
  "'p \<Rightarrow> int \<Rightarrow> u64 \<Rightarrow> string option \<Rightarrow> u64 \<Rightarrow> ('c, 'p) EventCenter \<times> 'e
    \<Rightarrow> (('c, 'p) EventCenter \<times> 'e) option"

section \<open>Operations\<close>

definition EventCenter_Init :: "'c TimerMgr \<Rightarrow> ('c, 'p) EventCenter \<Rightarrow> int \<times> ('c, 'p) EventCenter" where
  "EventCenter_Init tm ec = (0, ec\<lparr>timerMgr := tm, m_iDelayEventNextSeq := 1\<rparr>)"

definition GenerateDelayEvent ::
  "'c \<Rightarrow> int \<Rightarrow> string option \<Rightarrow> int \<Rightarrow> u64 \<Rightarrow> u64 \<Rightarrow> ('c, 'p) EventCenter
    \<Rightarrow> (u32 \<times> ('c, 'p) EventCenter) option" where
  "GenerateDelayEvent onTimer iEventCode pszReceiverName secondsLater ulParam arg ec =
     (let delayParam = \<lparr>dep_iEvent = iEventCode, dep_ulParam = ulParam,
            dep_reciever = (case pszReceiverName of Some n \<Rightarrow> n | None \<Rightarrow> ''''), dep_arg = arg\<rparr>
      in case probe (\<lambda>q. m_mpDelayEventParams ec q \<noteq> None) (m_iDelayEventNextSeq ec) of
           None \<Rightarrow> None
         | Some sq \<Rightarrow>
             (case AddTimer (secondsLater * 1000) iEventCode (Some onTimer) (word_of_int sq) (timerMgr ec) of
                None \<Rightarrow> None
              | Some (dwTimerID, tm) \<Rightarrow>
                  Some (dwTimerID,
                    ec\<lparr>timerMgr := tm,
                       m_mpDelayEventParams := (m_mpDelayEventParams ec)(sq \<mapsto> delayParam),
                       m_iDelayEventNextSeq := sq + 1\<rparr>)))"

text \<open>
  The player branch of \<open>FireEvent\<close>: the code \<open>None\<close> in the first component means that the
  function goes on to its end, \<open>Some r\<close> that it returns \<open>r\<close>.
\<close>

definition FireEvent_player ::
  "('e \<Rightarrow> u64 \<Rightarrow> 'p option) \<Rightarrow> ('c, 'p, 'e) notifier \<Rightarrow> int \<Rightarrow> string option \<Rightarrow> int \<Rightarrow> u64 \<Rightarrow> u64 \<Rightarrow> bool
    \<Rightarrow> ('c, 'p) EventCenter \<times> 'e \<Rightarrow> (u32 option \<times> ('c, 'p) EventCenter \<times> 'e) option" where
  "FireEvent_player zone notify iEventCode pszReceiverName secondsLater ulParam arg timeExpired ece =
     (if secondsLater > MAX_PLAYER_EVENT_DELAY_TIME then Some (Some (-1), ece)
      else
        let (ec, e) = ece;
            player = (case zone e ulParam of
                        Some p \<Rightarrow> Some p
                      | None \<Rightarrow> if secondsLater > 0 then None else m_mpPlayerAgents ec ulParam)
        in case player of
             None \<Rightarrow> Some (Some (-1), ece)
           | Some p \<Rightarrow>
               if secondsLater > 0
               then Some (None, ec\<lparr>m_mpPlayerAgents := (m_mpPlayerAgents ec)(ulParam \<mapsto> p)\<rparr>, e)
               else
                 (case notify p iEventCode ulParam pszReceiverName arg (ec, e) of
                    None \<Rightarrow> None
                  | Some (ec, e) \<Rightarrow>
                      Some (None,
                        if timeExpired
                        then ec\<lparr>m_mpPlayerAgents := (m_mpPlayerAgents ec)(ulParam := None)\<rparr> else ec,
                        e)))"

definition FireEvent ::
  "'c \<Rightarrow> ('e \<Rightarrow> u64 \<Rightarrow> 'p option) \<Rightarrow> ('c, 'p, 'e) notifier \<Rightarrow> int \<Rightarrow> string option \<Rightarrow> int \<Rightarrow> u64 \<Rightarrow> u64
    \<Rightarrow> bool \<Rightarrow> ('c, 'p) EventCenter \<times> 'e \<Rightarrow> (u32 \<times> ('c, 'p) EventCenter \<times> 'e) option" where
  "FireEvent onTimer zone notify iEventCode pszReceiverName secondsLater ulParam arg timeExpired ece =
     (if iEventCode > EVENT_TEST_MIN \<and> iEventCode < EVENT_TEST_MAX then Some (0, ece)
      else if iEventCode > EVENT_PLAYER_MIN \<and> iEventCode < EVENT_PLAYER_MAX then
        (case FireEvent_player zone notify iEventCode pszReceiverName secondsLater ulParam arg timeExpired ece of
           None \<Rightarrow> None
         | Some (Some r, ece) \<Rightarrow> Some (r, ece)
         | Some (None, ec, e) \<Rightarrow>
             if secondsLater > 0 then
               (case GenerateDelayEvent onTimer iEventCode pszReceiverName secondsLater ulParam arg ec of
                  None \<Rightarrow> None
                | Some (dwTimerID, ec) \<Rightarrow> Some (dwTimerID, ec, e))
             else Some (0, ec, e))
      else Some (-1, ece))"

definition OnDelayTimerExpired ::
  "'c \<Rightarrow> ('e \<Rightarrow> u64 \<Rightarrow> 'p option) \<Rightarrow> ('c, 'p, 'e) notifier \<Rightarrow> int \<Rightarrow> int
    \<Rightarrow> ('c, 'p) EventCenter \<times> 'e \<Rightarrow> (int \<times> ('c, 'p) EventCenter \<times> 'e) option" where
  "OnDelayTimerExpired onTimer zone notify iEventCode iDelayEventSeq ece =
     (let (ec, e) = ece
      in if m_mpDelayEventParams ec iDelayEventSeq = None then Some (-1, ece)
         else
           let dep = (case m_mpDelayEventParams ec iEventCode of
                        Some d \<Rightarrow> d | None \<Rightarrow> DelayEventParam_new);
               ec = ec\<lparr>m_mpDelayEventParams := (m_mpDelayEventParams ec)(iEventCode := None)\<rparr>
           in case FireEvent onTimer zone notify iEventCode (Some (dep_reciever dep)) 0 (dep_ulParam dep)
                     (dep_arg dep) True (ec, e) of
                None \<Rightarrow> None
              | Some (r, ece) \<Rightarrow> Some (sint r, ece))"

definition EventCenter_OnTimer ::
  "'c \<Rightarrow> ('e \<Rightarrow> u64 \<Rightarrow> 'p option) \<Rightarrow> ('c, 'p, 'e) notifier \<Rightarrow> int \<Rightarrow> u64
    \<Rightarrow> ('c, 'p) EventCenter \<times> 'e \<Rightarrow> (('c, 'p) EventCenter \<times> 'e) option" where
  "EventCenter_OnTimer onTimer zone notify iEvent ulParam ece =
     (let iDelayEventSeq = sint (ucast ulParam :: u32)
      in map_option snd (OnDelayTimerExpired onTimer zone notify iEvent iDelayEventSeq ece))"

section \<open>Scheduling\<close>

definition player_event :: "int \<Rightarrow> bool" where
  "player_event code \<longleftrightarrow> EVENT_PLAYER_MIN < code \<and> code < EVENT_PLAYER_MAX"

definition parked :: "int \<Rightarrow> string option \<Rightarrow> u64 \<Rightarrow> u64 \<Rightarrow> DelayEventParam" where
  "parked code recv p arg = \<lparr>dep_iEvent = code, dep_ulParam = p,
     dep_reciever = (case recv of Some n \<Rightarrow> n | None \<Rightarrow> ''''), dep_arg = arg\<rparr>"

lemma player_event_not_test: "player_event code \<Longrightarrow> \<not> (EVENT_TEST_MIN < code \<and> code < EVENT_TEST_MAX)"
  by (simp add: player_event_def event_code_defs)

lemma GenerateDelayEvent_result:
  assumes "finite (dom (m_mpDelayEventParams ec))" and "dom (timer_pending (timerMgr ec)) \<noteq> UNIV"
  obtains tid sq tm where "m_mpDelayEventParams ec sq = None"
    and "timer_pending (timerMgr ec) tid = None"
    and "timer_pending tm = (timer_pending (timerMgr ec))(tid \<mapsto> (code, Some onTimer, word_of_int sq))"
    and "GenerateDelayEvent onTimer code recv secs p arg ec = Some (tid, ec\<lparr>timerMgr := tm,
      m_mpDelayEventParams := (m_mpDelayEventParams ec)(sq \<mapsto> parked code recv p arg),
      m_iDelayEventNextSeq := sq + 1\<rparr>)"
proof -
  have "finite {q. m_mpDelayEventParams ec q \<noteq> None}" using assms(1) by (simp add: dom_def)
  from probe_int_returns [OF this, of "m_iDelayEventNextSeq ec"]
  obtain sq where sq: "probe (\<lambda>q. m_mpDelayEventParams ec q \<noteq> None) (m_iDelayEventNextSeq ec) = Some sq"
    "m_mpDelayEventParams ec sq = None" by auto
  obtain tid tm where tm: "AddTimer (secs * 1000) code (Some onTimer) (word_of_int sq) (timerMgr ec) = Some (tid, tm)"
    "timer_pending (timerMgr ec) tid = None"
    "timer_pending tm = (timer_pending (timerMgr ec))(tid \<mapsto> (code, Some onTimer, word_of_int sq))"
    using timers.add_pending [OF assms(2)] by blast
  show thesis
    by (rule that [OF sq(2) tm(2,3)])
      (use sq(1) tm(1) in \<open>simp add: GenerateDelayEvent_def Let_def parked_def\<close>)
qed

lemma GenerateDelayEvent_Some:
  assumes "GenerateDelayEvent onTimer code recv secs p arg ec = Some (tid, ec')"
  obtains sq where "m_iDelayEventNextSeq ec' = sq + 1"
    and "m_mpDelayEventParams ec' = (m_mpDelayEventParams ec)(sq \<mapsto> parked code recv p arg)"
    and "timer_pending (timerMgr ec') tid = Some (code, Some onTimer, word_of_int sq)"
    and "m_mpPlayerAgents ec' = m_mpPlayerAgents ec"
proof -
  have pend: "timer_pending m' i = Some (ev, cb, q)" if "AddTimer ms ev cb q m = Some (i, m')" for ms ev cb q m i m'
    using that by (auto simp: AddTimer_def timer_pending_def Let_def split: option.splits)
  show thesis using assms that
    by (auto simp: GenerateDelayEvent_def Let_def parked_def pend split: option.splits)
qed

lemma FireEvent_delayed_eq:
  assumes "player_event code" and "0 < secs" and "secs \<le> 600" and "zone e uid = Some pl"
  shows "FireEvent onTimer zone notify code recv secs uid arg ex (ec, e) =
    map_option (\<lambda>(tid, ec). (tid, ec, e)) (GenerateDelayEvent onTimer code recv secs uid arg
        (ec\<lparr>m_mpPlayerAgents := (m_mpPlayerAgents ec)(uid \<mapsto> pl)\<rparr>))"
  using assms player_event_not_test [OF assms(1)]
  by (auto simp: FireEvent_def FireEvent_player_def player_event_def MAX_PLAYER_EVENT_DELAY_TIME_def
      Let_def split: option.split)

lemma seq_through_param:
  assumes "- 2147483648 \<le> sq" and "sq < 2147483648"
  shows "sint (ucast (word_of_int sq :: u64) :: u32) = sq"
proof -
  have "(ucast (word_of_int sq :: u64) :: u32) = word_of_int sq"
    by (rule bit_word_eqI) (simp add: bit_simps)
  then show ?thesis using assms by (simp add: signed_of_int signed_take_bit_int_eq_self_iff)
qed

lemma OnTimer_lost:
  assumes "player_event code" and "- 2147483648 \<le> sq" and "sq < 2147483648"
    and "m_mpDelayEventParams ec sq \<noteq> None" and "m_mpDelayEventParams ec code = None"
    and "zone e 0 = None" and "m_mpPlayerAgents ec 0 = None"
  shows "EventCenter_OnTimer onTimer zone notify code (word_of_int sq) (ec, e) = Some (ec, e)"
proof -
  have "ec\<lparr>m_mpDelayEventParams := (m_mpDelayEventParams ec)(code := None)\<rparr> = ec"
    using assms(5) by (simp add: fun_upd_idem)
  then show ?thesis
    using assms player_event_not_test [OF assms(1)] seq_through_param [OF assms(2,3)]
    by (auto simp: EventCenter_OnTimer_def OnDelayTimerExpired_def FireEvent_def FireEvent_player_def
        player_event_def MAX_PLAYER_EVENT_DELAY_TIME_def DelayEventParam_new_def)
qed

section \<open>Properties\<close>

definition centre0 :: "(unit, nat) EventCenter" where
  "centre0 = \<lparr>timerMgr = TimerMgr_new, m_mpPlayerAgents = Map.empty, m_iDelayEventNextSeq = 1,
     m_mpDelayEventParams = Map.empty\<rparr>"

definition zone77 :: "unit \<Rightarrow> u64 \<Rightarrow> nat option" where
  "zone77 e uid = (if uid = 77 then Some 3 else None)"

definition quiet :: "(unit, nat, unit) notifier" where
  "quiet p code uid recv arg ece = Some ece"

lemma TimerMgr_new_pending [simp]: "timer_pending TimerMgr_new = Map.empty"
  by (simp add: timer_pending_def TimerMgr_new_def)

lemma sync_is_player_event: "player_event EVENT_PLAYER_SYNC_DB"
  by (simp add: player_event_def event_code_defs)

text \<open>
  C35.  For a player event of an online player with a delay of 1 to 600 seconds, \<open>FireEvent\<close>
  returns the identifier of a fresh timer for that event, parks the parameters under an unused
  sequence number that the timer carries, and remembers the player; nobody is notified yet.
\<close>

theorem FireEvent_schedules:
  assumes "player_event code" and "0 < secs" and "secs \<le> 600" and "zone e uid = Some pl"
    and "finite (dom (m_mpDelayEventParams ec))" and "dom (timer_pending (timerMgr ec)) \<noteq> UNIV"
  shows "\<exists>tid sq ec'. FireEvent onTimer zone notify code recv secs uid arg ex (ec, e) = Some (tid, ec', e)
    \<and> timer_pending (timerMgr ec) tid = None
    \<and> timer_pending (timerMgr ec') = (timer_pending (timerMgr ec))(tid \<mapsto> (code, Some onTimer, word_of_int sq))
    \<and> m_mpDelayEventParams ec sq = None
    \<and> m_mpDelayEventParams ec' = (m_mpDelayEventParams ec)(sq \<mapsto> parked code recv uid arg)
    \<and> m_mpPlayerAgents ec' = (m_mpPlayerAgents ec)(uid \<mapsto> pl)"
proof -
  let ?ec = "ec\<lparr>m_mpPlayerAgents := (m_mpPlayerAgents ec)(uid \<mapsto> pl)\<rparr>"
  have "finite (dom (m_mpDelayEventParams ?ec))" "dom (timer_pending (timerMgr ?ec)) \<noteq> UNIV"
    using assms(5,6) by simp_all
  then show ?thesis
  proof (rule GenerateDelayEvent_result [where code = code and onTimer = onTimer and recv = recv
      and secs = secs and p = uid and arg = arg])
    fix tid sq tm
    assume g: "m_mpDelayEventParams ?ec sq = None" "timer_pending (timerMgr ?ec) tid = None"
      "timer_pending tm = (timer_pending (timerMgr ?ec))(tid \<mapsto> (code, Some onTimer, word_of_int sq))"
      "GenerateDelayEvent onTimer code recv secs uid arg ?ec = Some (tid, ?ec\<lparr>timerMgr := tm,
        m_mpDelayEventParams := (m_mpDelayEventParams ?ec)(sq \<mapsto> parked code recv uid arg),
        m_iDelayEventNextSeq := sq + 1\<rparr>)"
    show ?thesis
      using g FireEvent_delayed_eq [where zone = zone and e = e, OF assms(1-4),
          of onTimer notify recv arg ex ec]
      by (intro exI [of _ tid] exI [of _ sq] exI [of _ "snd (the (GenerateDelayEvent onTimer code recv
          secs uid arg ?ec))"]) simp
  qed
qed

theorem FireEvent_schedules_witness:
  "\<exists>tid sq ec'. FireEvent () zone77 quiet EVENT_PLAYER_SYNC_DB (Some ''autosync'') 300 77 0 False (centre0, ())
      = Some (tid, ec', ())
    \<and> timer_pending (timerMgr ec') = [tid \<mapsto> (EVENT_PLAYER_SYNC_DB, Some (), word_of_int sq)]
    \<and> m_mpPlayerAgents ec' = [77 \<mapsto> 3]"
  using FireEvent_schedules [OF sync_is_player_event, of 300 zone77 "()" 77 3 centre0 "()" quiet
      "Some ''autosync''" 0 False]
  by (auto simp: zone77_def centre0_def)

text \<open>
  A delayed event is lost.  When its timer runs out, \<open>OnDelayTimerExpired\<close> looks the
  parameters up under the event code instead of the sequence number (for the first two thousand
  delayed events no entry sits there).  The event is then fired with default parameters, for the
  player 0, so the state of the event centre and of the process is exactly as before: no player is
  notified, whatever \<open>notify\<close> does, and the parked parameters stay for ever.
\<close>

lemma delayed_event_lost:
  assumes "player_event code" and "0 < secs" and "secs \<le> 600"
    and "zone e uid = Some pl" and "uid \<noteq> 0" and "zone e 0 = None"
    and "m_mpPlayerAgents ec 0 = None" and "m_mpDelayEventParams ec code = None"
    and "FireEvent onTimer zone notify code recv secs uid arg ex (ec, e) = Some (tid, ec', e')"
    and "1 < m_iDelayEventNextSeq ec'" and "m_iDelayEventNextSeq ec' \<le> 2000"
  shows "\<exists>sq. timer_pending (timerMgr ec') tid = Some (code, Some onTimer, word_of_int sq)
    \<and> m_mpDelayEventParams ec' sq = Some (parked code recv uid arg)
    \<and> EventCenter_OnTimer onTimer zone notify code (word_of_int sq) (ec', e') = Some (ec', e')"
proof -
  let ?ec = "ec\<lparr>m_mpPlayerAgents := (m_mpPlayerAgents ec)(uid \<mapsto> pl)\<rparr>"
  have "GenerateDelayEvent onTimer code recv secs uid arg ?ec = Some (tid, ec')" and e: "e' = e"
    using assms(9) FireEvent_delayed_eq [where zone = zone and e = e, OF assms(1-4),
        of onTimer notify recv arg ex ec] by simp_all
  then obtain sq where sq: "m_iDelayEventNextSeq ec' = sq + 1"
    "m_mpDelayEventParams ec' = (m_mpDelayEventParams ec)(sq \<mapsto> parked code recv uid arg)"
    "timer_pending (timerMgr ec') tid = Some (code, Some onTimer, word_of_int sq)"
    "m_mpPlayerAgents ec' = (m_mpPlayerAgents ec)(uid \<mapsto> pl)"
    by (auto elim!: GenerateDelayEvent_Some)
  have ne: "sq \<noteq> code" using assms(1,11) sq(1) by (simp add: player_event_def event_code_defs)
  have "EventCenter_OnTimer onTimer zone notify code (word_of_int sq) (ec', e') = Some (ec', e')"
    unfolding e
    by (rule OnTimer_lost) (use assms sq ne in \<open>simp_all\<close>)
  then show ?thesis using sq by (intro exI [of _ sq]) simp
qed

lemma centre0_schedule:
  "\<exists>tid ec'. FireEvent () zone77 quiet EVENT_PLAYER_SYNC_DB (Some ''autosync'') 300 77 0 False (centre0, ())
      = Some (tid, ec', ()) \<and> m_iDelayEventNextSeq ec' = 2"
proof -
  have p: "probe (\<lambda>q. False) k = Some k" for k :: "'k::{plus,one}" by (simp add: probe_free)
  show ?thesis
    by (subst FireEvent_delayed_eq [OF sync_is_player_event, of _ _ _ _ 3])
      (simp_all add: zone77_def GenerateDelayEvent_def AddTimer_def TimerMgr_new_def Let_def centre0_def p)
qed

lemma delayed_event_lost_witness:
  "\<exists>tid ec' sq. FireEvent () zone77 quiet EVENT_PLAYER_SYNC_DB (Some ''autosync'') 300 77 0 False (centre0, ())
      = Some (tid, ec', ())
    \<and> timer_pending (timerMgr ec') tid = Some (EVENT_PLAYER_SYNC_DB, Some (), word_of_int sq)
    \<and> EventCenter_OnTimer () zone77 quiet EVENT_PLAYER_SYNC_DB (word_of_int sq) (ec', ()) = Some (ec', ())"
proof -
  obtain tid ec' where f: "FireEvent () zone77 quiet EVENT_PLAYER_SYNC_DB (Some ''autosync'') 300 77 0 False
      (centre0, ()) = Some (tid, ec', ())" and n: "m_iDelayEventNextSeq ec' = 2"
    using centre0_schedule by blast
  have "\<exists>sq. timer_pending (timerMgr ec') tid = Some (EVENT_PLAYER_SYNC_DB, Some (), word_of_int sq)
    \<and> m_mpDelayEventParams ec' sq = Some (parked EVENT_PLAYER_SYNC_DB (Some ''autosync'') 77 0)
    \<and> EventCenter_OnTimer () zone77 quiet EVENT_PLAYER_SYNC_DB (word_of_int sq) (ec', ()) = Some (ec', ())"
    by (rule delayed_event_lost [OF sync_is_player_event _ _ _ _ _ _ _ f])
      (simp_all add: zone77_def centre0_def n)
  then show ?thesis using f by blast
qed

text \<open>
  Right-now delivery and refusals.  A player event without delay reaches the online player by
  exactly one notification, with the parameters of the call, and \<open>FireEvent\<close> answers \<open>0\<close>.  A code
  of no supported range, a delay above the limit of 600 seconds and a delayed event for an offline
  player are answered with \<open>-1\<close> and change nothing.
\<close>

lemma FireEvent_now_or_refuse:
  "(player_event code \<and> zone e uid = Some pl \<longrightarrow>
      FireEvent onTimer zone notify code recv 0 uid arg False (ec, e)
        = map_option (\<lambda>ece. (0, ece)) (notify pl code uid recv arg (ec, e)))
   \<and> (player_event code \<and> (600 < secs \<or> 0 < secs \<and> zone e uid = None) \<or>
      \<not> player_event code \<and> \<not> (EVENT_TEST_MIN < code \<and> code < EVENT_TEST_MAX) \<longrightarrow>
      FireEvent onTimer zone notify code recv secs uid arg ex (ec, e) = Some (-1, ec, e))"
  using player_event_not_test [of code]
  by (auto simp: FireEvent_def FireEvent_player_def player_event_def MAX_PLAYER_EVENT_DELAY_TIME_def
      Let_def split: option.split)

lemma FireEvent_now_or_refuse_witness:
  "FireEvent () zone77 quiet EVENT_PLAYER_SYNC_DB None 0 77 0 False (centre0, ()) = Some (0, centre0, ())
   \<and> FireEvent () zone77 quiet EVENT_PLAYER_SYNC_DB None 601 77 0 False (centre0, ()) = Some (-1, centre0, ())"
  using FireEvent_now_or_refuse [of EVENT_PLAYER_SYNC_DB zone77 "()" 77 3 "()" quiet None 0 centre0 601 False]
  by (simp add: sync_is_player_event zone77_def quiet_def)

end
