(* ===== verification/OrderedMap.thy ===== *)
theory OrderedMap
  imports Prelude
begin

text \<open>
  \<open>std::map\<close>, which several components use for its order: an association list sorted by key,
  with insertion, lookup, the two bound searches and iteration.  The locale \<open>ordered_map\<close> states
  what a client relies on.
\<close>

definition smap_insert :: "'k::linorder \<Rightarrow> 'v \<Rightarrow> ('k \<times> 'v) list \<Rightarrow> ('k \<times> 'v) list" where
  "smap_insert k v m = filter (\<lambda>x. fst x < k) m @ (k, v) # filter (\<lambda>x. \<not> fst x \<le> k) m"

definition lower_bound :: "'k::linorder \<Rightarrow> ('k \<times> 'v) list \<Rightarrow> ('k \<times> 'v) option" where
  "lower_bound k m = find (\<lambda>x. k \<le> fst x) m"

definition upper_bound :: "'k::linorder \<Rightarrow> ('k \<times> 'v) list \<Rightarrow> ('k \<times> 'v) option" where
  "upper_bound k m = find (\<lambda>x. k < fst x) m"

definition smap_ok :: "('k::linorder \<times> 'v) list \<Rightarrow> bool" where
  "smap_ok m \<longleftrightarrow> sorted_wrt (<) (map fst m)"

lemma map_of_filter_key: "map_of (filter (\<lambda>x. P (fst x)) m) j = (if P j then map_of m j else None)"
  by (induction m) auto

lemma map_of_smap_insert: "map_of (smap_insert k v m) = (map_of m)(k \<mapsto> v)"
  by (auto simp: smap_insert_def fun_eq_iff map_add_def not_le map_of_filter_key [of "\<lambda>y. y < k"]
      map_of_filter_key [of "\<lambda>y. k < y"] split: option.split)

lemma smap_ok_Nil [simp]: "smap_ok []"
  by (simp add: smap_ok_def)

lemma smap_ok_insert: "smap_ok m \<Longrightarrow> smap_ok (smap_insert k v m)"
proof -
  assume "smap_ok m"
  then have s: "sorted_wrt (\<lambda>x y. fst x < fst y) m" by (simp add: smap_ok_def sorted_wrt_map)
  have "sorted_wrt (\<lambda>x y. fst x < fst y) (filter P m)" for P by (rule sorted_wrt_filter [OF s])
  then show ?thesis by (auto simp: smap_ok_def sorted_wrt_map smap_insert_def sorted_wrt_append)
qed

lemma smap_ok_distinct: "smap_ok m \<Longrightarrow> distinct (map fst m)"
  by (simp add: smap_ok_def strict_sorted_iff)

text \<open>The first entry of a sorted list that is large enough is the least such entry.\<close>

lemma find_least:
  assumes "smap_ok m" and up: "\<And>x y. P x \<Longrightarrow> x < y \<Longrightarrow> P y"
  shows "find (\<lambda>x. P (fst x)) m = Some (k', v)
    \<longleftrightarrow> map_of m k' = Some v \<and> P k' \<and> (\<forall>j. map_of m j \<noteq> None \<longrightarrow> P j \<longrightarrow> k' \<le> j)"
  using assms(1)
proof (induction m)
  case Nil
  then show ?case by simp
next
  case (Cons a m)
  then have gt: "\<forall>x\<in>fst ` set m. fst a < x" and ok: "smap_ok m" by (auto simp: smap_ok_def)
  have keys: "map_of m j \<noteq> None \<Longrightarrow> fst a < j" for j using gt by (metis map_of_eq_None_iff)
  obtain b w where a: "a = (b, w)" by fastforce
  show ?case
  proof (cases "P b")
    case True
    then show ?thesis using keys by (force simp: a)
  next
    case False
    then have "(\<forall>j. map_of (a # m) j \<noteq> None \<longrightarrow> P j \<longrightarrow> k' \<le> j) \<longleftrightarrow> (\<forall>j. map_of m j \<noteq> None \<longrightarrow> P j \<longrightarrow> k' \<le> j)"
      "map_of (a # m) k' = Some v \<and> P k' \<longleftrightarrow> map_of m k' = Some v \<and> P k'"
      using keys by (force simp: a)+
    then show ?thesis using Cons.IH [OF ok] False by (simp add: a)
  qed
qed

section \<open>The contract\<close>

locale ordered_map =
  fixes ok :: "'m \<Rightarrow> bool"
    and lookup :: "'m \<Rightarrow> 'k::linorder \<Rightarrow> 'v option"
    and insert :: "'k \<Rightarrow> 'v \<Rightarrow> 'm \<Rightarrow> 'm"
    and lower :: "'k \<Rightarrow> 'm \<Rightarrow> ('k \<times> 'v) option"
    and upper :: "'k \<Rightarrow> 'm \<Rightarrow> ('k \<times> 'v) option"
  assumes insert_ok: "ok m \<Longrightarrow> ok (insert k v m)"
    and lookup_insert: "ok m \<Longrightarrow> lookup (insert k v m) = (lookup m)(k \<mapsto> v)"
    and lower_iff: "ok m \<Longrightarrow> lower k m = Some (k', v)
      \<longleftrightarrow> lookup m k' = Some v \<and> k \<le> k' \<and> (\<forall>j. lookup m j \<noteq> None \<longrightarrow> k \<le> j \<longrightarrow> k' \<le> j)"
    and upper_iff: "ok m \<Longrightarrow> upper k m = Some (k', v)
      \<longleftrightarrow> lookup m k' = Some v \<and> k < k' \<and> (\<forall>j. lookup m j \<noteq> None \<longrightarrow> k < j \<longrightarrow> k' \<le> j)"
begin

lemma lower_found: "ok m \<Longrightarrow> lookup m k = Some v \<Longrightarrow> lower k m = Some (k, v)"
  by (simp add: lower_iff)

lemma lower_missing: "ok m \<Longrightarrow> lookup m k = None \<Longrightarrow> lower k m = upper k m"
proof -
  assume a: "ok m" "lookup m k = None"
  then have "lower k m = Some (k', v) \<longleftrightarrow> upper k m = Some (k', v)" for k' v
    by (simp add: lower_iff upper_iff) (metis le_less option.distinct(1))
  then show ?thesis by (metis option.exhaust surj_pair)
qed

end

interpretation smap: ordered_map smap_ok map_of smap_insert lower_bound upper_bound
proof unfold_locales
  fix m :: "('a \<times> 'b) list" and k k' :: 'a and v :: 'b
  assume m: "smap_ok m"
  show "smap_ok (smap_insert k v m)" by (rule smap_ok_insert [OF m])
  show "map_of (smap_insert k v m) = (map_of m)(k \<mapsto> v)" by (rule map_of_smap_insert)
  show "lower_bound k m = Some (k', v)
      \<longleftrightarrow> map_of m k' = Some v \<and> k \<le> k' \<and> (\<forall>j. map_of m j \<noteq> None \<longrightarrow> k \<le> j \<longrightarrow> k' \<le> j)"
    unfolding lower_bound_def by (rule find_least [OF m]) simp
  show "upper_bound k m = Some (k', v)
      \<longleftrightarrow> map_of m k' = Some v \<and> k < k' \<and> (\<forall>j. map_of m j \<noteq> None \<longrightarrow> k < j \<longrightarrow> k' \<le> j)"
    unfolding upper_bound_def by (rule find_least [OF m]) simp
qed

end
