(* ===== verification/Player.thy ===== *)
theory Player
  imports TaskLogic EventCenter OrderedMap "HOL-Library.List_Lexorder" "HOL-Library.Char_ord"
begin

text \<open>
  A player in memory: \<open>rgtd/zone/account/PlayerAgent.cpp\<close>, its centre of logic parts
  \<open>rgtd/zone/logic/PlayerLogicCenter.cpp\<close> and the part that saves the role periodically,
  \<open>rgtd/zone/logic/PlayerAutoSyncDBLogic.cpp\<close>.

  \<open>std::map<string, PlayerLogicPtr>\<close> is an association list kept in the order of its keys, the
  order in which the parts are visited.  The database request of the periodic save,
  \<open>DBProxy::UpdateRole\<close>, is the parameter \<open>updateRole\<close>.
\<close>

section \<open>The centre of logic parts\<close>

datatype PlayerLogic = PL_Task | PL_AutoSync | PL_Knapsack

definition logic_name :: "PlayerLogic \<Rightarrow> string" where
  "logic_name l = (case l of PL_Task \<Rightarrow> ''task'' | PL_AutoSync \<Rightarrow> ''autosync'' | PL_Knapsack \<Rightarrow> ''knapsack'')"

type_synonym LogicMap = "(string \<times> PlayerLogic) list"

definition LogicCenter_Register :: "string \<Rightarrow> PlayerLogic \<Rightarrow> LogicMap \<Rightarrow> int \<times> LogicMap" where
  "LogicCenter_Register name logic m =
     (if map_of m name \<noteq> None then (-1, m) else (0, smap_insert name logic m))"

definition LogicCenter_InitLogic :: "LogicMap \<Rightarrow> LogicMap" where
  "LogicCenter_InitLogic m =
     foldl (\<lambda>m l. snd (LogicCenter_Register (logic_name l) l m)) m [PL_Task, PL_AutoSync, PL_Knapsack]"

text \<open>\<open>PLAYER_LOGIC_CENTER_VISIT_ALL\<close>: call the handler of every part, in the order of the map.\<close>

fun visit_all :: "(PlayerLogic \<Rightarrow> 's \<Rightarrow> 's option) \<Rightarrow> LogicMap \<Rightarrow> 's \<Rightarrow> 's option" where
  "visit_all handler [] s = Some s"
| "visit_all handler ((n, l) # m) s =
     (case handler l s of None \<Rightarrow> None | Some s \<Rightarrow> visit_all handler m s)"

definition NotifyEvent ::
  "(PlayerLogic \<Rightarrow> int \<Rightarrow> u64 \<Rightarrow> u64 \<Rightarrow> 's \<Rightarrow> 's option) \<Rightarrow> LogicMap \<Rightarrow> int \<Rightarrow> u64 \<Rightarrow> string option \<Rightarrow> u64
    \<Rightarrow> 's \<Rightarrow> 's option" where
  "NotifyEvent onEvent m iEvent ulParam pszLogicName arg s =
     (case pszLogicName of
        Some sLogicName \<Rightarrow>
          (case map_of m sLogicName of
             Some l \<Rightarrow> onEvent l iEvent ulParam arg s
           | None \<Rightarrow> Some s)
      | None \<Rightarrow> visit_all (\<lambda>l. onEvent l iEvent ulParam arg) m s)"

section \<open>The player\<close>

record Role =
  role_rid :: u64
  role_name :: string
  role_pack :: RolePackage
  role_doing :: "RoleOneTask list"

record PlayerAgent =
  ptrLogic :: LogicMap
  pRoleData :: "Role option"
  pa_iDirty :: int
  m_fromDB :: bool
  as_dwTimerID :: u32

definition PlayerAgent_new :: "Role option \<Rightarrow> bool \<Rightarrow> PlayerAgent" where
  "PlayerAgent_new role fromdb = \<lparr>ptrLogic = LogicCenter_InitLogic [], pRoleData = role, pa_iDirty = 0,
     m_fromDB = fromdb, as_dwTimerID = 0\<rparr>"

definition PlayerAgent_GetUID :: "PlayerAgent \<Rightarrow> fault + u64" where
  "PlayerAgent_GetUID p = (case pRoleData p of Some r \<Rightarrow> Inr (role_rid r) | None \<Rightarrow> Inl NullDeref)"

definition PlayerAgent_GetName :: "PlayerAgent \<Rightarrow> fault + string" where
  "PlayerAgent_GetName p = (case pRoleData p of Some r \<Rightarrow> Inr (role_name r) | None \<Rightarrow> Inl NullDeref)"

definition PlayerAgent_GetAreaID :: "PlayerAgent \<Rightarrow> u32" where
  "PlayerAgent_GetAreaID p = -1"

definition PlayerAgent_GetLevel :: "PlayerAgent \<Rightarrow> u32" where
  "PlayerAgent_GetLevel p = 1"

definition MutableRoleData :: "PlayerAgent \<Rightarrow> Role option \<times> PlayerAgent" where
  "MutableRoleData p = (pRoleData p, p\<lparr>pa_iDirty := pa_iDirty p + 1\<rparr>)"

definition IsDirty :: "PlayerAgent \<Rightarrow> bool" where
  "IsDirty p \<longleftrightarrow> pa_iDirty p > 0"

definition CleanDirty :: "PlayerAgent \<Rightarrow> PlayerAgent" where
  "CleanDirty p = p\<lparr>pa_iDirty := 0\<rparr>"

text \<open>\<open>OnInitBirthPlayer\<close> of the parts: only the bag has one with an effect.\<close>

definition logic_OnInitBirthPlayer :: "PlayerLogic \<Rightarrow> PlayerAgent \<Rightarrow> PlayerAgent option" where
  "logic_OnInitBirthPlayer l p =
     (case l of
        PL_Knapsack \<Rightarrow>
          (case pRoleData p of
             None \<Rightarrow> None
           | Some r \<Rightarrow>
               let k = Knapsack_OnInitBirthPlayer \<lparr>pack = role_pack r, m_iDirty = pa_iDirty p, fired = []\<rparr>
               in Some (p\<lparr>pRoleData := Some (r\<lparr>role_pack := pack k\<rparr>), pa_iDirty := m_iDirty k\<rparr>))
      | _ \<Rightarrow> Some p)"

definition PlayerAgent_InitBirthPlayer :: "PlayerAgent \<Rightarrow> PlayerAgent option" where
  "PlayerAgent_InitBirthPlayer p = visit_all logic_OnInitBirthPlayer (ptrLogic p) p"

section \<open>Saving the role periodically\<close>

definition autosync_fire ::
  "'c \<Rightarrow> ('e \<Rightarrow> u64 \<Rightarrow> 'p option) \<Rightarrow> ('c, 'p, 'e) notifier \<Rightarrow> u64 \<Rightarrow> ('c, 'p) EventCenter \<times> 'e
    \<Rightarrow> (u32 \<times> ('c, 'p) EventCenter \<times> 'e) option" where
  "autosync_fire onTimer zone notify uid =
     FireEvent onTimer zone notify EVENT_PLAYER_SYNC_DB (Some ''autosync'') 300 uid 0 False"

text \<open>\<open>OnAttach\<close>, \<open>OnDetach\<close> and \<open>OnEvent\<close> on the player's \<open>m_dwTimerID\<close> and the event centre.\<close>

definition AutoSync_OnAttach ::
  "'c \<Rightarrow> ('e \<Rightarrow> u64 \<Rightarrow> 'p option) \<Rightarrow> ('c, 'p, 'e) notifier \<Rightarrow> u64 \<Rightarrow> PlayerAgent
    \<Rightarrow> ('c, 'p) EventCenter \<times> 'e \<Rightarrow> (PlayerAgent \<times> ('c, 'p) EventCenter \<times> 'e) option" where
  "AutoSync_OnAttach onTimer zone notify uid p ece =
     (case autosync_fire onTimer zone notify uid ece of
        None \<Rightarrow> None
      | Some (tid, ece) \<Rightarrow> Some (p\<lparr>as_dwTimerID := tid\<rparr>, ece))"

definition AutoSync_OnDetach ::
  "PlayerAgent \<Rightarrow> ('c, 'p) EventCenter \<Rightarrow> ('c, 'p) EventCenter" where
  "AutoSync_OnDetach p ec = ec\<lparr>timerMgr := CancelTimer (as_dwTimerID p) (timerMgr ec)\<rparr>"

definition AutoSync_OnEvent ::
  "'c \<Rightarrow> ('e \<Rightarrow> u64 \<Rightarrow> 'p option) \<Rightarrow> ('c, 'p, 'e) notifier \<Rightarrow> (u64 \<Rightarrow> Role option \<Rightarrow> 'e \<Rightarrow> int \<times> 'e)
    \<Rightarrow> u64 \<Rightarrow> int \<Rightarrow> PlayerAgent \<Rightarrow> ('c, 'p) EventCenter \<times> 'e
    \<Rightarrow> (PlayerAgent \<times> ('c, 'p) EventCenter \<times> 'e) option" where
  "AutoSync_OnEvent onTimer zone notify updateRole uid iEvent p ece =
     (let (ec, e) = ece
      in if iEvent = EVENT_PLAYER_SYNC_DB then
           let (ret, e) = (if IsDirty p then updateRole uid (pRoleData p) e else (0, e))
           in if IsDirty p \<and> ret \<noteq> 0 then Some (p, ec, e)
              else
                let p = (if IsDirty p then CleanDirty p else p)
                in case autosync_fire onTimer zone notify uid (ec, e) of
                     None \<Rightarrow> None
                   | Some (tid, ece) \<Rightarrow> Some (p\<lparr>as_dwTimerID := tid\<rparr>, ece)
         else Some (p, ece))"

section \<open>Lemmas\<close>

interpretation logics: registry LogicCenter_Register map_of
  by unfold_locales (auto simp: LogicCenter_Register_def map_of_smap_insert)

lemma InitLogic_map:
  "LogicCenter_InitLogic [] = [(''autosync'', PL_AutoSync), (''knapsack'', PL_Knapsack), (''task'', PL_Task)]"
  by (simp add: LogicCenter_InitLogic_def LogicCenter_Register_def logic_name_def smap_insert_def
      less_char_def less_eq_char_def)

lemma autosync_fire_online:
  assumes "zone e uid = Some pl"
    and "finite (dom (m_mpDelayEventParams ec))" and "dom (timer_pending (timerMgr ec)) \<noteq> UNIV"
  obtains tid sq ec' where "autosync_fire onTimer zone notify uid (ec, e) = Some (tid, ec', e)"
    and "timer_pending (timerMgr ec) tid = None"
    and "timer_pending (timerMgr ec') =
      (timer_pending (timerMgr ec))(tid \<mapsto> (EVENT_PLAYER_SYNC_DB, Some onTimer, word_of_int sq))"
    and "m_mpDelayEventParams ec' =
      (m_mpDelayEventParams ec)(sq \<mapsto> parked EVENT_PLAYER_SYNC_DB (Some ''autosync'') uid 0)"
proof -
  let ?ec = "ec\<lparr>m_mpPlayerAgents := (m_mpPlayerAgents ec)(uid \<mapsto> pl)\<rparr>"
  have "finite (dom (m_mpDelayEventParams ?ec))" "dom (timer_pending (timerMgr ?ec)) \<noteq> UNIV"
    using assms(2,3) by simp_all
  then show thesis
  proof (rule GenerateDelayEvent_result [where code = EVENT_PLAYER_SYNC_DB and onTimer = onTimer
      and recv = "Some ''autosync''" and secs = 300 and p = uid and arg = 0])
    fix tid sq tm
    assume g: "m_mpDelayEventParams ?ec sq = None" "timer_pending (timerMgr ?ec) tid = None"
      "timer_pending tm = (timer_pending (timerMgr ?ec))(tid \<mapsto> (EVENT_PLAYER_SYNC_DB, Some onTimer, word_of_int sq))"
      "GenerateDelayEvent onTimer EVENT_PLAYER_SYNC_DB (Some ''autosync'') 300 uid 0 ?ec
        = Some (tid, ?ec\<lparr>timerMgr := tm,
        m_mpDelayEventParams := (m_mpDelayEventParams ?ec)(sq \<mapsto> parked EVENT_PLAYER_SYNC_DB (Some ''autosync'') uid 0),
        m_iDelayEventNextSeq := sq + 1\<rparr>)"
    have "autosync_fire onTimer zone notify uid (ec, e) = Some (tid, ?ec\<lparr>timerMgr := tm,
        m_mpDelayEventParams := (m_mpDelayEventParams ?ec)(sq \<mapsto> parked EVENT_PLAYER_SYNC_DB (Some ''autosync'') uid 0),
        m_iDelayEventNextSeq := sq + 1\<rparr>, e)"
      using g(4) FireEvent_delayed_eq [where zone = zone and e = e and onTimer = onTimer
          and notify = notify and recv = "Some ''autosync''" and arg = 0 and ex = False and ec = ec,
          OF sync_is_player_event _ _ assms(1), of 300]
      by (simp add: autosync_fire_def)
    from that [OF this, of sq] show thesis using g(2,3) by simp
  qed
qed

section \<open>Properties\<close>

text \<open>
  A player's event reaches its three logic parts as it should when it is fired at once: without
  a receiver every part handles it exactly once, in the order of their names, each on the state the
  one before left; with the name of a part that part alone handles it; the empty name, which is
  what a delayed broadcast turns into, reaches nobody.
\<close>

lemma NotifyEvent_delivery:
  "NotifyEvent onEvent (ptrLogic (PlayerAgent_new r f)) ev p None arg s
      = Option.bind (onEvent PL_AutoSync ev p arg s)
          (\<lambda>s. Option.bind (onEvent PL_Knapsack ev p arg s) (onEvent PL_Task ev p arg))
   \<and> NotifyEvent onEvent (ptrLogic (PlayerAgent_new r f)) ev p (Some (logic_name l)) arg s = onEvent l ev p arg s
   \<and> NotifyEvent onEvent (ptrLogic (PlayerAgent_new r f)) ev p (Some '''') arg s = Some s"
  by (cases l) (auto simp: NotifyEvent_def PlayerAgent_new_def InitLogic_map logic_name_def
      split: option.split)

text \<open>
  Attaching a role starts one periodic-save timer and detaching it cancels exactly that timer:
  the pending timers are those from before.  The parameters parked in the event centre are not
  given back: every attach leaves one entry behind.
\<close>

lemma AutoSync_attach_detach:
  assumes "zone e uid = Some pl" and "finite (dom (m_mpDelayEventParams ec))"
    and "dom (timer_pending (timerMgr ec)) \<noteq> UNIV"
  shows "\<exists>p' ec' sq. AutoSync_OnAttach onTimer zone notify uid p (ec, e) = Some (p', ec', e)
    \<and> timer_pending (timerMgr ec) (as_dwTimerID p') = None
    \<and> timer_pending (timerMgr ec') (as_dwTimerID p') = Some (EVENT_PLAYER_SYNC_DB, Some onTimer, word_of_int sq)
    \<and> timer_pending (timerMgr (AutoSync_OnDetach p' ec')) = timer_pending (timerMgr ec)
    \<and> m_mpDelayEventParams (AutoSync_OnDetach p' ec')
        = (m_mpDelayEventParams ec)(sq \<mapsto> parked EVENT_PLAYER_SYNC_DB (Some ''autosync'') uid 0)"
proof (rule autosync_fire_online [where zone = zone and e = e, OF assms, of onTimer notify])
  fix tid sq ec'
  assume g: "autosync_fire onTimer zone notify uid (ec, e) = Some (tid, ec', e)"
    "timer_pending (timerMgr ec) tid = None"
    "timer_pending (timerMgr ec') =
      (timer_pending (timerMgr ec))(tid \<mapsto> (EVENT_PLAYER_SYNC_DB, Some onTimer, word_of_int sq))"
    "m_mpDelayEventParams ec' =
      (m_mpDelayEventParams ec)(sq \<mapsto> parked EVENT_PLAYER_SYNC_DB (Some ''autosync'') uid 0)"
  have "timer_pending (CancelTimer tid (timerMgr ec')) = timer_pending (timerMgr ec)"
    using g(2,3) by (simp add: timers.cancel_pending fun_upd_idem)
  then show ?thesis using g
    by (intro exI [of _ "p\<lparr>as_dwTimerID := tid\<rparr>"] exI [of _ ec'] exI [of _ sq])
      (simp add: AutoSync_OnAttach_def AutoSync_OnDetach_def)
qed

lemma AutoSync_attach_detach_witness:
  "\<exists>p' ec'. AutoSync_OnAttach () zone77 quiet 77 (PlayerAgent_new None True) (centre0, ()) = Some (p', ec', ())
    \<and> timer_pending (timerMgr (AutoSync_OnDetach p' ec')) = Map.empty
    \<and> m_mpDelayEventParams (AutoSync_OnDetach p' ec') \<noteq> Map.empty"
  using AutoSync_attach_detach [of zone77 "()" 77 3 centre0 "()" quiet "PlayerAgent_new None True"]
  by (fastforce simp: zone77_def centre0_def)

text \<open>
  The handler of the save event of an online player.  A dirty role is handed to the database;
  when that succeeds the role is clean and the next save is scheduled, when it fails the role stays
  dirty and no further save is ever scheduled, since the handler returns before it re-arms.
\<close>

lemma AutoSync_OnEvent_saves:
  assumes "IsDirty p" and "updateRole uid (pRoleData p) e = (ret, e')" and "zone e' uid = Some pl"
    and "finite (dom (m_mpDelayEventParams ec))" and "dom (timer_pending (timerMgr ec)) \<noteq> UNIV"
  shows "\<exists>p' ec'. AutoSync_OnEvent onTimer zone notify updateRole uid EVENT_PLAYER_SYNC_DB p (ec, e)
      = Some (p', ec', e')
    \<and> (if ret = 0
       then \<not> IsDirty p' \<and> (\<exists>sq. timer_pending (timerMgr ec') = (timer_pending (timerMgr ec))
              (as_dwTimerID p' \<mapsto> (EVENT_PLAYER_SYNC_DB, Some onTimer, word_of_int sq)))
       else p' = p \<and> ec' = ec)"
proof (rule autosync_fire_online [where zone = zone and e = e', OF assms(3-5), of onTimer notify])
  fix tid sq ec'
  assume g: "autosync_fire onTimer zone notify uid (ec, e') = Some (tid, ec', e')"
    "timer_pending (timerMgr ec') =
      (timer_pending (timerMgr ec))(tid \<mapsto> (EVENT_PLAYER_SYNC_DB, Some onTimer, word_of_int sq))"
  show ?thesis
  proof (cases "ret = 0")
    case True
    have "AutoSync_OnEvent onTimer zone notify updateRole uid EVENT_PLAYER_SYNC_DB p (ec, e)
        = Some ((CleanDirty p)\<lparr>as_dwTimerID := tid\<rparr>, ec', e')"
      using assms(1,2) True g(1) by (simp add: AutoSync_OnEvent_def)
    then show ?thesis using g(2) True by (auto simp: IsDirty_def CleanDirty_def)
  next
    case False
    then show ?thesis using assms(1,2) by (simp add: AutoSync_OnEvent_def)
  qed
qed

lemma AutoSync_OnEvent_saves_witness:
  "\<exists>p' ec'. AutoSync_OnEvent () zone77 quiet (\<lambda>_ _ e. (0, e)) 77 EVENT_PLAYER_SYNC_DB
      (snd (MutableRoleData (PlayerAgent_new None True))) (centre0, ()) = Some (p', ec', ()) \<and> \<not> IsDirty p'"
  using AutoSync_OnEvent_saves [of "snd (MutableRoleData (PlayerAgent_new None True))" "\<lambda>_ _ e. (0, e)"
      77 "()" 0 "()" zone77 3 centre0 "()" quiet]
  by (auto simp: zone77_def centre0_def IsDirty_def MutableRoleData_def PlayerAgent_new_def)

end
