(* ===== verification/Decimal.thy ===== *)
theory Decimal
  imports Prelude
begin

text \<open>
  Decimal numbers as the C library prints and reads them: \<open>%d\<close>, \<open>%u\<close>, \<open>%lu\<close> on the one side,
  \<open>strtol\<close> and \<open>atoi\<close> on the other, with the round trip between the two.
\<close>

section \<open>Printing\<close>

definition digit_char :: "nat \<Rightarrow> char" where
  "digit_char d = char_of (48 + d)"

fun show_nat :: "nat \<Rightarrow> string" where
  "show_nat n = (if n < 10 then [digit_char n] else show_nat (n div 10) @ [digit_char (n mod 10)])"

declare show_nat.simps [simp del]

definition show_int :: "int \<Rightarrow> string" where
  "show_int i = (if i < 0 then CHR ''-'' # show_nat (nat (- i)) else show_nat (nat i))"

section \<open>Reading\<close>

definition is_digit :: "char \<Rightarrow> bool" where
  "is_digit c \<longleftrightarrow> 48 \<le> (of_char c :: nat) \<and> (of_char c :: nat) \<le> 57"

definition digit_val :: "char \<Rightarrow> nat" where
  "digit_val c = of_char c - 48"

text \<open>The value of the longest prefix of digits, on top of what has been read.\<close>

fun read_digits :: "nat \<Rightarrow> string \<Rightarrow> nat" where
  "read_digits acc [] = acc"
| "read_digits acc (c # cs) = (if is_digit c then read_digits (acc * 10 + digit_val c) cs else acc)"

definition is_space :: "char \<Rightarrow> bool" where
  "is_space c \<longleftrightarrow> (of_char c :: nat) = 32 \<or> (9 \<le> (of_char c :: nat) \<and> (of_char c :: nat) \<le> 13)"

text \<open>\<open>strtol(s, NULL, 10)\<close>, without the saturation at the limits of \<open>long\<close>.\<close>

definition strtol :: "string \<Rightarrow> int" where
  "strtol s =
     (case dropWhile is_space s of
        [] \<Rightarrow> 0
      | c # cs \<Rightarrow>
          if c = CHR ''-'' then - int (read_digits 0 cs)
          else if c = CHR ''+'' then int (read_digits 0 cs)
          else int (read_digits 0 (c # cs)))"

section \<open>Round trip\<close>

lemma digit_char_props:
  assumes "d < 10"
  shows "is_digit (digit_char d)" and "digit_val (digit_char d) = d" and "\<not> is_space (digit_char d)"
proof -
  have "d = 0 \<or> d = 1 \<or> d = 2 \<or> d = 3 \<or> d = 4 \<or> d = 5 \<or> d = 6 \<or> d = 7 \<or> d = 8 \<or> d = 9"
    using assms by presburger
  then have "is_digit (digit_char d) \<and> digit_val (digit_char d) = d \<and> \<not> is_space (digit_char d)"
    by (elim disjE) (simp_all add: digit_char_def is_digit_def digit_val_def is_space_def)
  then show "is_digit (digit_char d)" and "digit_val (digit_char d) = d" and "\<not> is_space (digit_char d)"
    by simp_all
qed

lemma show_nat_induct [case_names digit step]:
  fixes n :: nat
  assumes "\<And>n. n < 10 \<Longrightarrow> P n" and "\<And>n. \<not> n < 10 \<Longrightarrow> P (n div 10) \<Longrightarrow> P n"
  shows "P n"
  using assms by (induction n rule: show_nat.induct) blast

lemma show_nat_nonempty [simp]: "show_nat n \<noteq> []"
  by (subst show_nat.simps) simp

lemma show_nat_digits: "c \<in> set (show_nat n) \<Longrightarrow> is_digit c"
proof (induction n rule: show_nat_induct)
  case (digit n)
  then show ?case using digit_char_props(1) [of n] by (simp add: show_nat.simps [of n])
next
  case (step n)
  then show ?case using digit_char_props(1) [of "n mod 10"] by (auto simp: show_nat.simps [of n])
qed

lemma read_digits_append:
  "(\<And>c. c \<in> set xs \<Longrightarrow> is_digit c) \<Longrightarrow> read_digits acc (xs @ ys) = read_digits (read_digits acc xs) ys"
  by (induction xs arbitrary: acc) auto

lemma read_show_nat: "read_digits 0 (show_nat n) = n"
proof (induction n rule: show_nat_induct)
  case (digit n)
  then show ?case using digit_char_props [of n] by (simp add: show_nat.simps [of n])
next
  case (step n)
  have "read_digits 0 (show_nat n) = read_digits (read_digits 0 (show_nat (n div 10))) [digit_char (n mod 10)]"
    using step(1) by (simp add: show_nat.simps [of n] read_digits_append show_nat_digits)
  then show ?case using step(2) digit_char_props [of "n mod 10"] by simp
qed

lemma read_digits_stop: "\<not> is_digit c \<Longrightarrow> read_digits acc (c # cs) = acc"
  by simp

lemma is_digit_props: "is_digit c \<Longrightarrow> \<not> is_space c \<and> c \<noteq> CHR ''-'' \<and> c \<noteq> CHR ''+'' \<and> c \<noteq> CHR ''|''"
  by (auto simp: is_digit_def is_space_def)

lemma strtol_show_int [simp]: "strtol (show_int i) = i"
proof (cases "i < 0")
  case True
  have "\<not> is_space CHR ''-''" by (simp add: is_space_def)
  then show ?thesis using True by (simp add: show_int_def strtol_def read_show_nat)
next
  case False
  obtain c cs where s: "show_nat (nat i) = c # cs" by (meson neq_Nil_conv show_nat_nonempty)
  then have "is_digit c" using show_nat_digits [of c "nat i"] by simp
  then have "strtol (show_int i) = int (read_digits 0 (show_nat (nat i)))"
    using False is_digit_props [of c] by (simp add: show_int_def strtol_def s del: read_digits.simps)
  then show ?thesis using False by (simp add: read_show_nat)
qed

lemma show_int_no_bar: "CHR ''|'' \<notin> set (show_int i)"
proof -
  have "CHR ''|'' \<notin> set (show_nat n)" for n using show_nat_digits [of "CHR ''|''" n] by (auto simp: is_digit_def)
  then show ?thesis by (simp add: show_int_def)
qed

lemma show_int_nonempty [simp]: "show_int i \<noteq> []"
  by (simp add: show_int_def)

lemma length_show_nat: "n < 10 ^ Suc k \<Longrightarrow> length (show_nat n) \<le> Suc k"
proof (induction k arbitrary: n)
  case 0
  then show ?case by (simp add: show_nat.simps)
next
  case (Suc k)
  have "n div 10 < 10 ^ Suc k" using Suc.prems by (simp add: less_mult_imp_div_less)
  from Suc.IH [OF this] show ?case by (subst show_nat.simps) simp
qed

lemma show_int_chars: "c \<in> set (show_int i) \<Longrightarrow> c = CHR ''-'' \<or> is_digit c"
  using show_nat_digits [of c] by (auto simp: show_int_def split: if_splits)

lemma show_int_inj: "show_int i = show_int j \<longleftrightarrow> i = j"
  by (metis strtol_show_int)

lemma show_int_short: "\<bar>i\<bar> \<le> 18446744073709551615 \<Longrightarrow> length (show_int i) \<le> 21"
proof -
  assume "\<bar>i\<bar> \<le> 18446744073709551615"
  then have "nat \<bar>i\<bar> < 10 ^ Suc 19" by simp
  then show ?thesis using length_show_nat [of "nat \<bar>i\<bar>" 19] by (auto simp: show_int_def abs_if split: if_splits)
qed

lemma show_int_no_nul [simp]: "CHR 0x00 \<notin> set (show_int i)"
  using show_int_chars [of "CHR 0x00" i] by (auto simp: is_digit_def)

end
