(* ===== verification/Channel.thy ===== *)
theory Channel
  imports Decimal
begin

text \<open>
  The message channels between the servers: \<open>channel/Channel.cpp\<close>, \<open>channel/ChannelAgent.cpp\<close> and
  \<open>channel/ChannelAgentMgr.cpp\<close>.

  A remote channel is a ZeroMQ push socket.  A message goes out in two parts, a head with the
  name of the sender and a sequence number, and the data; the parts of one message arrive
  together.  Whether the library takes a part is a parameter of \<open>Write\<close>, and the socket itself is
  the list of the messages it took.  \<open>StringUtil::SplitString\<close> of the base library is the
  parameter \<open>split\<close>.
\<close>

section \<open>State\<close>

record ChannelMessage =
  iSrc :: int
  msg_seqence :: int
  pData :: "byte list"

abbreviation dwSize :: "ChannelMessage \<Rightarrow> u32" where
  "dwSize msg \<equiv> of_nat (length (pData msg))"

type_synonym zmq_message = "string \<times> byte list"

record ChannelAgent =
  ca_id :: int
  ca_szIDName :: string
  ca_local :: bool
  ca_seqence :: int
  ca_msg_head :: string
  ca_wire :: "zmq_message list"

definition ChannelAgent_new :: "int \<Rightarrow> bool \<Rightarrow> ChannelAgent" where
  "ChannelAgent_new i local = \<lparr>ca_id = i, ca_szIDName = '''', ca_local = local, ca_seqence = 0,
     ca_msg_head = '''', ca_wire = []\<rparr>"

record ChannelAgentMgr =
  m_mpChannelAgent :: "int \<rightharpoonup> ChannelAgent"
  zpollitems :: "int list"
  m_iNextGenID :: int
  m_mpNameChnlID :: "string \<rightharpoonup> int"

definition ChannelAgentMgr_new :: ChannelAgentMgr where
  "ChannelAgentMgr_new = \<lparr>m_mpChannelAgent = Map.empty, zpollitems = [], m_iNextGenID = 1,
     m_mpNameChnlID = Map.empty\<rparr>"

section \<open>The manager\<close>

definition ChannelAgentMgr_GetChannel :: "int \<Rightarrow> ChannelAgentMgr \<Rightarrow> ChannelAgent option" where
  "ChannelAgentMgr_GetChannel i m = m_mpChannelAgent m i"

definition GetChannelID :: "string \<Rightarrow> ChannelAgentMgr \<Rightarrow> int" where
  "GetChannelID name m = (case m_mpNameChnlID m name of Some i \<Rightarrow> i | None \<Rightarrow> 0)"

definition GetChannelByName :: "string \<Rightarrow> ChannelAgentMgr \<Rightarrow> ChannelAgent option" where
  "GetChannelByName name m =
     (case m_mpNameChnlID m name of Some i \<Rightarrow> ChannelAgentMgr_GetChannel i m | None \<Rightarrow> None)"

definition GenerateChannelID :: "ChannelAgentMgr \<Rightarrow> (int \<times> ChannelAgentMgr) option" where
  "GenerateChannelID m =
     (case probe (\<lambda>i. i = 0 \<or> ChannelAgentMgr_GetChannel i m \<noteq> None) (m_iNextGenID m) of
        None \<Rightarrow> None
      | Some i \<Rightarrow> Some (i, m\<lparr>m_iNextGenID := i\<rparr>))"

text \<open>
  Opening the socket.  \<open>fst z\<close> says whether ZeroMQ gives a socket and \<open>snd z\<close> is the result of
  binding or connecting it.
\<close>

type_synonym zmq_open = "bool \<times> int"

definition Channel_Create :: "zmq_open \<Rightarrow> bool \<Rightarrow> string \<Rightarrow> fault + int" where
  "Channel_Create z local name =
     (if \<not> length name < 24 then Inl AssertFail
      else if local then Inr (if \<not> fst z then -1 else if snd z \<noteq> 0 then -2 else 0)
      else Inr (if \<not> fst z then -3 else if snd z \<noteq> 0 then -4 else 0))"

definition ChannelAgent_Init :: "zmq_open \<Rightarrow> bool \<Rightarrow> string \<Rightarrow> fault + int" where
  "ChannelAgent_Init z local name =
     (case Channel_Create z local name of
        Inl e \<Rightarrow> Inl e
      | Inr iRet \<Rightarrow> Inr (if iRet \<noteq> 0 then -1 else 0))"

definition AddChannel :: "zmq_open \<Rightarrow> int \<Rightarrow> bool \<Rightarrow> string \<Rightarrow> ChannelAgentMgr \<Rightarrow> fault + int \<times> ChannelAgentMgr" where
  "AddChannel z i local pszName m =
     (if \<not> local \<and> \<not> i > 0 then Inl AssertFail
      else if m_mpChannelAgent m i \<noteq> None then Inr (-1, m)
      else if \<not> length pszName < 20 then Inl AssertFail
      else
        (case ChannelAgent_Init z local (take 31 (pszName @ ''#'' @ show_int i)) of
           Inl e \<Rightarrow> Inl e
         | Inr iRet \<Rightarrow>
             if iRet \<noteq> 0 then Inr (-2, m)
             else
               let m = (if local then m\<lparr>zpollitems := zpollitems m @ [i]\<rparr> else m)
               in Inr (0, m\<lparr>m_mpChannelAgent := (m_mpChannelAgent m)(i \<mapsto> ChannelAgent_new i local)\<rparr>)))"

text \<open>\<open>Init\<close> opens the listening channel 0; \<open>ctx_ok\<close> says whether ZeroMQ gives a context.\<close>

definition ChannelAgentMgr_Init :: "bool \<Rightarrow> zmq_open \<Rightarrow> string \<Rightarrow> ChannelAgentMgr \<Rightarrow> fault + int \<times> ChannelAgentMgr" where
  "ChannelAgentMgr_Init ctx_ok z pszName m =
     (if \<not> ctx_ok then Inr (-1, m) else AddChannel z 0 True pszName (m\<lparr>zpollitems := []\<rparr>))"

definition SetIDName :: "int \<Rightarrow> string \<Rightarrow> ChannelAgentMgr \<Rightarrow> fault + ChannelAgentMgr" where
  "SetIDName i name m =
     (case m_mpChannelAgent m i of
        None \<Rightarrow> Inl NullDeref
      | Some a \<Rightarrow> Inr (m\<lparr>m_mpChannelAgent := (m_mpChannelAgent m)(i \<mapsto> a\<lparr>ca_szIDName := take 127 name\<rparr>)\<rparr>))"

definition RemoveChannel :: "int \<Rightarrow> ChannelAgentMgr \<Rightarrow> int \<times> ChannelAgentMgr" where
  "RemoveChannel i m = (-1, m)"

section \<open>Writing and reading\<close>

text \<open>\<open>snprintf(szHeadMsg, 64, ...)\<close> keeps 63 characters.\<close>

definition head_text :: "string \<Rightarrow> int \<Rightarrow> string" where
  "head_text name sq = take 63 (name @ ''|'' @ show_int sq)"

text \<open>\<open>ok1\<close> and \<open>ok2\<close> say whether the library takes the head and the data.\<close>

definition Channel_Write :: "bool \<Rightarrow> bool \<Rightarrow> byte list \<Rightarrow> ChannelAgent \<Rightarrow> int \<times> ChannelAgent" where
  "Channel_Write ok1 ok2 buffer a =
     (let head = (if ca_msg_head a = '''' then head_text (ca_szIDName a) (ca_seqence a) else ca_msg_head a)
      in if \<not> ok1 then (-1, a\<lparr>ca_msg_head := head\<rparr>)
         else if \<not> ok2 then (-2, a\<lparr>ca_msg_head := ''''\<rparr>)
         else (0, a\<lparr>ca_msg_head := '''', ca_wire := ca_wire a @ [(head, buffer)],
                    ca_seqence := ca_seqence a + 1\<rparr>))"

definition PostMessage :: "bool \<Rightarrow> bool \<Rightarrow> ChannelMessage \<Rightarrow> ChannelAgent \<Rightarrow> int \<times> ChannelAgent" where
  "PostMessage ok1 ok2 msg a = Channel_Write ok1 ok2 (pData msg) a"

text \<open>
  \<open>Read\<close> of a message that has arrived with both parts (\<open>Some\<close>) or without the second (\<open>None\<close>).
  Indexing the split head outside its length is a fault.
\<close>

definition Channel_Read ::
  "(string \<Rightarrow> string \<Rightarrow> string list) \<Rightarrow> ChannelAgentMgr \<Rightarrow> string \<Rightarrow> byte list option
    \<Rightarrow> fault + int \<times> ChannelMessage option" where
  "Channel_Read split m head data =
     (let vecheads = split head ''|''
      in if length vecheads < 2 then Inl OutOfBounds
         else
           let chname = vecheads ! 0;
               sq = strtol (vecheads ! 1);
               src = GetChannelID chname m
           in case data of
                None \<Rightarrow> Inr (-1, None)
              | Some d \<Rightarrow> Inr (0, Some \<lparr>iSrc = src, msg_seqence = sq, pData = d\<rparr>))"

text \<open>
  \<open>Polling\<close>: \<open>n\<close> is the result of \<open>zmq_poll\<close>, \<open>eintr\<close> its error, and the list has, for each poll item,
  what can be read from it.  \<open>dispatch\<close> is the method of the dispatcher the manager was given; what
  it does to the rest of the process is the last component.
\<close>

type_synonym zmq_arrival = "(string \<times> byte list option) option"

fun Polling_items ::
  "(string \<Rightarrow> string \<Rightarrow> string list) \<Rightarrow> (ChannelMessage \<Rightarrow> 'e \<Rightarrow> 'e) \<Rightarrow> ChannelAgentMgr
    \<Rightarrow> (int \<times> zmq_arrival) list \<Rightarrow> int \<Rightarrow> 'e \<Rightarrow> fault + int \<times> 'e" where
  "Polling_items split dispatch m [] ievnts e = Inr (ievnts, e)"
| "Polling_items split dispatch m ((i, arrived) # items) ievnts e =
     (case (m_mpChannelAgent m i, arrived) of
        (Some a, Some (head, data)) \<Rightarrow>
          (case Channel_Read split m head data of
             Inl f \<Rightarrow> Inl f
           | Inr (iRet, Some msg) \<Rightarrow> Polling_items split dispatch m items (ievnts + 1) (dispatch msg e)
           | Inr (iRet, None) \<Rightarrow> Polling_items split dispatch m items ievnts e)
      | _ \<Rightarrow> Polling_items split dispatch m items ievnts e)"

definition Polling ::
  "(string \<Rightarrow> string \<Rightarrow> string list) \<Rightarrow> (ChannelMessage \<Rightarrow> 'e \<Rightarrow> 'e) \<Rightarrow> int \<Rightarrow> bool \<Rightarrow> zmq_arrival list
    \<Rightarrow> ChannelAgentMgr \<Rightarrow> 'e \<Rightarrow> fault + int \<times> 'e" where
  "Polling split dispatch n eintr arrived m e =
     (if n < 0 then Inr (if eintr then 0 else -1, e)
      else Polling_items split dispatch m (zip (zpollitems m) arrived) 0 e)"

section \<open>Lemmas\<close>

text \<open>The identifier of a channel: never 0, never in use, and the generator always finds one.\<close>

lemma GenerateChannelID_result:
  assumes "finite (dom (m_mpChannelAgent m))"
  shows "\<exists>i m'. GenerateChannelID m = Some (i, m') \<and> i \<noteq> 0 \<and> m_mpChannelAgent m i = None
    \<and> m_mpChannelAgent m' = m_mpChannelAgent m"
proof -
  have "{i. i = 0 \<or> ChannelAgentMgr_GetChannel i m \<noteq> None} = insert 0 (dom (m_mpChannelAgent m))"
    by (auto simp: ChannelAgentMgr_GetChannel_def)
  then have "finite {i. i = 0 \<or> ChannelAgentMgr_GetChannel i m \<noteq> None}" using assms by simp
  from probe_int_returns [OF this, of "m_iNextGenID m"] show ?thesis
    by (auto simp: GenerateChannelID_def ChannelAgentMgr_GetChannel_def)
qed

text \<open>What the wire carries of a name without bar that leaves room for the sequence number.\<close>

lemma head_text_full:
  "length name + 1 + length (show_int sq) \<le> 63 \<Longrightarrow> head_text name sq = name @ ''|'' @ show_int sq"
  by (simp add: head_text_def)

section \<open>Properties\<close>

text \<open>
  The documented behaviour of the splitting function the reader relies on: a text with exactly one
  separator falls into its two sides.
\<close>

definition split_law :: "(string \<Rightarrow> string \<Rightarrow> string list) \<Rightarrow> bool" where
  "split_law split \<longleftrightarrow> (\<forall>a b. a \<noteq> [] \<longrightarrow> b \<noteq> [] \<longrightarrow> CHR ''|'' \<notin> set a \<longrightarrow> CHR ''|'' \<notin> set b
     \<longrightarrow> split (a @ ''|'' @ b) ''|'' = [a, b])"

text \<open>
  C38.  A message the channel accepted is read back as it was posted: same data, the writer's
  sequence number, and the writer is advanced by one; provided the channel's name has no bar and
  leaves room for the number in the 63 characters of the head, and no head is left over from a
  failed write.
\<close>

theorem Channel_Write_Read:
  assumes "split_law split" and "ca_szIDName a \<noteq> []" and "CHR ''|'' \<notin> set (ca_szIDName a)"
    and "length (ca_szIDName a) + 1 + length (show_int (ca_seqence a)) \<le> 63" and "ca_msg_head a = ''''"
  shows "\<exists>head a'. Channel_Write True True d a = (0, a') \<and> ca_wire a' = ca_wire a @ [(head, d)]
    \<and> ca_seqence a' = ca_seqence a + 1
    \<and> Channel_Read split m head (Some d)
        = Inr (0, Some \<lparr>iSrc = GetChannelID (ca_szIDName a) m, msg_seqence = ca_seqence a, pData = d\<rparr>)"
proof -
  let ?n = "ca_szIDName a" and ?s = "show_int (ca_seqence a)"
  have h: "head_text ?n (ca_seqence a) = ?n @ ''|'' @ ?s" using assms(4) by (rule head_text_full)
  have "split (?n @ ''|'' @ ?s) ''|'' = [?n, ?s]"
    using assms(1,2,3) show_int_no_bar show_int_nonempty unfolding split_law_def by blast
  then show ?thesis using assms(5) h by (simp add: Channel_Write_def Channel_Read_def)
qed

definition bar_split :: "string \<Rightarrow> string \<Rightarrow> string list" where
  "bar_split s d = (let a = takeWhile (\<lambda>c. c \<noteq> hd d) s in [a, drop (length a + 1) s])"

lemma bar_split_law: "split_law bar_split"
proof -
  have "takeWhile (\<lambda>c. c \<noteq> CHR ''|'') (a @ CHR ''|'' # b) = a" if "CHR ''|'' \<notin> set a" for a b
    using that by (induction a) auto
  then show ?thesis by (simp add: split_law_def bar_split_def Let_def)
qed

theorem Channel_Write_Read_witness:
  "\<exists>head a'. Channel_Write True True [1, 2] ((ChannelAgent_new 1 False)\<lparr>ca_szIDName := ''gate:1''\<rparr>) = (0, a')
    \<and> Channel_Read bar_split ChannelAgentMgr_new head (Some [1, 2])
        = Inr (0, Some \<lparr>iSrc = 0, msg_seqence = 0, pData = [1, 2]\<rparr>)"
proof -
  have "length (show_int 0) = 1" by (simp add: show_int_def show_nat.simps)
  then show ?thesis
    using Channel_Write_Read [OF bar_split_law,
        of "(ChannelAgent_new 1 False)\<lparr>ca_szIDName := ''gate:1''\<rparr>" "[1, 2]" ChannelAgentMgr_new]
    by (auto simp: ChannelAgent_new_def GetChannelID_def ChannelAgentMgr_new_def)
qed

text \<open>The operations of the manager, as a client calls them.\<close>

datatype chan_call = CallInit bool zmq_open string | CallAdd zmq_open int bool string | CallName int string | CallGen | CallRemove int

definition chan_step :: "chan_call \<Rightarrow> ChannelAgentMgr \<Rightarrow> ChannelAgentMgr option" where
  "chan_step c m =
     (case c of
        CallInit c z n \<Rightarrow> (case ChannelAgentMgr_Init c z n m of Inl e \<Rightarrow> None | Inr (_, m) \<Rightarrow> Some m)
      | CallAdd r i l n \<Rightarrow> (case AddChannel r i l n m of Inl e \<Rightarrow> None | Inr (_, m) \<Rightarrow> Some m)
      | CallName i n \<Rightarrow> (case SetIDName i n m of Inl e \<Rightarrow> None | Inr m \<Rightarrow> Some m)
      | CallGen \<Rightarrow> map_option snd (GenerateChannelID m)
      | CallRemove i \<Rightarrow> Some (snd (RemoveChannel i m)))"

inductive chan_reach :: "ChannelAgentMgr \<Rightarrow> bool" where
  chan_init: "chan_reach ChannelAgentMgr_new"
| chan_call: "chan_reach m \<Longrightarrow> chan_step c m = Some m' \<Longrightarrow> chan_reach m'"

lemma chan_step_names: "chan_step c m = Some m' \<Longrightarrow> m_mpNameChnlID m' = m_mpNameChnlID m"
  by (cases c) (auto simp: chan_step_def ChannelAgentMgr_Init_def AddChannel_def SetIDName_def
      GenerateChannelID_def RemoveChannel_def Let_def split: option.splits if_splits sum.splits)

text \<open>No operation of the manager ever enters a name into the table of names.\<close>

lemma names_stay_empty: "chan_reach m \<Longrightarrow> m_mpNameChnlID m = Map.empty"
  by (induction rule: chan_reach.induct) (simp_all add: ChannelAgentMgr_new_def chan_step_names)

lemma read_source_zero:
  assumes "chan_reach m" and "Channel_Read split m head data = Inr (r, Some msg)"
  shows "iSrc msg = 0"
  using assms(2) names_stay_empty [OF assms(1)]
  by (auto simp: GetChannelID_def Channel_Read_def Let_def split: if_splits option.splits)

definition one_channel :: ChannelAgentMgr where
  "one_channel = ChannelAgentMgr_new\<lparr>m_mpChannelAgent :=
     [1 \<mapsto> (ChannelAgent_new 1 False)\<lparr>ca_szIDName := ''agent:1''\<rparr>]\<rparr>"

lemma one_channel_reach: "chan_reach one_channel"
proof -
  have n: "length (show_int 1) = 1" by (simp add: show_int_def show_nat.simps)
  have "chan_step (CallAdd (True, 0) 1 False ''gate'') ChannelAgentMgr_new
      = Some (ChannelAgentMgr_new\<lparr>m_mpChannelAgent := [1 \<mapsto> ChannelAgent_new 1 False]\<rparr>)"
    using n by (simp add: chan_step_def AddChannel_def ChannelAgent_Init_def Channel_Create_def
        ChannelAgentMgr_new_def)
  moreover have "chan_step (CallName 1 ''agent:1'')
      (ChannelAgentMgr_new\<lparr>m_mpChannelAgent := [1 \<mapsto> ChannelAgent_new 1 False]\<rparr>) = Some one_channel"
    by (simp add: chan_step_def SetIDName_def one_channel_def)
  ultimately show ?thesis by (blast intro: chan_reach.intros)
qed

text \<open>
  The identifier the manager generates for a new channel is free and never 0, the identifier of
  the listening channel, and the search for it always ends.
\<close>

lemma GenerateChannelID_fresh:
  assumes "finite (dom (m_mpChannelAgent m))"
  shows "\<exists>i m'. GenerateChannelID m = Some (i, m') \<and> i \<noteq> 0 \<and> m_mpChannelAgent m i = None
    \<and> m_mpChannelAgent m' = m_mpChannelAgent m"
  using assms by (rule GenerateChannelID_result)

lemma GenerateChannelID_fresh_witness:
  "\<exists>i m'. GenerateChannelID one_channel = Some (i, m') \<and> i \<noteq> 0 \<and> i \<noteq> 1"
  using GenerateChannelID_fresh [of one_channel] by (force simp: one_channel_def)

end
