(* ===== verification/ChannelProxy.thy ===== *)
theory ChannelProxy
  imports Channel
begin

text \<open>
  The proxy the servers use on top of the channels: \<open>app/ChannelMsgProxy.cpp\<close> and
  \<open>app/ChannelProxyDispatcher.cpp\<close>.  It puts an envelope round every message (a two-byte length of
  the head part, then head and data), and dispatches what arrives to the handler subscribed for
  the source channel.  \<open>'h\<close> is a handler.
\<close>

section \<open>The envelope\<close>

definition PROXY_CHANNEL_MESSAGE_HEAD_SIZE :: nat where "PROXY_CHANNEL_MESSAGE_HEAD_SIZE = 2"
definition MAX_CHANNEL_MESSAGE_SIZE :: nat where "MAX_CHANNEL_MESSAGE_SIZE = 65536"

definition envelope :: "int \<Rightarrow> byte list list \<Rightarrow> byte list" where
  "envelope iHeadSize vBuff = put_be16 (word_of_int iHeadSize) @ concat vBuff"

text \<open>
  \<open>SendToAgent\<close>: refuse what does not fit the send buffer, find the channel, post.  The channel is
  updated in place.
\<close>

definition SendToAgent ::
  "bool \<Rightarrow> bool \<Rightarrow> int \<Rightarrow> byte list list \<Rightarrow> int \<Rightarrow> ChannelAgentMgr \<Rightarrow> int \<times> ChannelAgentMgr" where
  "SendToAgent ok1 ok2 iDst vBuff iHeadSize m =
     (let iLength = sum_list (map length vBuff)
      in if iLength + PROXY_CHANNEL_MESSAGE_HEAD_SIZE \<ge> MAX_CHANNEL_MESSAGE_SIZE then (-1, m)
         else
           case ChannelAgentMgr_GetChannel iDst m of
             None \<Rightarrow> (-1, m)
           | Some a \<Rightarrow>
               let (r, a) = PostMessage ok1 ok2
                     \<lparr>iSrc = -1, msg_seqence = 0, pData = envelope iHeadSize vBuff\<rparr> a
               in (r, m\<lparr>m_mpChannelAgent := (m_mpChannelAgent m)(iDst \<mapsto> a)\<rparr>))"

text \<open>
  How the receivers open the envelope (the same lines open \<open>GateAgentChannelMsgHandler::DispatchMessage\<close>
  and \<open>ZoneAgentMgr::OnGateMessage\<close>): \<open>None\<close> when the announced head does not fit; reading the
  length of a message of fewer than two bytes is a fault.
\<close>

definition open_envelope :: "byte list \<Rightarrow> fault + (byte list \<times> byte list) option" where
  "open_envelope d =
     (if length d < 2 then Inl OutOfBounds
      else
        let n = unat (get_be16 d)
        in if length d < n + PROXY_CHANNEL_MESSAGE_HEAD_SIZE then Inr None
           else Inr (Some (take n (drop PROXY_CHANNEL_MESSAGE_HEAD_SIZE d),
                           drop (PROXY_CHANNEL_MESSAGE_HEAD_SIZE + n) d)))"

section \<open>Subscriptions and dispatch\<close>

record 'h ChannelMsgProxy =
  m_mpHandlerMap :: "int \<rightharpoonup> 'h"
  m_vecHandlers :: "((int \<times> int) \<times> 'h) list"

definition ChannelMsgProxy_new :: "'h ChannelMsgProxy" where
  "ChannelMsgProxy_new = \<lparr>m_mpHandlerMap = Map.empty, m_vecHandlers = []\<rparr>"

definition MatchSegment :: "int \<times> int \<Rightarrow> int \<Rightarrow> bool" where
  "MatchSegment seg i \<longleftrightarrow> i \<ge> fst seg \<and> i \<le> snd seg"

definition SubscribeSingleMsg :: "int \<Rightarrow> 'h \<Rightarrow> 'h ChannelMsgProxy \<Rightarrow> fault + 'h ChannelMsgProxy" where
  "SubscribeSingleMsg i h p =
     (if m_mpHandlerMap p i \<noteq> None then Inl AssertFail
      else Inr (p\<lparr>m_mpHandlerMap := (m_mpHandlerMap p)(i \<mapsto> h)\<rparr>))"

fun SubscribeScatterMsg :: "int list \<Rightarrow> 'h \<Rightarrow> 'h ChannelMsgProxy \<Rightarrow> fault + 'h ChannelMsgProxy" where
  "SubscribeScatterMsg [] h p = Inr p"
| "SubscribeScatterMsg (i # is) h p =
     (case SubscribeSingleMsg i h p of Inl e \<Rightarrow> Inl e | Inr p \<Rightarrow> SubscribeScatterMsg is h p)"

definition SubscribeContinuousMsg :: "int \<Rightarrow> int \<Rightarrow> 'h \<Rightarrow> 'h ChannelMsgProxy \<Rightarrow> int \<times> 'h ChannelMsgProxy" where
  "SubscribeContinuousMsg fromid endid h p =
     (if list_ex (\<lambda>s. MatchSegment (fst s) fromid \<or> MatchSegment (fst s) endid) (m_vecHandlers p)
      then (-1, p)
      else (0, p\<lparr>m_vecHandlers := m_vecHandlers p @ [((fromid, endid), h)]\<rparr>))"

definition FindHandler :: "int \<Rightarrow> 'h ChannelMsgProxy \<Rightarrow> 'h option" where
  "FindHandler i p =
     (case m_mpHandlerMap p i of
        Some h \<Rightarrow> Some h
      | None \<Rightarrow> map_option snd (find (\<lambda>s. MatchSegment (fst s) i) (m_vecHandlers p)))"

text \<open>\<open>ChannelProxyMessageDispatcher::DispatchMessage\<close>; \<open>handle\<close> is the handler's own method.\<close>

definition Proxy_DispatchMessage ::
  "('h \<Rightarrow> ChannelAgent \<Rightarrow> ChannelMessage \<Rightarrow> 'e \<Rightarrow> 'e) \<Rightarrow> 'h ChannelMsgProxy \<Rightarrow> ChannelAgentMgr
    \<Rightarrow> ChannelMessage \<Rightarrow> 'e \<Rightarrow> int \<times> 'e" where
  "Proxy_DispatchMessage handle p m msg e =
     (case FindHandler (iSrc msg) p of
        None \<Rightarrow> (-1, e)
      | Some h \<Rightarrow>
          (case ChannelAgentMgr_GetChannel (iSrc msg) m of
             None \<Rightarrow> (-1, e)
           | Some a \<Rightarrow> (0, handle h a msg e)))"

section \<open>Setting the channels up\<close>

text \<open>
  The loop of \<open>Init\<close> over the configured channels.  \<open>ret i\<close> is what ZeroMQ answers for the channel
  with identifier \<open>i\<close>, \<open>alloc\<close> and \<open>ctx_ok\<close> whether the send buffer and the context can be made.
\<close>

fun Proxy_Init_channels ::
  "(int \<Rightarrow> zmq_open) \<Rightarrow> string \<Rightarrow> string list \<Rightarrow> ChannelAgentMgr \<Rightarrow> fault + int \<times> ChannelAgentMgr" where
  "Proxy_Init_channels ret channelName [] m = Inr (0, m)"
| "Proxy_Init_channels ret channelName (name # ns) m =
     (case GenerateChannelID m of
        None \<Rightarrow> Inl NoReturn
      | Some (chid, m) \<Rightarrow>
          (case AddChannel (ret chid) chid False channelName m of
             Inl e \<Rightarrow> Inl e
           | Inr (r, m) \<Rightarrow>
               if r \<noteq> 0 then Inr (-1, m)
               else (case SetIDName chid name m of
                       Inl e \<Rightarrow> Inl e
                     | Inr m \<Rightarrow> Proxy_Init_channels ret channelName ns m)))"

definition Proxy_Init ::
  "bool \<Rightarrow> bool \<Rightarrow> (int \<Rightarrow> zmq_open) \<Rightarrow> string \<Rightarrow> string \<Rightarrow> string \<Rightarrow> string list \<Rightarrow> ChannelAgentMgr \<Rightarrow> fault + int \<times> ChannelAgentMgr" where
  "Proxy_Init alloc ctx_ok ret channelName localChannelAddr localChannelName channels m =
     (if \<not> alloc then Inr (-1, m)
      else if localChannelAddr = '''' then Inr (0, m)
      else
        case ChannelAgentMgr_Init ctx_ok (ret 0) channelName m of
          Inl e \<Rightarrow> Inl e
        | Inr (r, m) \<Rightarrow>
            if r \<noteq> 0 then Inr (-1, m)
            else (case SetIDName 0 localChannelName m of
                    Inl e \<Rightarrow> Inl e
                  | Inr m \<Rightarrow> Proxy_Init_channels ret channelName channels m))"

section \<open>Envelopes\<close>

text \<open>An envelope format: what the sender seals, the receiver opens.\<close>

locale envelope_format =
  fixes seal :: "byte list \<Rightarrow> byte list \<Rightarrow> byte list"
    and unseal :: "byte list \<Rightarrow> fault + (byte list \<times> byte list) option"
    and fits :: "byte list \<Rightarrow> bool"
  assumes unseal_seal: "fits h \<Longrightarrow> unseal (seal h d) = Inr (Some (h, d))"
begin

lemma seal_inj: "fits h \<Longrightarrow> fits h' \<Longrightarrow> seal h d = seal h' d' \<Longrightarrow> h = h' \<and> d = d'"
  by (metis Inr_inject option.inject prod.inject unseal_seal)

lemma unseal_stream:
  "\<forall>x\<in>set xs. fits (fst x) \<Longrightarrow> map (\<lambda>x. unseal (seal (fst x) (snd x))) xs = map (Inr \<circ> Some) xs"
  by (induction xs) (simp_all add: unseal_seal)

end

definition seal_message :: "byte list \<Rightarrow> byte list \<Rightarrow> byte list" where
  "seal_message h d = envelope (int (length h)) [h, d]"

lemma open_seal: "length h < 65536 \<Longrightarrow> open_envelope (seal_message h d) = Inr (Some (h, d))"
  by (simp add: open_envelope_def seal_message_def envelope_def unat_u16_of_nat
      PROXY_CHANNEL_MESSAGE_HEAD_SIZE_def)

interpretation proxy_env: envelope_format seal_message open_envelope "\<lambda>h. length h < 65536"
  by unfold_locales (rule open_seal)

lemma SendToAgent_ok:
  assumes "sum_list (map length bs) + 2 < 65536" and "m_mpChannelAgent m dst = Some a"
  shows "SendToAgent ok1 ok2 dst bs hs m =
    (let (r, a) = Channel_Write ok1 ok2 (envelope hs bs) a
     in (r, m\<lparr>m_mpChannelAgent := (m_mpChannelAgent m)(dst \<mapsto> a)\<rparr>))"
  using assms by (simp add: SendToAgent_def PROXY_CHANNEL_MESSAGE_HEAD_SIZE_def
      MAX_CHANNEL_MESSAGE_SIZE_def ChannelAgentMgr_GetChannel_def PostMessage_def Let_def case_prod_beta)

lemma Channel_Write_ok:
  obtains hd a' where "Channel_Write True True x a = (0, a')" and "ca_wire a' = ca_wire a @ [(hd, x)]"
  by (auto simp: Channel_Write_def Let_def)

lemma scatter_other:
  assumes "SubscribeScatterMsg ids h p = Inr p'" and "i \<notin> set ids"
  shows "m_mpHandlerMap p' i = m_mpHandlerMap p i \<and> m_vecHandlers p' = m_vecHandlers p"
  using assms by (induction ids arbitrary: p) (auto simp: SubscribeSingleMsg_def split: if_splits sum.splits)

text \<open>A manager with its listening channel 0 open.\<close>

definition listening :: "ChannelAgentMgr \<Rightarrow> ChannelAgentMgr" where
  "listening m = m\<lparr>m_mpChannelAgent := (m_mpChannelAgent m)(0 \<mapsto> ChannelAgent_new 0 True), zpollitems := [0]\<rparr>"

section \<open>Properties\<close>

text \<open>
  C36.  What a server sends to another is what the other gets: when head and data together stay
  below the limit, the channel exists and the library takes the message, \<open>SendToAgent\<close> answers \<open>0\<close>
  and puts exactly one message on that channel, which the receiver opens into the same head and
  the same data.
\<close>

theorem SendToAgent_open:
  assumes "length h + length d + 2 < 65536" and "m_mpChannelAgent m dst = Some a"
  shows "\<exists>a' hd. SendToAgent True True dst [h, d] (int (length h)) m
      = (0, m\<lparr>m_mpChannelAgent := (m_mpChannelAgent m)(dst \<mapsto> a')\<rparr>)
    \<and> (\<exists>msg. ca_wire a' = ca_wire a @ [(hd, msg)] \<and> open_envelope msg = Inr (Some (h, d)))"
proof -
  have "open_envelope (envelope (int (length h)) [h, d]) = Inr (Some (h, d))"
    using proxy_env.unseal_seal [of h d] assms(1) by (simp add: seal_message_def)
  moreover obtain hd a' where "Channel_Write True True (envelope (int (length h)) [h, d]) a = (0, a')"
    and "ca_wire a' = ca_wire a @ [(hd, envelope (int (length h)) [h, d])]"
    by (rule Channel_Write_ok)
  ultimately show ?thesis
    using assms by (intro exI [of _ a'] exI [of _ hd]) (simp add: SendToAgent_ok)
qed

theorem SendToAgent_open_witness:
  "\<exists>a' hd. SendToAgent True True 1 [[8, 1], [5, 6, 7]] 2 one_channel
      = (0, one_channel\<lparr>m_mpChannelAgent := (m_mpChannelAgent one_channel)(1 \<mapsto> a')\<rparr>)
    \<and> (\<exists>msg. ca_wire a' = [(hd, msg)] \<and> open_envelope msg = Inr (Some ([8, 1], [5, 6, 7])))"
proof -
  have "m_mpChannelAgent one_channel 1 = Some ((ChannelAgent_new 1 False)\<lparr>ca_szIDName := ''agent:1''\<rparr>)"
    by (simp add: one_channel_def)
  from SendToAgent_open [OF _ this, of "[8, 1]" "[5, 6, 7]"] show ?thesis
    by (simp add: ChannelAgent_new_def)
qed

text \<open>
  The check of \<open>SubscribeContinuousMsg\<close> looks at the two ends of the new range only: a range that
  encloses an existing one is accepted, and the messages of the inner range keep going to the
  handler that was there first.
\<close>

lemma SubscribeContinuous_encloses:
  assumes "lo < a" and "a \<le> b" and "b < hi" and "m_mpHandlerMap p = Map.empty"
    and "m_vecHandlers p = [((a, b), h1)]"
  shows "\<exists>p'. SubscribeContinuousMsg lo hi h2 p = (0, p')
    \<and> (\<forall>i. FindHandler i p' = (if a \<le> i \<and> i \<le> b then Some h1
         else if lo \<le> i \<and> i \<le> hi then Some h2 else None))"
  using assms by (auto simp: SubscribeContinuousMsg_def MatchSegment_def FindHandler_def)

lemma SubscribeContinuous_encloses_witness:
  "\<exists>p'. SubscribeContinuousMsg 1 30 False (ChannelMsgProxy_new\<lparr>m_vecHandlers := [((10, 20), True)]\<rparr>) = (0, p')
    \<and> FindHandler 15 p' = Some True \<and> FindHandler 5 p' = Some False"
  using SubscribeContinuous_encloses [of 1 10 20 30
      "ChannelMsgProxy_new\<lparr>m_vecHandlers := [((10, 20), True)]\<rparr>" True False]
  by (fastforce simp: ChannelMsgProxy_new_def)

text \<open>
  C19.  No message between the servers is ever delivered.  The table from sender names to channels is
  never filled, so every message that is read carries the source 0; a proxy whose handlers are
  subscribed to channels other than 0, as all configured channels are, finds no handler for it.
  Polling leaves the process as it was, whatever has arrived.
\<close>

theorem polled_messages_dropped:
  assumes "chan_reach m" and "SubscribeScatterMsg ids h ChannelMsgProxy_new = Inr p" and "0 \<notin> set ids"
    and "Polling split (\<lambda>msg e. snd (Proxy_DispatchMessage handle p m msg e)) n eintr arrived m e = Inr (r, e')"
  shows "e' = e"
proof -
  have "FindHandler 0 p = None"
    using scatter_other [OF assms(2,3)] by (simp add: FindHandler_def ChannelMsgProxy_new_def)
  then have drop: "snd (Proxy_DispatchMessage handle p m msg e) = e"
    if "Channel_Read split m hd d = Inr (k, Some msg)" for msg e hd d k
    using read_source_zero [OF assms(1) that] by (simp add: Proxy_DispatchMessage_def)
  have "Polling_items split (\<lambda>msg e. snd (Proxy_DispatchMessage handle p m msg e)) m items k e = Inr (r, e')
      \<Longrightarrow> e' = e" for items k
    by (induction items arbitrary: k) (auto simp: drop split: option.splits sum.splits prod.splits)
  then show ?thesis using assms(4) by (auto simp: Polling_def split: if_splits)
qed

theorem polled_messages_dropped_witness:
  "Polling bar_split (\<lambda>msg e. snd (Proxy_DispatchMessage (\<lambda>_ _ msg e. pData msg @ e)
      (ChannelMsgProxy_new\<lparr>m_mpHandlerMap := [1 \<mapsto> ()]\<rparr>) (listening one_channel) msg e)) 1 False
      [Some (''gate:1|7'', Some [1, 2])] (listening one_channel) [] = Inr (1, [])"
proof -
  let ?P = "Polling bar_split (\<lambda>msg e. snd (Proxy_DispatchMessage (\<lambda>_ _ msg e. pData msg @ e)
      (ChannelMsgProxy_new\<lparr>m_mpHandlerMap := [1 \<mapsto> ()]\<rparr>) (listening one_channel) msg e)) 1 False
      [Some (''gate:1|7'', Some [1, 2])] (listening one_channel) []"
  have "chan_step (CallInit True (True, 0) ''gate'') one_channel = Some (listening one_channel)"
    by (simp add: chan_step_def ChannelAgentMgr_Init_def AddChannel_def ChannelAgent_Init_def Channel_Create_def
        one_channel_def listening_def ChannelAgentMgr_new_def show_int_def show_nat.simps)
  with one_channel_reach have r: "chan_reach (listening one_channel)" by (rule chan_call)
  have p: "SubscribeScatterMsg [1] () ChannelMsgProxy_new
      = Inr (ChannelMsgProxy_new\<lparr>m_mpHandlerMap := [1 \<mapsto> ()]\<rparr>)"
    by (simp add: SubscribeSingleMsg_def ChannelMsgProxy_new_def)
  obtain e where e: "?P = Inr (1, e)"
    by (simp add: Polling_def Channel_Read_def listening_def bar_split_def Let_def)
  have "e = []" by (rule polled_messages_dropped [OF r p _ e]) simp
  with e show ?thesis by (simp only:)
qed

end
