(* ===== verification/Gate.thy ===== *)
theory Gate
  imports ChannelProxy TimerMgr
begin

text \<open>
  The gate server: \<open>gate/GateServerHandler.cpp\<close>, \<open>gate/GateAgentChannelMsgHandler.cpp\<close> and
  \<open>gate/GateFrame.cpp\<close>.

  The gate accepts clients over TCP, cuts their bytes into frames, authorises them and forwards
  their frames to the agent of their area, and sends what the agents answer back.  A pointer to a
  connection is its index in \<open>m_vecConnections\<close>.  The state contains the channel manager and the
  timer manager it uses and two logs: the bytes handed to client sockets and the sockets closed.
  The record \<open>GateEnv\<close> holds the configuration and what the code gets from outside: protobuf
  encoding and decoding, the results of \<open>TcpSocket::Send\<close>, of memory allocation and of ZeroMQ, and
  the clock.
\<close>

section \<open>Messages\<close>

definition EVENT_CONNECTED :: int where "EVENT_CONNECTED = 1"
definition EVENT_CLOSE :: int where "EVENT_CLOSE = 2"
definition EVENT_DATA :: int where "EVENT_DATA = 3"

definition CONNECTION_CLOSE_BY_DEFAULT :: int where "CONNECTION_CLOSE_BY_DEFAULT = 0"
definition CONNECTION_CLOSE_BY_CLIENT :: int where "CONNECTION_CLOSE_BY_CLIENT = 1"
definition CONNECTION_CLOSE_STOP_SVR :: int where "CONNECTION_CLOSE_STOP_SVR = 2"
definition CONNECTION_CLOSE_EXCEPTION :: int where "CONNECTION_CLOSE_EXCEPTION = 3"
definition CONNECTION_CLOSE_BY_SERVER :: int where "CONNECTION_CLOSE_BY_SERVER = 4"

record GateSSMsg =
  ss_event :: int
  ss_idx :: u32
  ss_uid :: u64
  ss_area :: u32
  ss_ip :: "u32 option"
  ss_port :: "u32 option"
  ss_reason :: "u32 option"

record AuthReq =
  au_uid :: u64
  au_auth :: u32
  au_token :: string
  au_area :: u32

definition AuthReq_default :: AuthReq where
  "AuthReq_default = \<lparr>au_uid = 0, au_auth = 0, au_token = '''', au_area = 0\<rparr>"

definition GATE_NEED_AUTH :: u32 where "GATE_NEED_AUTH = 1"
definition GATE_AUTH_REQ :: u32 where "GATE_AUTH_REQ = 2"
definition GATE_AUTH_RSP :: u32 where "GATE_AUTH_RSP = 3"

record GateCSMsg =
  cs_cmd :: u32
  cs_authreq :: "AuthReq option"
  cs_authrsp :: "u32 option"

section \<open>State\<close>

definition STATE_INVALID :: int where "STATE_INVALID = 0"
definition STATE_CONNECTED :: int where "STATE_CONNECTED = 1"
definition STATE_AUTHING :: int where "STATE_AUTHING = 2"
definition STATE_AUTHORIZED :: int where "STATE_AUTHORIZED = 3"

lemmas gate_state_defs =
  STATE_INVALID_def STATE_CONNECTED_def STATE_AUTHING_def STATE_AUTHORIZED_def

definition MAX_GATE_FRAME_SIZE :: nat where "MAX_GATE_FRAME_SIZE = 65535"
definition CONNECTION_DEFAULT_RECV_BUFF_SIZE :: nat where
  "CONNECTION_DEFAULT_RECV_BUFF_SIZE = MAX_GATE_FRAME_SIZE + 4"

record TcpSocket =
  sk_fd :: int
  sk_ip :: u32
  sk_port :: u32

record Connection =
  cx_iIdx :: int
  cx_cliSocket :: TcpSocket
  cx_pBuffer :: "(nat \<Rightarrow> byte) option"
  cx_iUsed :: int
  cx_iDstChannel :: int
  cx_iMsgLen :: int
  cx_bState :: int
  cx_ulUid :: u64
  cx_sToken :: string
  cx_iArea :: int
  cx_tLastActTime :: int
  cx_dwRecvNum :: u32
  cx_dwSendNum :: u32
  cx_dwLastPeriodRecvNum :: u32
  cx_dwLastPeriodSendNum :: u32
  cx_tLastPeriodTime :: int
  cx_dwCurrentRecvSpeed :: u32
  cx_dwCurrentSendSpeed :: u32
  cx_dwTimerID :: u32
  cx_tLastCheckTime :: int

text \<open>\<open>Init\<close> sets every field but the socket, the buffer and \<open>iArea\<close>.\<close>

definition Connection_Init :: "Connection \<Rightarrow> Connection" where
  "Connection_Init c = c\<lparr>cx_iIdx := -1, cx_iDstChannel := 0, cx_iMsgLen := 0, cx_bState := STATE_INVALID,
     cx_ulUid := 0, cx_iUsed := 0, cx_tLastActTime := 0, cx_sToken := '''', cx_dwRecvNum := 0,
     cx_dwSendNum := 0, cx_dwLastPeriodRecvNum := 0, cx_dwLastPeriodSendNum := 0, cx_tLastPeriodTime := 0,
     cx_dwCurrentRecvSpeed := 0, cx_dwCurrentSendSpeed := 0, cx_dwTimerID := 0, cx_tLastCheckTime := 0\<rparr>"

record GateEnv =
  iTestMode :: int
  iNeedAuth :: int
  mpAreaID2ChannelID :: "u32 \<rightharpoonup> u32"
  iIdleCheckPeriod :: int
  ge_ser_ss :: "GateSSMsg \<Rightarrow> byte list"
  ge_parse_ss :: "byte list \<Rightarrow> GateSSMsg option"
  ge_ser_cs :: "GateCSMsg \<Rightarrow> byte list"
  ge_parse_cs :: "byte list \<Rightarrow> GateCSMsg option"
  ge_send :: "int \<Rightarrow> byte list \<Rightarrow> int"
  ge_alloc :: bool
  ge_post1 :: bool
  ge_post2 :: bool
  ge_now :: int
  ge_stamp :: int
  ge_test_data :: "byte list"

record Gate =
  m_dwLastClosingIdx :: u32
  m_vecConnections :: "Connection list"
  m_mpConnections :: "int \<rightharpoonup> int"
  m_iMaxConnection :: int
  m_iAlivedConnections :: int
  m_closing :: int
  iConnxMaxIdleTime :: u32
  downloadsize :: u64
  uploadsize :: u64
  reqpkgs :: u64
  rsppkgs :: u64
  downpkgs :: u64
  uppkgs :: u64
  g_timers :: "unit TimerMgr"
  g_channels :: ChannelAgentMgr
  g_out :: "(int \<times> byte list) list"
  g_shut :: "int list"

text \<open>The constructor; \<open>junk\<close> is what an unset connection holds where nothing initialises it.\<close>

definition Gate_new :: "GateEnv \<Rightarrow> Connection \<Rightarrow> int \<Rightarrow> unit TimerMgr \<Rightarrow> ChannelAgentMgr \<Rightarrow> Gate" where
  "Gate_new E junk iMaxConnections tm ch = \<lparr>m_dwLastClosingIdx = 0,
     m_vecConnections = replicate (nat iMaxConnections) (Connection_Init (junk\<lparr>cx_pBuffer := None\<rparr>)),
     m_mpConnections = Map.empty, m_iMaxConnection = iMaxConnections, m_iAlivedConnections = 0,
     m_closing = 0, iConnxMaxIdleTime = word_of_int (iIdleCheckPeriod E), downloadsize = 0,
     uploadsize = 0, reqpkgs = 0, rsppkgs = 0, downpkgs = 0, uppkgs = 0, g_timers = tm,
     g_channels = ch, g_out = [], g_shut = []\<rparr>"

definition upd_conn :: "nat \<Rightarrow> (Connection \<Rightarrow> Connection) \<Rightarrow> Gate \<Rightarrow> Gate" where
  "upd_conn i f g = g\<lparr>m_vecConnections := (m_vecConnections g)[i := f (m_vecConnections g ! i)]\<rparr>"

abbreviation conn :: "Gate \<Rightarrow> nat \<Rightarrow> Connection" where
  "conn g i \<equiv> m_vecConnections g ! i"

abbreviation conn_fd :: "Gate \<Rightarrow> nat \<Rightarrow> int" where
  "conn_fd g i \<equiv> sk_fd (cx_cliSocket (conn g i))"

section \<open>Connections\<close>

definition CONNECTION_STAT_PERIOD_TIME :: int where "CONNECTION_STAT_PERIOD_TIME = 5"

definition UpdateStat :: "GateEnv \<Rightarrow> bool \<Rightarrow> Connection \<Rightarrow> Connection" where
  "UpdateStat E recv c =
     (let c = c\<lparr>cx_tLastActTime := ge_now E\<rparr>;
          c = (if recv then c\<lparr>cx_dwRecvNum := cx_dwRecvNum c + 1\<rparr>
               else c\<lparr>cx_dwSendNum := cx_dwSendNum c + 1\<rparr>)
      in if cx_tLastPeriodTime c + CONNECTION_STAT_PERIOD_TIME \<le> cx_tLastActTime c
         then c\<lparr>cx_dwCurrentRecvSpeed := (cx_dwRecvNum c - cx_dwLastPeriodRecvNum c) div 5,
                cx_dwCurrentSendSpeed := (cx_dwSendNum c - cx_dwLastPeriodSendNum c) div 5,
                cx_dwLastPeriodRecvNum := cx_dwRecvNum c,
                cx_dwLastPeriodSendNum := cx_dwSendNum c,
                cx_tLastPeriodTime := cx_tLastActTime c\<rparr>
         else c)"

definition Connection_Close :: "nat \<Rightarrow> Gate \<Rightarrow> Gate" where
  "Connection_Close i g =
     (let c = conn g i;
          g = (if cx_bState c \<in> {STATE_CONNECTED, STATE_AUTHING, STATE_AUTHORIZED}
               then g\<lparr>g_shut := g_shut g @ [sk_fd (cx_cliSocket c)]\<rparr> else g)
      in upd_conn i (\<lambda>c. c\<lparr>cx_bState := STATE_INVALID, cx_iIdx := -1\<rparr>) g)"

definition GetConnectionByIdx :: "int \<Rightarrow> Gate \<Rightarrow> nat option" where
  "GetConnectionByIdx idx g =
     (if idx \<le> 0 \<or> idx \<ge> int (length (m_vecConnections g)) then None
      else if cx_bState (conn g (nat idx)) = STATE_INVALID then None
      else Some (nat idx))"

definition GetConnectionByFD :: "int \<Rightarrow> Gate \<Rightarrow> nat option" where
  "GetConnectionByFD fd g =
     (case m_mpConnections g fd of Some idx \<Rightarrow> GetConnectionByIdx idx g | None \<Rightarrow> None)"

definition GetNextIdx :: "Gate \<Rightarrow> int" where
  "GetNextIdx g =
     (if m_iAlivedConnections g \<ge> m_iMaxConnection g then -1
      else case find_idx (\<lambda>c. cx_bState c = 0) (drop 1 (m_vecConnections g)) of
             Some k \<Rightarrow> int k + 1
           | None \<Rightarrow> -1)"

section \<open>Sending\<close>

text \<open>\<open>ReportEvent\<close>: \<open>m_mpConnections[fd]\<close> enters 0 for an unknown descriptor.\<close>

definition ReportEvent :: "GateEnv \<Rightarrow> nat \<Rightarrow> int \<Rightarrow> int \<Rightarrow> byte list option \<Rightarrow> Gate \<Rightarrow> fault + Gate" where
  "ReportEvent E i iEvent iParam data g =
     (let c = conn g i;
          fd = sk_fd (cx_cliSocket c);
          idx = (case m_mpConnections g fd of Some x \<Rightarrow> x | None \<Rightarrow> 0);
          g = g\<lparr>m_mpConnections := (m_mpConnections g)(fd \<mapsto> idx)\<rparr>;
          gc = \<lparr>ss_event = iEvent, ss_idx = word_of_int idx, ss_uid = cx_ulUid c,
                ss_area = word_of_int (cx_iArea c), ss_ip = None, ss_port = None, ss_reason = None\<rparr>
      in if iEvent \<notin> {EVENT_CONNECTED, EVENT_CLOSE, EVENT_DATA} then Inl AssertFail
         else
           let gc = (if iEvent = EVENT_CONNECTED
                     then gc\<lparr>ss_ip := Some (sk_ip (cx_cliSocket c)), ss_port := Some (sk_port (cx_cliSocket c))\<rparr>
                     else if iEvent = EVENT_CLOSE then gc\<lparr>ss_reason := Some (word_of_int iParam)\<rparr>
                     else gc);
               head = ge_ser_ss E gc;
               (_, ch) = SendToAgent (ge_post1 E) (ge_post2 E) (cx_iDstChannel c)
                           (case data of Some d \<Rightarrow> [head, d] | None \<Rightarrow> [head]) (int (length head)) (g_channels g)
           in Inr (g\<lparr>g_channels := ch\<rparr>))"

text \<open>A \<open>GateFrame\<close> made from a buffer keeps the length in 16 bits.\<close>

definition GateFrame :: "byte list \<Rightarrow> byte list" where
  "GateFrame bs = take (unat (of_nat (length bs) :: u16)) bs"

definition SendFrameToClient :: "GateEnv \<Rightarrow> nat \<Rightarrow> byte list \<Rightarrow> Gate \<Rightarrow> int \<times> Gate" where
  "SendFrameToClient E i frame g =
     (let g = upd_conn i (UpdateStat E False) g;
          fd = conn_fd g i;
          wMsgLen = put_be16 (of_nat (length frame))
      in if ge_send E fd wMsgLen \<noteq> 0 then (-1, g)
         else
           let g = g\<lparr>g_out := g_out g @ [(fd, wMsgLen)],
                     downloadsize := downloadsize g + of_nat (length frame)\<rparr>;
               r = ge_send E fd frame
           in (r, if r = 0 then g\<lparr>g_out := g_out g @ [(fd, frame)]\<rparr> else g))"

definition SendToClient :: "GateEnv \<Rightarrow> nat \<Rightarrow> GateCSMsg \<Rightarrow> Gate \<Rightarrow> fault + int \<times> Gate" where
  "SendToClient E i ga g =
     (let buf = ge_ser_cs E ga
      in if \<not> length buf < MAX_GATE_FRAME_SIZE then Inl AssertFail
         else if \<not> ge_alloc E then Inr (-1, g)
         else Inr (SendFrameToClient E i (GateFrame buf) g))"

definition NotifyNeedAuth :: "GateEnv \<Rightarrow> nat \<Rightarrow> Gate \<Rightarrow> fault + int \<times> Gate" where
  "NotifyNeedAuth E i g =
     SendToClient E i \<lparr>cs_cmd = GATE_NEED_AUTH, cs_authreq = None, cs_authrsp = None\<rparr> g"

definition NotifyAuthResult :: "GateEnv \<Rightarrow> nat \<Rightarrow> int \<Rightarrow> Gate \<Rightarrow> fault + int \<times> Gate" where
  "NotifyAuthResult E i result g =
     SendToClient E i \<lparr>cs_cmd = GATE_AUTH_RSP, cs_authreq = None, cs_authrsp = Some (word_of_int result)\<rparr> g"

definition ForwardData :: "GateEnv \<Rightarrow> nat \<Rightarrow> byte list \<Rightarrow> Gate \<Rightarrow> fault + Gate" where
  "ForwardData E i buffer g =
     (let g = g\<lparr>reqpkgs := reqpkgs g + 1\<rparr>
      in case ReportEvent E i EVENT_DATA 0 (Some buffer) g of
           Inl e \<Rightarrow> Inl e
         | Inr g \<Rightarrow>
             if iTestMode E \<noteq> 0
             then Inr (snd (SendFrameToClient E i (GateFrame (ge_test_data E)) g))
             else Inr g)"

definition RemoveConnection :: "GateEnv \<Rightarrow> nat \<Rightarrow> int \<Rightarrow> Gate \<Rightarrow> fault + Gate" where
  "RemoveConnection E i iReason g =
     (let g = g\<lparr>m_mpConnections := (m_mpConnections g)(conn_fd g i := None)\<rparr>
      in case ReportEvent E i EVENT_CLOSE iReason None g of
           Inl e \<Rightarrow> Inl e
         | Inr g \<Rightarrow>
             let g = g\<lparr>g_timers := CancelTimer (cx_dwTimerID (conn g i)) (g_timers g)\<rparr>
             in Inr (Connection_Close i g))"

section \<open>Authorisation and client messages\<close>

definition Authorizing :: "GateEnv \<Rightarrow> nat \<Rightarrow> AuthReq \<Rightarrow> Gate \<Rightarrow> int \<times> Gate" where
  "Authorizing E i auth g =
     (case mpAreaID2ChannelID E (au_area auth) of
        None \<Rightarrow> (-1, g)
      | Some ch \<Rightarrow>
          let g = upd_conn i (\<lambda>c. c\<lparr>cx_iArea := sint (au_area auth), cx_iDstChannel := sint ch,
                    cx_ulUid := au_uid auth, cx_sToken := au_token auth, cx_tLastActTime := ge_stamp E\<rparr>) g
          in if iNeedAuth E \<noteq> 0 then (1, g) else (0, g))"

definition OnClientMessage :: "GateEnv \<Rightarrow> nat \<Rightarrow> byte list \<Rightarrow> Gate \<Rightarrow> fault + int \<times> Gate" where
  "OnClientMessage E i msg g =
     (let g = g\<lparr>uppkgs := uppkgs g + 1\<rparr>;
          g = upd_conn i (UpdateStat E True) g;
          st = cx_bState (conn g i)
      in if st = STATE_CONNECTED then
           (case ge_parse_cs E msg of
              None \<Rightarrow> Inr (-1, g)
            | Some ga \<Rightarrow>
                (case Authorizing E i (case cs_authreq ga of Some a \<Rightarrow> a | None \<Rightarrow> AuthReq_default) g of
                   (iRet, g) \<Rightarrow>
                     if iRet = 0 then
                       (case NotifyAuthResult E i iRet g of
                          Inl e \<Rightarrow> Inl e
                        | Inr (_, g) \<Rightarrow>
                            (case ReportEvent E i EVENT_CONNECTED 0 None
                                    (upd_conn i (\<lambda>c. c\<lparr>cx_bState := STATE_AUTHORIZED\<rparr>) g) of
                               Inl e \<Rightarrow> Inl e | Inr g \<Rightarrow> Inr (0, g)))
                     else if iRet > 0 then Inr (0, upd_conn i (\<lambda>c. c\<lparr>cx_bState := STATE_AUTHING\<rparr>) g)
                     else (case RemoveConnection E i CONNECTION_CLOSE_EXCEPTION g of
                             Inl e \<Rightarrow> Inl e | Inr g \<Rightarrow> Inr (-1, g))))
         else if st = STATE_AUTHING then Inr (0, g)
         else if st = STATE_AUTHORIZED then
           (case ForwardData E i msg g of Inl e \<Rightarrow> Inl e | Inr g \<Rightarrow> Inr (0, g))
         else (case RemoveConnection E i CONNECTION_CLOSE_EXCEPTION g of
                 Inl e \<Rightarrow> Inl e | Inr g \<Rightarrow> Inr (-1, g)))"

section \<open>Events of the TCP server\<close>

text \<open>
  \<open>OnNewConnection\<close> in three steps: choosing a slot, making sure of its receive buffer, and opening
  the connection in it.  The contents of a buffer just created are never read.
\<close>

definition OnNewConnection_open :: "GateEnv \<Rightarrow> TcpSocket \<Rightarrow> nat \<Rightarrow> Gate \<Rightarrow> fault + int \<times> Gate" where
  "OnNewConnection_open E client i g =
     (let g = upd_conn i (\<lambda>c. (Connection_Init c)\<lparr>cx_bState := STATE_CONNECTED, cx_cliSocket := client\<rparr>) g
      in case NotifyNeedAuth E i g of
           Inl e \<Rightarrow> Inl e
         | Inr (r, g) \<Rightarrow>
             if r \<noteq> 0 then Inr (-1, Connection_Close i g)
             else
               let g = upd_conn i (\<lambda>c. c\<lparr>cx_iIdx := int i\<rparr>) g;
                   g = g\<lparr>m_mpConnections := (m_mpConnections g)(sk_fd client \<mapsto> int i)\<rparr>
               in if iConnxMaxIdleTime g > 0 then
                    (case AddTimer (sint (iConnxMaxIdleTime g * 1000)) (int i) (Some ()) 0 (g_timers g) of
                       None \<Rightarrow> Inl NoReturn
                     | Some (tid, tm) \<Rightarrow>
                         Inr (0, upd_conn i (\<lambda>c. c\<lparr>cx_dwTimerID := tid\<rparr>) (g\<lparr>g_timers := tm\<rparr>)))
                  else Inr (0, g))"

definition OnNewConnection_at :: "GateEnv \<Rightarrow> TcpSocket \<Rightarrow> nat \<Rightarrow> Gate \<Rightarrow> fault + int \<times> Gate" where
  "OnNewConnection_at E client i g =
     (if cx_pBuffer (conn g i) = None \<and> \<not> ge_alloc E
      then Inr (-1, g\<lparr>g_shut := g_shut g @ [sk_fd client]\<rparr>)
      else
        let g = (if cx_pBuffer (conn g i) = None
                 then upd_conn i (\<lambda>c. c\<lparr>cx_pBuffer := Some (\<lambda>_. 0)\<rparr>) g else g)
        in if m_closing g \<noteq> 0 then Inr (-1, g\<lparr>g_shut := g_shut g @ [sk_fd client]\<rparr>)
           else OnNewConnection_open E client i g)"

definition OnNewConnection :: "GateEnv \<Rightarrow> TcpSocket \<Rightarrow> Gate \<Rightarrow> fault + int \<times> Gate" where
  "OnNewConnection E client g =
     (let g = g\<lparr>m_iAlivedConnections := m_iAlivedConnections g + 1\<rparr>;
          iIdx = GetNextIdx g
      in if iIdx < 0 \<or> iIdx \<ge> int (length (m_vecConnections g)) then Inl OutOfBounds
         else OnNewConnection_at E client (nat iIdx) g)"

text \<open>\<open>memcpy\<close> into the receive buffer of a connection.\<close>

definition buf_write :: "int \<Rightarrow> byte list \<Rightarrow> Connection \<Rightarrow> fault + Connection" where
  "buf_write off bs c =
     (case cx_pBuffer c of
        None \<Rightarrow> Inl NullDeref
      | Some b \<Rightarrow>
          if off < 0 \<or> off + int (length bs) > int CONNECTION_DEFAULT_RECV_BUFF_SIZE then Inl OutOfBounds
          else Inr (c\<lparr>cx_pBuffer := Some (\<lambda>k. if nat off \<le> k \<and> k < nat off + length bs
                                              then bs ! (k - nat off) else b k)\<rparr>))"

definition buf_read :: "nat \<Rightarrow> Connection \<Rightarrow> byte list" where
  "buf_read n c = (case cx_pBuffer c of None \<Rightarrow> [] | Some b \<Rightarrow> map b [0..<n])"

text \<open>\<open>memcpy(dst + off, src + from, n)\<close> with a source of known length.\<close>

definition src_slice :: "int \<Rightarrow> int \<Rightarrow> byte list \<Rightarrow> fault + byte list" where
  "src_slice from n src =
     (if from < 0 \<or> n < 0 \<or> from + n > int (length src) then Inl OutOfBounds
      else Inr (take (nat n) (drop (nat from) src)))"

text \<open>
  The first part of \<open>OnClientDataRecv\<close>: take the two bytes of the length when no message is under
  way.  The result is the early return code, or the connection and the offset to go on with.
\<close>

datatype prefix_result = PrefixReturn int Connection | PrefixGo Connection int

definition recv_prefix :: "byte list \<Rightarrow> Connection \<Rightarrow> fault + prefix_result" where
  "recv_prefix data c =
     (if cx_iMsgLen c \<noteq> 0 then Inr (PrefixGo c 0)
      else if cx_iUsed c \<ge> 2 then Inr (PrefixReturn (-1) c)
      else if cx_iUsed c + int (length data) \<ge> 2 then
        let off = 2 - cx_iUsed c
        in case src_slice 0 off data of
             Inl e \<Rightarrow> Inl e
           | Inr bs \<Rightarrow>
               (case buf_write (cx_iUsed c) bs c of
                  Inl e \<Rightarrow> Inl e
                | Inr c \<Rightarrow>
                    let c = c\<lparr>cx_iMsgLen := int (unat (get_be16 (buf_read 2 c))), cx_iUsed := 0\<rparr>
                    in if cx_iMsgLen c = 0 then Inr (PrefixReturn 0 c) else Inr (PrefixGo c off))
      else
        (case buf_write (cx_iUsed c) data c of
           Inl e \<Rightarrow> Inl e
         | Inr c \<Rightarrow> Inr (PrefixReturn 0 c)))"

partial_function (option) OnClientDataRecv ::
  "GateEnv \<Rightarrow> int \<Rightarrow> byte list \<Rightarrow> Gate \<Rightarrow> (fault + int \<times> Gate) option" where
  "OnClientDataRecv E fd data g =
     (case GetConnectionByFD fd g of
        None \<Rightarrow> Some (Inr (-1, g\<lparr>g_shut := g_shut g @ [fd]\<rparr>))
      | Some i \<Rightarrow>
          let g = g\<lparr>uploadsize := uploadsize g + of_nat (length data)\<rparr>
          in case recv_prefix data (conn g i) of
               Inl e \<Rightarrow> Some (Inl e)
             | Inr (PrefixReturn r c) \<Rightarrow>
                 let g = upd_conn i (\<lambda>_. c) g
                 in Some (Inr (r, if r = -1 then Connection_Close i g else g))
             | Inr (PrefixGo c off) \<Rightarrow>
                 if int (length data) + cx_iUsed c - off \<ge> cx_iMsgLen c then
                   (case src_slice off (cx_iMsgLen c - cx_iUsed c) data of
                      Inl e \<Rightarrow> Some (Inl e)
                    | Inr bs \<Rightarrow>
                        (case buf_write (cx_iUsed c) bs c of
                           Inl e \<Rightarrow> Some (Inl e)
                         | Inr c \<Rightarrow>
                             let off = off + (cx_iMsgLen c - cx_iUsed c)
                             in case OnClientMessage E i (buf_read (nat (cx_iMsgLen c)) c) (upd_conn i (\<lambda>_. c) g) of
                                  Inl e \<Rightarrow> Some (Inl e)
                                | Inr (iMsgRet, g) \<Rightarrow>
                                    let iRet = (if iMsgRet \<noteq> 0 then 1 else 0);
                                        g = upd_conn i (\<lambda>c. c\<lparr>cx_iMsgLen := 0, cx_iUsed := 0\<rparr>) g
                                    in if int (length data) \<le> off then Some (Inr (iRet, g))
                                       else Option.bind (OnClientDataRecv E fd (drop (nat off) data) g)
                                              (\<lambda>r. Some (case r of Inl e \<Rightarrow> Inl e | Inr (r, g) \<Rightarrow> Inr (iRet + r, g)))))
                 else Some (Inr (0, upd_conn i (\<lambda>_. c) g)))"

definition OnConnectionClosed :: "GateEnv \<Rightarrow> int \<Rightarrow> Gate \<Rightarrow> fault + int \<times> Gate" where
  "OnConnectionClosed E fd g =
     (let g = g\<lparr>m_iAlivedConnections := m_iAlivedConnections g - 1\<rparr>
      in case GetConnectionByFD fd g of
           None \<Rightarrow> Inr (-1, g)
         | Some i \<Rightarrow>
             (case RemoveConnection E i CONNECTION_CLOSE_BY_CLIENT g of
                Inl e \<Rightarrow> Inl e | Inr g \<Rightarrow> Inr (0, g)))"

section \<open>Closing, idle check, messages of the agents\<close>

fun OnClosing_loop :: "GateEnv \<Rightarrow> int \<Rightarrow> nat \<Rightarrow> Gate \<Rightarrow> fault + Gate" where
  "OnClosing_loop E reason 0 g = Inr g"
| "OnClosing_loop E reason (Suc n) g =
     (if unat (m_dwLastClosingIdx g) < length (m_vecConnections g) then
        (case (case GetConnectionByIdx (sint (m_dwLastClosingIdx g)) g of
                 None \<Rightarrow> Inr g | Some i \<Rightarrow> RemoveConnection E i reason g) of
           Inl e \<Rightarrow> Inl e
         | Inr g \<Rightarrow> OnClosing_loop E reason n (g\<lparr>m_dwLastClosingIdx := m_dwLastClosingIdx g + 1\<rparr>))
      else Inr g)"

definition OnClosing :: "GateEnv \<Rightarrow> int \<Rightarrow> int \<Rightarrow> Gate \<Rightarrow> fault + int \<times> Gate" where
  "OnClosing E reason notifinum g =
     (let g = (if m_closing g = 0 then g\<lparr>m_closing := reason\<rparr> else g)
      in case OnClosing_loop E reason (nat notifinum) g of
           Inl e \<Rightarrow> Inl e
         | Inr g \<Rightarrow> Inr (if unat (m_dwLastClosingIdx g) < length (m_vecConnections g) then 0 else 1, g))"

definition CheckConnxFree :: "GateEnv \<Rightarrow> int \<Rightarrow> Gate \<Rightarrow> fault + Gate" where
  "CheckConnxFree E cnnxidx g =
     (case GetConnectionByIdx cnnxidx g of
        None \<Rightarrow> Inr g
      | Some i \<Rightarrow>
          if cx_tLastActTime (conn g i) + iIdleCheckPeriod E < ge_now E
          then RemoveConnection E i CONNECTION_CLOSE_BY_DEFAULT g
          else if cx_tLastCheckTime (conn g i) + iIdleCheckPeriod E \<le> ge_now E then
            (case AddTimer (sint (iConnxMaxIdleTime g * 1000)) cnnxidx (Some ()) 0 (g_timers g) of
               None \<Rightarrow> Inl NoReturn
             | Some (tid, tm) \<Rightarrow>
                 Inr (upd_conn i (\<lambda>c. c\<lparr>cx_dwTimerID := tid, cx_tLastCheckTime := ge_now E\<rparr>) (g\<lparr>g_timers := tm\<rparr>)))
          else Inr g)"

definition Agent_DispatchMessage :: "GateEnv \<Rightarrow> byte list \<Rightarrow> Gate \<Rightarrow> fault + int \<times> Gate" where
  "Agent_DispatchMessage E data g =
     (case open_envelope data of
        Inl e \<Rightarrow> Inl e
      | Inr None \<Rightarrow> Inr (-1, g)
      | Inr (Some (head, csmsg)) \<Rightarrow>
          (case ge_parse_ss E head of
             None \<Rightarrow> Inr (-1, g)
           | Some ggc \<Rightarrow>
               (case GetConnectionByIdx (sint (ss_idx ggc)) g of
                  None \<Rightarrow> Inr (-1, g)
                | Some i \<Rightarrow>
                    if ss_event ggc = EVENT_CLOSE then
                      (case RemoveConnection E i (case ss_reason ggc of Some r \<Rightarrow> sint r | None \<Rightarrow> 0) g of
                         Inl e \<Rightarrow> Inl e | Inr g \<Rightarrow> Inr (0, g))
                    else if ss_event ggc = EVENT_DATA then
                      let g = g\<lparr>downpkgs := downpkgs g + 1, rsppkgs := rsppkgs g + 1\<rparr>
                      in Inr (0, snd (SendFrameToClient E i (GateFrame csmsg) g))
                    else Inr (-1, g))))"

end
