(* ===== verification/DataCommon.thy ===== *)
theory DataCommon
  imports Prelude
begin

text \<open>
  What the database agent and the cache agent share (\<open>datacenter/DataCommon.h\<close> and
  \<open>DataListener.h\<close>): the result codes and the calls of a listener.
\<close>

definition DATA_TIME_OUT :: int where "DATA_TIME_OUT = -1"
definition DATA_OK :: int where "DATA_OK = 0"
definition DATA_NO_EXISTS :: int where "DATA_NO_EXISTS = 1"
definition DATA_ALREADY_EXISTS :: int where "DATA_ALREADY_EXISTS = 2"
definition DATA_UNPACK_ERROR :: int where "DATA_UNPACK_ERROR = 3"
definition DATA_INTERNAL_ERR :: int where "DATA_INTERNAL_ERR = 4"
definition DATA_REDIS_ERR_START :: int where "DATA_REDIS_ERR_START = 1000"
definition DATA_MYSQL_ERR_START :: int where "DATA_MYSQL_ERR_START = 2000"

lemmas data_codes = DATA_TIME_OUT_def DATA_OK_def DATA_NO_EXISTS_def DATA_ALREADY_EXISTS_def
  DATA_UNPACK_ERROR_def DATA_INTERNAL_ERR_def DATA_REDIS_ERR_START_def DATA_MYSQL_ERR_START_def

datatype ('l, 'o) listener_call =
    OnGet 'l int "'o option" "byte list"
  | OnUpdate 'l int "byte list"
  | OnInsert 'l int "byte list"
  | OnRemove 'l int "byte list"
  | OnCreateTable 'l string int

end
