(* ===== verification/Session.thy ===== *)
theory Session
  imports Player Gate DataCommon
begin

text \<open>
  The sessions of the zone server: \<open>rgtd/zone/account/Session.cpp\<close>,
  \<open>rgtd/zone/account/SessionMgr.cpp\<close>, \<open>rgtd/zone/account/LoginLogic.cpp\<close> and
  \<open>rgtd/zone/DBProxy.cpp\<close>.

  Sessions and players are held by shared pointers, from the session table and from suspended
  coroutines: a pointer is an address into a store of objects, so that a session that has left the
  table lives on in a coroutine that still uses it.  The bodies of the coroutines \<open>Login\<close> and
  \<open>Logout\<close> are cut at the points where they yield to wait for the database; what is left to do is
  a \<open>login_co\<close> value, and the answer of the database resumes it.  The coroutine library, protobuf,
  the database agent and ZeroMQ are fields of \<open>ZoneEnv\<close>.  A role from the database is a value, not
  a reference into the agent's cache.
\<close>

section \<open>State\<close>

definition PLAYER_STATE_INIT :: int where "PLAYER_STATE_INIT = 0"
definition PLAYER_STATE_LOADING :: int where "PLAYER_STATE_LOADING = 1"
definition PLAYER_STATE_CREATING :: int where "PLAYER_STATE_CREATING = 2"
definition PLAYER_STATE_PLAYING :: int where "PLAYER_STATE_PLAYING = 3"
definition PLAYER_STATE_OFFLINE :: int where "PLAYER_STATE_OFFLINE = 4"
definition PLAYER_STATE_KICKING :: int where "PLAYER_STATE_KICKING = 10"

lemmas player_state_defs = PLAYER_STATE_INIT_def PLAYER_STATE_LOADING_def PLAYER_STATE_CREATING_def
  PLAYER_STATE_PLAYING_def PLAYER_STATE_OFFLINE_def PLAYER_STATE_KICKING_def

definition ROLE_DB_GET_LOGIN :: int where "ROLE_DB_GET_LOGIN = 1"
definition ROLE_DB_UPDATE_LOGOUT :: int where "ROLE_DB_UPDATE_LOGOUT = 2"

text \<open>\<open>se_mgr\<close> is the zone whose session manager the session belongs to.\<close>

record Session =
  se_uid :: u64
  se_accountid :: u64
  se_area :: u32
  se_gate :: u32
  se_idx :: int
  se_port :: int
  se_state :: int
  se_player :: "nat option"
  se_mgr :: u32

datatype login_co =
    CoRunning
  | CoGetRole nat
  | CoInsertRole nat
  | CoUpdateRole nat int

datatype db_request =
    DbGet u64 int
  | DbInsert u64 "Role option" int
  | DbUpdate u64 "Role option" int int

record ZoneMgr =
  m_mpZoneAgent :: "u32 \<rightharpoonup> (u64 \<rightharpoonup> nat option)"
  zm_sessions :: "nat \<rightharpoonup> Session"
  zm_players :: "nat \<rightharpoonup> PlayerAgent"
  zm_next :: nat
  zm_cos :: "int \<rightharpoonup> login_co"
  zm_ec :: "(unit, nat) EventCenter"
  zm_channels :: ChannelAgentMgr
  zm_requests :: "db_request list"

text \<open>
  \<open>ze_new\<close> is the identifier the coroutine library gives to a new coroutine when the given ones
  exist, \<open>ze_resume\<close> the result of \<open>Resume\<close>; \<open>ze_find\<close> looks a role up in the cache of the database
  agent, and \<open>ze_get\<close>, \<open>ze_insert\<close>, \<open>ze_update\<close> are the results of handing it a request;
  \<open>ze_notify\<close> notifies a player of an event.
\<close>

record 'm ZoneEnv =
  ze_new :: "(int \<rightharpoonup> login_co) \<Rightarrow> int"
  ze_resume :: int
  ze_find :: "u64 \<Rightarrow> Role option"
  ze_get :: int
  ze_insert :: int
  ze_update :: int
  ze_ser_ss :: "GateSSMsg \<Rightarrow> byte list"
  ze_parse_ss :: "byte list \<Rightarrow> GateSSMsg option"
  ze_ser_cs :: "'m \<Rightarrow> byte list"
  ze_parse_cs :: "byte list \<Rightarrow> 'm option"
  ze_post1 :: bool
  ze_post2 :: bool
  ze_notify :: "(unit, nat, ZoneMgr) notifier"

definition upd_session :: "nat \<Rightarrow> (Session \<Rightarrow> Session) \<Rightarrow> ZoneMgr \<Rightarrow> fault + ZoneMgr" where
  "upd_session a f zm =
     (case zm_sessions zm a of
        None \<Rightarrow> Inl NullDeref
      | Some s \<Rightarrow> Inr (zm\<lparr>zm_sessions := (zm_sessions zm)(a \<mapsto> f s)\<rparr>))"

definition SetState :: "nat \<Rightarrow> int \<Rightarrow> ZoneMgr \<Rightarrow> fault + ZoneMgr" where
  "SetState a st = upd_session a (\<lambda>s. s\<lparr>se_state := st\<rparr>)"

definition get_session :: "nat \<Rightarrow> ZoneMgr \<Rightarrow> fault + Session" where
  "get_session a zm = (case zm_sessions zm a of None \<Rightarrow> Inl NullDeref | Some s \<Rightarrow> Inr s)"

section \<open>Role identifiers and the lookup of an online player\<close>

definition GetRoleID :: "u64 \<Rightarrow> u32 \<Rightarrow> u64" where
  "GetRoleID uid area = push_bit 32 (ucast (area AND 0xFFFF)) OR (uid AND 0xFFFFFFFF)"

definition GetUidFromRoleID :: "u64 \<Rightarrow> u32" where
  "GetUidFromRoleID rid = ucast (rid AND 0xFFFFFFFF)"

definition GetAreaFromRoleID :: "u64 \<Rightarrow> u16" where
  "GetAreaFromRoleID rid = ucast (drop_bit 32 rid AND 0xFFFF)"

definition GetZoneIDFromArea :: "u32 \<Rightarrow> u16" where
  "GetZoneIDFromArea area = ucast area"

definition GetAgent :: "u32 \<Rightarrow> ZoneMgr \<Rightarrow> (u64 \<rightharpoonup> nat option) option" where
  "GetAgent dwZoneID zm = m_mpZoneAgent zm dwZoneID"

definition GetZoneAgentByArea :: "u32 \<Rightarrow> ZoneMgr \<Rightarrow> (u64 \<rightharpoonup> nat option) option" where
  "GetZoneAgentByArea area zm = GetAgent (ucast (GetZoneIDFromArea area)) zm"

text \<open>\<open>FindSession\<close>: a null pointer under the key and no entry are the same to the caller.\<close>

definition FindSession :: "(u64 \<rightharpoonup> nat option) \<Rightarrow> u64 \<Rightarrow> nat option" where
  "FindSession m uid = (case m uid of Some p \<Rightarrow> p | None \<Rightarrow> None)"

definition GetZonePlayerAgentPtr :: "ZoneMgr \<Rightarrow> u64 \<Rightarrow> nat option" where
  "GetZonePlayerAgentPtr zm uid =
     (case GetZoneAgentByArea (ucast (GetAreaFromRoleID uid)) zm of
        None \<Rightarrow> None
      | Some m \<Rightarrow>
          (case FindSession m uid of
             None \<Rightarrow> None
           | Some a \<Rightarrow> (case zm_sessions zm a of None \<Rightarrow> None | Some s \<Rightarrow> se_player s)))"

section \<open>Players of a session\<close>

text \<open>\<open>PlayerAgent::Attach\<close> and \<open>Detach\<close> visit the logic parts; only the periodic save has handlers.\<close>

definition logic_OnAttach ::
  "'m ZoneEnv \<Rightarrow> PlayerLogic \<Rightarrow> PlayerAgent \<times> (unit, nat) EventCenter \<times> ZoneMgr
    \<Rightarrow> (PlayerAgent \<times> (unit, nat) EventCenter \<times> ZoneMgr) option" where
  "logic_OnAttach E l s =
     (case l of
        PL_AutoSync \<Rightarrow>
          (case (s, PlayerAgent_GetUID (fst s)) of
             ((p, ece), Inr uid) \<Rightarrow> AutoSync_OnAttach () GetZonePlayerAgentPtr (ze_notify E) uid p ece
           | _ \<Rightarrow> None)
      | _ \<Rightarrow> Some s)"

definition PlayerAgent_Attach :: "'m ZoneEnv \<Rightarrow> nat \<Rightarrow> ZoneMgr \<Rightarrow> fault + ZoneMgr" where
  "PlayerAgent_Attach E pa zm =
     (case zm_players zm pa of
        None \<Rightarrow> Inl NullDeref
      | Some p \<Rightarrow>
          if pRoleData p = None then Inl NullDeref
          else
            (case visit_all (logic_OnAttach E) (ptrLogic p) (p, zm_ec zm, zm) of
               None \<Rightarrow> Inl NoReturn
             | Some (p, ec, zm) \<Rightarrow> Inr (zm\<lparr>zm_players := (zm_players zm)(pa \<mapsto> p), zm_ec := ec\<rparr>)))"

definition logic_OnDetach ::
  "PlayerLogic \<Rightarrow> PlayerAgent \<times> (unit, nat) EventCenter \<Rightarrow> (PlayerAgent \<times> (unit, nat) EventCenter) option" where
  "logic_OnDetach l s = (case l of PL_AutoSync \<Rightarrow> Some (fst s, AutoSync_OnDetach (fst s) (snd s)) | _ \<Rightarrow> Some s)"

definition PlayerAgent_Detach :: "nat \<Rightarrow> ZoneMgr \<Rightarrow> fault + ZoneMgr" where
  "PlayerAgent_Detach pa zm =
     (case zm_players zm pa of
        None \<Rightarrow> Inl NullDeref
      | Some p \<Rightarrow>
          (case visit_all logic_OnDetach (ptrLogic p) (p, zm_ec zm) of
             None \<Rightarrow> Inl NoReturn
           | Some (p, ec) \<Rightarrow> Inr (zm\<lparr>zm_ec := ec\<rparr>)))"

text \<open>\<open>new PlayerAgent\<close>: the address and the state with it.\<close>

definition new_player :: "PlayerAgent \<Rightarrow> ZoneMgr \<Rightarrow> nat \<times> ZoneMgr" where
  "new_player p zm =
     (zm_next zm, zm\<lparr>zm_players := (zm_players zm)(zm_next zm \<mapsto> p), zm_next := zm_next zm + 1\<rparr>)"

definition AttachPlayerAgent :: "'m ZoneEnv \<Rightarrow> nat \<Rightarrow> nat \<Rightarrow> ZoneMgr \<Rightarrow> fault + ZoneMgr" where
  "AttachPlayerAgent E a pa zm =
     bindE (upd_session a (\<lambda>s. s\<lparr>se_player := Some pa\<rparr>) zm) (PlayerAgent_Attach E pa)"

section \<open>Answers to the client\<close>

definition Session_ResponseClient ::
  "'m ZoneEnv \<Rightarrow> nat \<Rightarrow> int \<Rightarrow> int \<Rightarrow> byte list option \<Rightarrow> ZoneMgr \<Rightarrow> fault + int \<times> ZoneMgr" where
  "Session_ResponseClient E a iEvent iParam data zm =
     bindE (get_session a zm) (\<lambda>s.
       let gc = \<lparr>ss_event = iEvent, ss_idx = word_of_int (se_idx s), ss_uid = se_accountid s,
                 ss_area = se_area s, ss_ip = None, ss_port = None, ss_reason = None\<rparr>
       in if iEvent \<notin> {EVENT_CONNECTED, EVENT_CLOSE, EVENT_DATA} then Inl AssertFail
          else
            let gc = (if iEvent = EVENT_CLOSE then gc\<lparr>ss_reason := Some (word_of_int iParam)\<rparr> else gc);
                head = ze_ser_ss E gc;
                (ret, ch) = SendToAgent (ze_post1 E) (ze_post2 E) (sint (se_gate s))
                              (case data of Some d \<Rightarrow> [head, d] | None \<Rightarrow> [head]) (int (length head))
                              (zm_channels zm)
            in Inr (ret, zm\<lparr>zm_channels := ch\<rparr>))"

text \<open>\<open>PackCSMsg\<close> refuses an empty message and one that does not fit a channel message.\<close>

definition PackCSMsg :: "'m ZoneEnv \<Rightarrow> 'm \<Rightarrow> byte list option" where
  "PackCSMsg E csmsg =
     (let buf = ze_ser_cs E csmsg
      in if length buf = 0 \<or> length buf \<ge> MAX_CHANNEL_MESSAGE_SIZE then None else Some buf)"

definition Session_Send :: "'m ZoneEnv \<Rightarrow> nat \<Rightarrow> 'm \<Rightarrow> ZoneMgr \<Rightarrow> fault + int \<times> ZoneMgr" where
  "Session_Send E a csmsg zm =
     bindE (get_session a zm) (\<lambda>s.
       if se_state s \<notin> {PLAYER_STATE_LOADING, PLAYER_STATE_CREATING, PLAYER_STATE_PLAYING} then Inr (-1, zm)
       else
         (case PackCSMsg E csmsg of
            None \<Rightarrow> Inr (-1, zm)
          | Some buffer \<Rightarrow> Session_ResponseClient E a EVENT_DATA 0 (Some buffer) zm))"

section \<open>Requests to the database\<close>

text \<open>
  \<open>GetRole\<close>, \<open>InsertRole\<close> and \<open>UpdateRole\<close> hand the agent a request; with a coroutine they then
  yield, which is the result \<open>None\<close>, otherwise they return.
\<close>

definition db_call :: "int \<Rightarrow> int \<Rightarrow> db_request \<Rightarrow> ZoneMgr \<Rightarrow> int option \<times> ZoneMgr" where
  "db_call ret coid req zm =
     (if ret \<noteq> 0 then (Some (-1), zm)
      else (if coid \<noteq> 0 then None else Some 0, zm\<lparr>zm_requests := zm_requests zm @ [req]\<rparr>))"

definition GetRole :: "'m ZoneEnv \<Rightarrow> u64 \<Rightarrow> int \<Rightarrow> ZoneMgr \<Rightarrow> int option \<times> ZoneMgr" where
  "GetRole E uid coid zm = db_call (ze_get E) coid (DbGet uid coid) zm"

definition InsertRole :: "'m ZoneEnv \<Rightarrow> u64 \<Rightarrow> Role option \<Rightarrow> int \<Rightarrow> ZoneMgr \<Rightarrow> int option \<times> ZoneMgr" where
  "InsertRole E uid r coid zm = db_call (ze_insert E) coid (DbInsert uid r coid) zm"

definition UpdateRole :: "'m ZoneEnv \<Rightarrow> u64 \<Rightarrow> Role option \<Rightarrow> int \<Rightarrow> int \<Rightarrow> ZoneMgr \<Rightarrow> int option \<times> ZoneMgr" where
  "UpdateRole E uid r coid reason zm = db_call (ze_update E) coid (DbUpdate uid r coid reason) zm"

text \<open>\<open>session->GetPlayerAgent()->GetRoleData()\<close>.\<close>

definition session_role :: "nat \<Rightarrow> ZoneMgr \<Rightarrow> fault + Role option" where
  "session_role a zm =
     bindE (get_session a zm) (\<lambda>s.
       case se_player s of
         None \<Rightarrow> Inl NullDeref
       | Some pa \<Rightarrow> (case zm_players zm pa of None \<Rightarrow> Inl NullDeref | Some p \<Rightarrow> Inr (pRoleData p)))"

section \<open>Coroutines\<close>

text \<open>
  \<open>Create\<close> and the first \<open>Resume\<close>: the body runs until it ends or yields, and what it leaves to do
  waits under its identifier.  \<open>Resume\<close> runs a suspended body with the database's answer.
\<close>

definition co_finish :: "int \<Rightarrow> login_co option \<times> ZoneMgr \<Rightarrow> ZoneMgr" where
  "co_finish coid r = (snd r)\<lparr>zm_cos := (zm_cos (snd r))(coid := fst r)\<rparr>"

definition co_create ::
  "'m ZoneEnv \<Rightarrow> (int \<Rightarrow> ZoneMgr \<Rightarrow> fault + login_co option \<times> ZoneMgr) \<Rightarrow> ZoneMgr \<Rightarrow> fault + int \<times> ZoneMgr" where
  "co_create E body zm =
     (let coid = ze_new E (zm_cos zm)
      in bindE (body coid (zm\<lparr>zm_cos := (zm_cos zm)(coid \<mapsto> CoRunning)\<rparr>))
           (\<lambda>r. Inr (ze_resume E, co_finish coid r)))"

section \<open>Logging out\<close>

definition Logout_save :: "'m ZoneEnv \<Rightarrow> nat \<Rightarrow> int \<Rightarrow> int \<Rightarrow> ZoneMgr \<Rightarrow> fault + login_co option \<times> ZoneMgr" where
  "Logout_save E a retry coid zm =
     bindE (get_session a zm) (\<lambda>s.
       bindE (session_role a zm) (\<lambda>r.
         case UpdateRole E (se_uid s) r coid ROLE_DB_UPDATE_LOGOUT zm of
           (None, zm) \<Rightarrow> Inr (Some (CoUpdateRole a (retry - 1)), zm)
         | (Some ret, zm) \<Rightarrow> Inr (None, zm)))"

definition Logout_saved :: "'m ZoneEnv \<Rightarrow> nat \<Rightarrow> int \<Rightarrow> int \<Rightarrow> int \<Rightarrow> ZoneMgr \<Rightarrow> fault + login_co option \<times> ZoneMgr" where
  "Logout_saved E a retry ret coid zm =
     (if ret < 0 \<or> ret = DATA_OK then Inr (None, zm)
      else if retry > 0 then Logout_save E a retry coid zm
      else Inr (None, zm))"

definition LoginLogic_Logout :: "'m ZoneEnv \<Rightarrow> nat option \<Rightarrow> ZoneMgr \<Rightarrow> fault + int \<times> ZoneMgr" where
  "LoginLogic_Logout E ptr zm =
     (case ptr of
        None \<Rightarrow> Inl NullDeref
      | Some a \<Rightarrow>
          bindE (get_session a zm) (\<lambda>s.
            if se_state s \<noteq> PLAYER_STATE_PLAYING then Inr (-1, zm)
            else bindE (SetState a PLAYER_STATE_OFFLINE zm) (co_create E (Logout_save E a 3))))"

text \<open>\<open>GetSession\<close> of a key that is not there makes and returns the entry of key 0.\<close>

definition GetSession :: "u32 \<Rightarrow> u64 \<Rightarrow> ZoneMgr \<Rightarrow> fault + nat option \<times> ZoneMgr" where
  "GetSession z uid zm =
     (case m_mpZoneAgent zm z of
        None \<Rightarrow> Inl NullDeref
      | Some m \<Rightarrow>
          (case m uid of
             Some p \<Rightarrow> Inr (p, zm)
           | None \<Rightarrow>
               (case m 0 of
                  Some p \<Rightarrow> Inr (p, zm)
                | None \<Rightarrow> Inr (None, zm\<lparr>m_mpZoneAgent := (m_mpZoneAgent zm)(z \<mapsto> m(0 \<mapsto> None))\<rparr>))))"

definition Kick :: "'m ZoneEnv \<Rightarrow> nat \<Rightarrow> ZoneMgr \<Rightarrow> fault + int \<times> ZoneMgr" where
  "Kick E a zm =
     bindE (get_session a zm) (\<lambda>s.
       if se_state s = PLAYER_STATE_KICKING then Inr (-1, zm)
       else
         bindE (case se_player s of None \<Rightarrow> Inr zm | Some pa \<Rightarrow> PlayerAgent_Detach pa zm) (\<lambda>zm.
         bindE (GetSession (se_mgr s) (se_uid s) zm) (\<lambda>(ptr, zm).
         bindE (LoginLogic_Logout E ptr zm) (\<lambda>(_, zm).
         bindE (Session_ResponseClient E a EVENT_CLOSE CONNECTION_CLOSE_BY_DEFAULT None zm) (\<lambda>(_, zm).
         bindE (SetState a PLAYER_STATE_KICKING zm) (\<lambda>zm. Inr (0, zm)))))))"

section \<open>Logging in\<close>

text \<open>\<open>CreateRole\<close>: a new role of the session's identifier, attached and given its birth equipment.\<close>

definition role_birth :: "u64 \<Rightarrow> Role" where
  "role_birth uid = \<lparr>role_rid = uid, role_name = '''', role_pack = \<lparr>maxgrid = 0, grids = [], nextgid = 1\<rparr>, role_doing = []\<rparr>"

definition LoginLogic_CreateRole :: "'m ZoneEnv \<Rightarrow> nat \<Rightarrow> ZoneMgr \<Rightarrow> fault + ZoneMgr" where
  "LoginLogic_CreateRole E a zm =
     bindE (get_session a zm) (\<lambda>s.
       let (pa, zm) = new_player (PlayerAgent_new (Some (role_birth (se_uid s))) False) zm
       in bindE (AttachPlayerAgent E a pa zm) (\<lambda>zm.
            case zm_players zm pa of
              None \<Rightarrow> Inl NullDeref
            | Some p \<Rightarrow>
                (case PlayerAgent_InitBirthPlayer p of
                   None \<Rightarrow> Inl NullDeref
                 | Some p \<Rightarrow> Inr (zm\<lparr>zm_players := (zm_players zm)(pa \<mapsto> p)\<rparr>))))"

definition kicked :: "fault + int \<times> ZoneMgr \<Rightarrow> fault + login_co option \<times> ZoneMgr" where
  "kicked r = bindE r (\<lambda>(_, zm). Inr (None, zm))"

definition Login_inserted :: "'m ZoneEnv \<Rightarrow> nat \<Rightarrow> int \<Rightarrow> ZoneMgr \<Rightarrow> fault + login_co option \<times> ZoneMgr" where
  "Login_inserted E a ret zm =
     (if ret = DATA_OK then bindE (SetState a PLAYER_STATE_PLAYING zm) (\<lambda>zm. Inr (None, zm))
      else kicked (Kick E a zm))"

text \<open>The body of \<open>Login\<close> from the point where \<open>GetRole\<close> has returned or yielded its result.\<close>

definition Login_found :: "'m ZoneEnv \<Rightarrow> nat \<Rightarrow> Role option \<Rightarrow> ZoneMgr \<Rightarrow> fault + login_co option \<times> ZoneMgr" where
  "Login_found E a pRole zm =
     (case pRole of
        None \<Rightarrow> kicked (Kick E a zm)
      | Some r \<Rightarrow>
          let (pa, zm) = new_player (PlayerAgent_new (Some r) True) zm
          in bindE (AttachPlayerAgent E a pa zm) (\<lambda>zm.
             bindE (SetState a PLAYER_STATE_PLAYING zm) (\<lambda>zm. Inr (None, zm))))"

definition Login_create :: "'m ZoneEnv \<Rightarrow> nat \<Rightarrow> int \<Rightarrow> ZoneMgr \<Rightarrow> fault + login_co option \<times> ZoneMgr" where
  "Login_create E a coid zm =
     bindE (SetState a PLAYER_STATE_CREATING zm) (\<lambda>zm.
     bindE (LoginLogic_CreateRole E a zm) (\<lambda>zm.
     bindE (get_session a zm) (\<lambda>s.
     bindE (session_role a zm) (\<lambda>r.
       case InsertRole E (se_uid s) r coid zm of
         (None, zm) \<Rightarrow> Inr (Some (CoInsertRole a), zm)
       | (Some ret, zm) \<Rightarrow> Login_inserted E a ret zm))))"

definition Login_loaded ::
  "'m ZoneEnv \<Rightarrow> nat \<Rightarrow> Role option \<Rightarrow> int \<Rightarrow> int \<Rightarrow> ZoneMgr \<Rightarrow> fault + login_co option \<times> ZoneMgr" where
  "Login_loaded E a pRole ret coid zm =
     (if ret < 0 then Inr (None, zm)
      else if ret = DATA_OK then
        bindE (get_session a zm) (\<lambda>s.
          Login_found E a (case pRole of Some r \<Rightarrow> Some r | None \<Rightarrow> ze_find E (se_uid s)) zm)
      else if ret = DATA_NO_EXISTS then Login_create E a coid zm
      else kicked (Kick E a zm))"

definition Login_start :: "'m ZoneEnv \<Rightarrow> nat \<Rightarrow> int \<Rightarrow> ZoneMgr \<Rightarrow> fault + login_co option \<times> ZoneMgr" where
  "Login_start E a coid zm =
     bindE (SetState a PLAYER_STATE_LOADING zm) (\<lambda>zm.
     bindE (get_session a zm) (\<lambda>s.
       case ze_find E (se_uid s) of
         Some r \<Rightarrow> Login_loaded E a (Some r) 0 coid zm
       | None \<Rightarrow>
           (case GetRole E (se_uid s) coid zm of
              (None, zm) \<Rightarrow> Inr (Some (CoGetRole a), zm)
            | (Some ret, zm) \<Rightarrow> Login_loaded E a None ret coid zm)))"

definition LoginLogic_Login :: "'m ZoneEnv \<Rightarrow> nat option \<Rightarrow> ZoneMgr \<Rightarrow> fault + int \<times> ZoneMgr" where
  "LoginLogic_Login E ptr zm =
     (case ptr of None \<Rightarrow> Inl NullDeref | Some a \<Rightarrow> co_create E (Login_start E a) zm)"

text \<open>
  The answer of the database: \<open>OnGetRole\<close>, \<open>OnInsertRole\<close> and \<open>OnUpdateRole\<close> resume the coroutine
  with the result, or report that there is none.
\<close>

definition co_resume :: "'m ZoneEnv \<Rightarrow> login_co \<Rightarrow> int \<Rightarrow> int \<Rightarrow> ZoneMgr \<Rightarrow> fault + login_co option \<times> ZoneMgr" where
  "co_resume E co ret coid zm =
     (case co of
        CoRunning \<Rightarrow> Inr (Some CoRunning, zm)
      | CoGetRole a \<Rightarrow> Login_loaded E a None ret coid zm
      | CoInsertRole a \<Rightarrow> Login_inserted E a ret zm
      | CoUpdateRole a retry \<Rightarrow> Logout_saved E a retry ret coid zm)"

definition CommonCoroutineResume :: "'m ZoneEnv \<Rightarrow> int \<Rightarrow> int \<Rightarrow> ZoneMgr \<Rightarrow> fault + int \<times> ZoneMgr" where
  "CommonCoroutineResume E ret coid zm =
     (case zm_cos zm coid of
        None \<Rightarrow> Inr (-1, zm)
      | Some co \<Rightarrow>
          bindE (co_resume E co ret coid (zm\<lparr>zm_cos := (zm_cos zm)(coid \<mapsto> CoRunning)\<rparr>))
            (\<lambda>r. Inr (ze_resume E, co_finish coid r)))"

definition OnDBAnswer :: "'m ZoneEnv \<Rightarrow> int \<Rightarrow> int \<Rightarrow> ZoneMgr \<Rightarrow> fault + int \<times> ZoneMgr" where
  "OnDBAnswer E ret coid zm = (if coid \<noteq> 0 then CommonCoroutineResume E ret coid zm else Inr (0, zm))"

section \<open>The session manager of a zone\<close>

definition DeleteSession :: "u32 \<Rightarrow> u64 \<Rightarrow> ZoneMgr \<Rightarrow> fault + ZoneMgr" where
  "DeleteSession z uid zm =
     (case m_mpZoneAgent zm z of
        None \<Rightarrow> Inl NullDeref
      | Some m \<Rightarrow> Inr (zm\<lparr>m_mpZoneAgent := (m_mpZoneAgent zm)(z \<mapsto> m(uid := None))\<rparr>))"

definition StopSession :: "'m ZoneEnv \<Rightarrow> u32 \<Rightarrow> int \<Rightarrow> u32 \<Rightarrow> u64 \<Rightarrow> ZoneMgr \<Rightarrow> fault + int \<times> ZoneMgr" where
  "StopSession E z gateid idx uid zm =
     (case m_mpZoneAgent zm z of
        None \<Rightarrow> Inl NullDeref
      | Some m \<Rightarrow>
          (case FindSession m uid of
             None \<Rightarrow> Inr (-1, zm)
           | Some a \<Rightarrow>
               bindE (get_session a zm) (\<lambda>s.
                 if word_of_int (se_idx s) \<noteq> idx \<or> sint (se_gate s) \<noteq> gateid then Inr (-1, zm)
                 else
                   bindE (Kick E a zm) (\<lambda>(ret, zm).
                   bindE (DeleteSession z uid zm) (\<lambda>zm. Inr (ret, zm))))))"

definition Session_Init :: "u64 \<Rightarrow> GateSSMsg \<Rightarrow> Session \<Rightarrow> Session" where
  "Session_Init uid ggc s =
     s\<lparr>se_uid := uid, se_accountid := ss_uid ggc,
       se_port := sint (case ss_port ggc of Some p \<Rightarrow> p | None \<Rightarrow> 0),
       se_idx := sint (ss_idx ggc), se_area := ss_area ggc\<rparr>"

definition Session_new :: "u32 \<Rightarrow> int \<Rightarrow> Session" where
  "Session_new z gateid = \<lparr>se_uid = 0, se_accountid = 0, se_area = 0, se_gate = word_of_int gateid,
     se_idx = -1, se_port = 0, se_state = PLAYER_STATE_INIT, se_player = None, se_mgr = z\<rparr>"

definition CreateSession :: "'m ZoneEnv \<Rightarrow> u32 \<Rightarrow> u64 \<Rightarrow> int \<Rightarrow> GateSSMsg \<Rightarrow> ZoneMgr \<Rightarrow> fault + int \<times> ZoneMgr" where
  "CreateSession E z uid gateid cnnx zm =
     (case m_mpZoneAgent zm z of
        None \<Rightarrow> Inl NullDeref
      | Some m \<Rightarrow>
          (case FindSession m uid of
             Some a \<Rightarrow>
               bindE (Kick E a zm) (\<lambda>(_, zm).
               bindE (upd_session a (Session_Init uid cnnx) zm) (\<lambda>zm.
                 LoginLogic_Login E (case m_mpZoneAgent zm z of Some m \<Rightarrow> FindSession m uid | None \<Rightarrow> None) zm))
           | None \<Rightarrow>
               let a = zm_next zm;
                   zm = zm\<lparr>zm_sessions := (zm_sessions zm)(a \<mapsto> Session_Init uid cnnx (Session_new z gateid)),
                           zm_next := a + 1,
                           m_mpZoneAgent := (m_mpZoneAgent zm)(z \<mapsto> m(uid \<mapsto> Some a))\<rparr>
               in LoginLogic_Login E (Some a) zm))"

end
