(* ===== verification/ZoneAgent.thy ===== *)
theory ZoneAgent
  imports Session
begin

text \<open>
  The zone agents and the dispatch of client messages: \<open>rgtd/zone/ZoneAgentMgr.cpp\<close>,
  \<open>rgtd/zone/ZoneAgent.cpp\<close>, \<open>rgtd/zone/logic/CSMsgDispatcher.cpp\<close> and the handlers under
  \<open>rgtd/zone/cs_handler\<close>.

  A zone agent is its session table.  The Lua state that answers scripted commands is not part of
  the sources' C++ code: the set of commands it has registered and the result of a call into it are
  fields of \<open>CSHandlers\<close>.
\<close>

section \<open>Client messages\<close>

definition CSMSG_CMD_ROLE :: u32 where "CSMSG_CMD_ROLE = 2"

definition CSMSG_ROLE_ALL_INFO_REQ :: u32 where "CSMSG_ROLE_ALL_INFO_REQ = 1"
definition CSMSG_ROLE_BASE_INFO_REQ :: u32 where "CSMSG_ROLE_BASE_INFO_REQ = 2"
definition CSMSG_ROLE_EXT_INFO_REQ :: u32 where "CSMSG_ROLE_EXT_INFO_REQ = 3"
definition CSMSG_ROLE_MISC_INFO_REQ :: u32 where "CSMSG_ROLE_MISC_INFO_REQ = 4"
definition CSMSG_ROLE_ALL_INFO_RSP :: u32 where "CSMSG_ROLE_ALL_INFO_RSP = 5"
definition CSMSG_ROLE_BASE_INFO_RSP :: u32 where "CSMSG_ROLE_BASE_INFO_RSP = 6"
definition CSMSG_ROLE_EXT_INFO_RSP :: u32 where "CSMSG_ROLE_EXT_INFO_RSP = 7"
definition CSMSG_ROLE_MISC_INFO_RSP :: u32 where "CSMSG_ROLE_MISC_INFO_RSP = 8"

lemmas role_cmd_defs = CSMSG_ROLE_ALL_INFO_REQ_def CSMSG_ROLE_BASE_INFO_REQ_def
  CSMSG_ROLE_EXT_INFO_REQ_def CSMSG_ROLE_MISC_INFO_REQ_def CSMSG_ROLE_ALL_INFO_RSP_def
  CSMSG_ROLE_BASE_INFO_RSP_def CSMSG_ROLE_EXT_INFO_RSP_def CSMSG_ROLE_MISC_INFO_RSP_def

record CSRoleBase =
  rb_uid :: u64
  rb_name :: string
  rb_level :: u32

text \<open>\<open>CSRoleExt\<close> and \<open>CSRoleMisc\<close> have one 32-bit field.\<close>

record CSMsgRole =
  rm_cmd :: u32
  rm_all :: "(CSRoleBase \<times> u32 \<times> u32) option"
  rm_base :: "CSRoleBase option"
  rm_ext :: "u32 option"
  rm_misc :: "u32 option"

record CSMsg =
  csm_cmd :: u32
  csm_role :: "CSMsgRole option"

section \<open>The role handler\<close>

definition GetPlayerRoleBase :: "PlayerAgent \<Rightarrow> fault + CSRoleBase" where
  "GetPlayerRoleBase p =
     bindE (PlayerAgent_GetUID p) (\<lambda>uid.
     bindE (PlayerAgent_GetName p) (\<lambda>name.
       Inr \<lparr>rb_uid = uid, rb_name = name, rb_level = PlayerAgent_GetLevel p\<rparr>))"

definition GetPlayerRoleExt :: "PlayerAgent \<Rightarrow> fault + u32" where
  "GetPlayerRoleExt p = bindE (PlayerAgent_GetUID p) (\<lambda>uid. Inr (ucast uid))"

definition GetPlayerRoleMisc :: "PlayerAgent \<Rightarrow> fault + u32" where
  "GetPlayerRoleMisc p = bindE (PlayerAgent_GetUID p) (\<lambda>uid. Inr (ucast uid))"

definition session_player :: "nat \<Rightarrow> ZoneMgr \<Rightarrow> fault + PlayerAgent" where
  "session_player a zm =
     bindE (get_session a zm) (\<lambda>s.
       case se_player s of
         None \<Rightarrow> Inl NullDeref
       | Some pa \<Rightarrow> (case zm_players zm pa of None \<Rightarrow> Inl NullDeref | Some p \<Rightarrow> Inr p))"

definition role_rsp :: "u32 \<Rightarrow> CSMsgRole" where
  "role_rsp cmd = \<lparr>rm_cmd = cmd, rm_all = None, rm_base = None, rm_ext = None, rm_misc = None\<rparr>"

text \<open>The answer to a role request, when there is one; an unknown command has none.\<close>

definition role_answer :: "u32 \<Rightarrow> fault + PlayerAgent \<Rightarrow> fault + CSMsgRole option" where
  "role_answer cmd pl =
     (if cmd = CSMSG_ROLE_ALL_INFO_REQ then
        bindE pl (\<lambda>p. bindE (GetPlayerRoleBase p) (\<lambda>b. bindE (GetPlayerRoleExt p) (\<lambda>x.
        bindE (GetPlayerRoleMisc p) (\<lambda>m.
          Inr (Some ((role_rsp CSMSG_ROLE_ALL_INFO_RSP)\<lparr>rm_all := Some (b, x, m)\<rparr>))))))
      else if cmd = CSMSG_ROLE_BASE_INFO_REQ then
        bindE pl (\<lambda>p. bindE (GetPlayerRoleBase p) (\<lambda>b.
          Inr (Some ((role_rsp CSMSG_ROLE_BASE_INFO_RSP)\<lparr>rm_base := Some b\<rparr>))))
      else if cmd = CSMSG_ROLE_EXT_INFO_REQ then
        bindE pl (\<lambda>p. bindE (GetPlayerRoleExt p) (\<lambda>x.
          Inr (Some ((role_rsp CSMSG_ROLE_EXT_INFO_RSP)\<lparr>rm_ext := Some x\<rparr>))))
      else if cmd = CSMSG_ROLE_MISC_INFO_REQ then
        bindE pl (\<lambda>p. bindE (GetPlayerRoleMisc p) (\<lambda>m.
          Inr (Some ((role_rsp CSMSG_ROLE_MISC_INFO_RSP)\<lparr>rm_misc := Some m\<rparr>))))
      else Inr None)"

definition Role_OnPlayingMsg :: "CSMsg ZoneEnv \<Rightarrow> nat \<Rightarrow> CSMsg \<Rightarrow> ZoneMgr \<Rightarrow> fault + int \<times> ZoneMgr" where
  "Role_OnPlayingMsg E a msg zm =
     (case csm_role msg of
        None \<Rightarrow> Inr (-1, zm)
      | Some req \<Rightarrow>
          bindE (role_answer (rm_cmd req) (session_player a zm)) (\<lambda>rsp.
            case rsp of
              None \<Rightarrow> Inr (0, zm)
            | Some r \<Rightarrow>
                bindE (Session_Send E a \<lparr>csm_cmd = CSMSG_CMD_ROLE, csm_role = Some r\<rparr> zm)
                  (\<lambda>(_, zm). Inr (0, zm))))"

section \<open>Dispatch\<close>

text \<open>
  The handlers: the C++ ones by command (only the role handler exists), the commands the script has
  registered, and what a call of a function of the script gives.
\<close>

datatype CSMsgHandler = RoleHandler | LuaHandler

record CSHandlers =
  m_mpHandlers :: "u32 \<rightharpoonup> CSMsgHandler"
  m_setluahandlers :: "u32 set"

definition RegisterCSMsgHandler :: "u32 \<Rightarrow> CSMsgHandler \<Rightarrow> CSHandlers \<Rightarrow> int \<times> CSHandlers" where
  "RegisterCSMsgHandler cmd h d =
     (if m_mpHandlers d cmd \<noteq> None then (-1, d)
      else (0, d\<lparr>m_mpHandlers := (m_mpHandlers d)(cmd \<mapsto> h)\<rparr>))"

definition Lua_RegisterCMD :: "u32 \<Rightarrow> CSHandlers \<Rightarrow> int \<times> CSHandlers" where
  "Lua_RegisterCMD cmd d =
     (if cmd \<in> m_setluahandlers d then (-1, d)
      else (0, d\<lparr>m_setluahandlers := insert cmd (m_setluahandlers d)\<rparr>))"

definition IsListeningMsg :: "u32 \<Rightarrow> CSHandlers \<Rightarrow> bool" where
  "IsListeningMsg cmd d \<longleftrightarrow> cmd \<in> m_setluahandlers d"

definition GetMsgHandler :: "u32 \<Rightarrow> CSHandlers \<Rightarrow> CSMsgHandler option" where
  "GetMsgHandler cmd d =
     (case m_mpHandlers d cmd of
        Some h \<Rightarrow> Some h
      | None \<Rightarrow> if IsListeningMsg cmd d then Some LuaHandler else None)"

text \<open>
  \<open>SetupAllCSMsgHandler\<close>; \<open>lua_init\<close> is the result of setting the script up, \<open>lua_cmds\<close> the commands it
  registers while doing so.
\<close>

definition SetupAllCSMsgHandler :: "int \<Rightarrow> u32 list \<Rightarrow> CSHandlers \<Rightarrow> int \<times> CSHandlers" where
  "SetupAllCSMsgHandler lua_init lua_cmds d =
     (let d = foldl (\<lambda>d c. snd (Lua_RegisterCMD c d)) (d\<lparr>m_setluahandlers := {}\<rparr>) lua_cmds
      in if lua_init \<noteq> 0 then (-1, d)
         else (0, snd (RegisterCSMsgHandler CSMSG_CMD_ROLE RoleHandler d)))"

type_synonym lua_call = "string \<Rightarrow> nat \<Rightarrow> CSMsg \<Rightarrow> int \<times> int"

definition Lua_msg :: "lua_call \<Rightarrow> string \<Rightarrow> nat \<Rightarrow> CSMsg \<Rightarrow> int" where
  "Lua_msg lua name a msg = (case lua name a msg of (ret, result) \<Rightarrow> if ret \<noteq> 0 then -1 else result)"

definition Handle ::
  "CSMsg ZoneEnv \<Rightarrow> lua_call \<Rightarrow> CSMsgHandler \<Rightarrow> nat \<Rightarrow> CSMsg \<Rightarrow> ZoneMgr \<Rightarrow> fault + int \<times> ZoneMgr" where
  "Handle E lua h a msg zm =
     bindE (get_session a zm) (\<lambda>s.
       if se_state s = PLAYER_STATE_CREATING then
         Inr (case h of RoleHandler \<Rightarrow> 0 | LuaHandler \<Rightarrow> Lua_msg lua ''OnCreatingMsg'' a msg, zm)
       else if se_state s = PLAYER_STATE_PLAYING then
         (case h of
            RoleHandler \<Rightarrow> Role_OnPlayingMsg E a msg zm
          | LuaHandler \<Rightarrow> Inr (Lua_msg lua ''OnPlayingMsg'' a msg, zm))
       else Inr (-1, zm))"

definition CSMsg_Dispatch ::
  "CSMsg ZoneEnv \<Rightarrow> lua_call \<Rightarrow> CSHandlers \<Rightarrow> nat \<Rightarrow> CSMsg \<Rightarrow> ZoneMgr \<Rightarrow> fault + int \<times> ZoneMgr" where
  "CSMsg_Dispatch E lua d a msg zm =
     (case GetMsgHandler (csm_cmd msg) d of
        Some h \<Rightarrow> Handle E lua h a msg zm
      | None \<Rightarrow> Inr (-100, zm))"

section \<open>Zone agents\<close>

definition DispatchPlayerAgentMsg ::
  "CSMsg ZoneEnv \<Rightarrow> lua_call \<Rightarrow> CSHandlers \<Rightarrow> u32 \<Rightarrow> GateSSMsg \<Rightarrow> CSMsg \<Rightarrow> ZoneMgr \<Rightarrow> fault + int \<times> ZoneMgr" where
  "DispatchPlayerAgentMsg E lua d z ggc csmsg zm =
     (case m_mpZoneAgent zm z of
        None \<Rightarrow> Inl NullDeref
      | Some m \<Rightarrow>
          (case FindSession m (GetRoleID (ss_uid ggc) (ss_area ggc)) of
             None \<Rightarrow> Inr (-1, zm)
           | Some a \<Rightarrow> CSMsg_Dispatch E lua d a csmsg zm))"

definition Zone_AttachPlayerAgent :: "'m ZoneEnv \<Rightarrow> u32 \<Rightarrow> int \<Rightarrow> GateSSMsg \<Rightarrow> ZoneMgr \<Rightarrow> fault + int \<times> ZoneMgr" where
  "Zone_AttachPlayerAgent E z gateid ggc zm =
     bindE (CreateSession E z (GetRoleID (ss_uid ggc) (ss_area ggc)) gateid ggc zm)
       (\<lambda>(ret, zm). Inr (if ret \<noteq> 0 then -1 else 0, zm))"

definition DetachPlayerAgent :: "'m ZoneEnv \<Rightarrow> u32 \<Rightarrow> int \<Rightarrow> GateSSMsg \<Rightarrow> ZoneMgr \<Rightarrow> fault + int \<times> ZoneMgr" where
  "DetachPlayerAgent E z gateid ggc zm =
     StopSession E z gateid (ss_idx ggc) (GetRoleID (ss_uid ggc) (ss_area ggc)) zm"

section \<open>The zone manager\<close>

definition AddZone :: "u32 \<Rightarrow> ZoneMgr \<Rightarrow> int \<times> ZoneMgr" where
  "AddZone dwZoneID zm =
     (if m_mpZoneAgent zm dwZoneID \<noteq> None then (-1, zm)
      else (0, zm\<lparr>m_mpZoneAgent := (m_mpZoneAgent zm)(dwZoneID \<mapsto> Map.empty)\<rparr>))"

text \<open>The loop of \<open>Init\<close> over the configured areas; \<open>zone_init\<close> is the result of a zone's \<open>Init\<close>.\<close>

fun ZoneMgr_Init_zones :: "(u32 \<Rightarrow> int) \<Rightarrow> u32 list \<Rightarrow> ZoneMgr \<Rightarrow> int \<times> ZoneMgr" where
  "ZoneMgr_Init_zones zone_init [] zm = (0, zm)"
| "ZoneMgr_Init_zones zone_init (z # zs) zm =
     (case AddZone z zm of
        (r, zm) \<Rightarrow>
          if r \<noteq> 0 then (-1, zm)
          else if zone_init z \<noteq> 0 then (-1, zm)
          else ZoneMgr_Init_zones zone_init zs zm)"

definition OnGateMessage ::
  "CSMsg ZoneEnv \<Rightarrow> lua_call \<Rightarrow> CSHandlers \<Rightarrow> ChannelMessage \<Rightarrow> ZoneMgr \<Rightarrow> fault + int \<times> ZoneMgr" where
  "OnGateMessage E lua d msg zm =
     bindE (open_envelope (pData msg)) (\<lambda>r.
       case r of
         None \<Rightarrow> Inr (-1, zm)
       | Some (head, cs) \<Rightarrow>
           (case ze_parse_ss E head of
              None \<Rightarrow> Inr (-1, zm)
            | Some ggc \<Rightarrow>
                if GetAgent (ss_area ggc) zm = None then Inr (-1, zm)
                else if ss_event ggc = EVENT_CONNECTED
                then Zone_AttachPlayerAgent E (ss_area ggc) (iSrc msg) ggc zm
                else if ss_event ggc = EVENT_CLOSE
                then DetachPlayerAgent E (ss_area ggc) (iSrc msg) ggc zm
                else if ss_event ggc = EVENT_DATA then
                  (case ze_parse_cs E cs of
                     None \<Rightarrow> Inr (-1, zm)
                   | Some csmsg \<Rightarrow> DispatchPlayerAgentMsg E lua d (ss_area ggc) ggc csmsg zm)
                else Inr (-1, zm)))"

end
