(* ===== verification/ZoneInv.thy ===== *)
theory ZoneInv
  imports ZoneAgent
begin

text \<open>
  The objects of the zone server stay consistent: the invariant between the session tables, the
  session and player objects and the suspended coroutines, kept by every message of a gate and
  every answer of the database, together with the faults that can occur.
\<close>

section \<open>The invariant\<close>

definition session_ok :: "ZoneMgr \<Rightarrow> nat \<Rightarrow> Session \<Rightarrow> bool" where
  "session_ok zm a s \<longleftrightarrow> a < zm_next zm \<and> m_mpZoneAgent zm (se_mgr s) \<noteq> None
     \<and> (\<forall>pa. se_player s = Some pa \<longrightarrow> zm_players zm pa \<noteq> None)
     \<and> (se_state s = PLAYER_STATE_PLAYING \<longrightarrow> se_player s \<noteq> None)"

definition has_player :: "ZoneMgr \<Rightarrow> nat \<Rightarrow> bool" where
  "has_player zm a \<longleftrightarrow> (\<exists>s. zm_sessions zm a = Some s \<and> se_player s \<noteq> None)"

text \<open>What a suspended coroutine still needs of its session.\<close>

definition co_ok :: "ZoneMgr \<Rightarrow> login_co \<Rightarrow> bool" where
  "co_ok zm co = (case co of
     CoRunning \<Rightarrow> True
   | CoGetRole a \<Rightarrow> zm_sessions zm a \<noteq> None
   | CoInsertRole a \<Rightarrow> has_player zm a
   | CoUpdateRole a retry \<Rightarrow> has_player zm a \<and> 0 \<le> retry \<and> retry \<le> 2)"

definition zone_inv :: "ZoneMgr \<Rightarrow> bool" where
  "zone_inv zm \<longleftrightarrow>
     (\<forall>z m uid a. m_mpZoneAgent zm z = Some m \<longrightarrow> m uid = Some (Some a) \<longrightarrow>
        (\<exists>s. zm_sessions zm a = Some s \<and> se_uid s = uid \<and> se_mgr s = z))
   \<and> (\<forall>z m uid. m_mpZoneAgent zm z = Some m \<longrightarrow> m uid = Some None \<longrightarrow> uid = 0)
   \<and> (\<forall>a s. zm_sessions zm a = Some s \<longrightarrow> session_ok zm a s)
   \<and> (\<forall>pa p. zm_players zm pa = Some p \<longrightarrow> pa < zm_next zm \<and> pRoleData p \<noteq> None)
   \<and> (\<forall>coid co. zm_cos zm coid = Some co \<longrightarrow> co_ok zm co)"

text \<open>What every operation keeps of the objects, and every operation but a deletion of the tables.\<close>

definition objs :: "ZoneMgr \<Rightarrow> ZoneMgr \<Rightarrow> bool" where
  "objs zm zm' \<longleftrightarrow>
     (\<forall>a s. zm_sessions zm a = Some s \<longrightarrow>
        (\<exists>s'. zm_sessions zm' a = Some s' \<and> se_uid s' = se_uid s \<and> se_mgr s' = se_mgr s \<and> se_gate s' = se_gate s
          \<and> (se_player s \<noteq> None \<longrightarrow> se_player s' \<noteq> None)))"

definition grows :: "ZoneMgr \<Rightarrow> ZoneMgr \<Rightarrow> bool" where
  "grows zm zm' \<longleftrightarrow> objs zm zm'
     \<and> (\<forall>z m. m_mpZoneAgent zm z = Some m \<longrightarrow> (\<exists>m'. m_mpZoneAgent zm' z = Some m' \<and> m \<subseteq>\<^sub>m m'))"

lemma objs_refl [simp]: "objs zm zm" by (simp add: objs_def)
lemma grows_refl [simp]: "grows zm zm" by (simp add: grows_def)

lemma objs_trans: "objs a b \<Longrightarrow> objs b c \<Longrightarrow> objs a c"
  unfolding objs_def by metis

lemma grows_trans: "grows a b \<Longrightarrow> grows b c \<Longrightarrow> grows a c"
  unfolding grows_def by (meson map_le_trans objs_trans)

lemma grows_objs: "grows a b \<Longrightarrow> objs a b"
  by (simp add: grows_def)

lemma objs_session: "objs zm zm' \<Longrightarrow> zm_sessions zm a \<noteq> None \<Longrightarrow> zm_sessions zm' a \<noteq> None"
  unfolding objs_def by fastforce

lemma objs_player: "objs zm zm' \<Longrightarrow> has_player zm a \<Longrightarrow> has_player zm' a"
  unfolding objs_def has_player_def by fastforce

lemma objs_co: "objs zm zm' \<Longrightarrow> co_ok zm co \<Longrightarrow> co_ok zm' co"
  by (auto simp: co_ok_def objs_player split: login_co.splits dest: objs_session)

lemma zone_inv_entry:
  "zone_inv zm \<Longrightarrow> m_mpZoneAgent zm z = Some m \<Longrightarrow> m uid = Some (Some a) \<Longrightarrow>
    \<exists>s. zm_sessions zm a = Some s \<and> se_uid s = uid \<and> se_mgr s = z"
  unfolding zone_inv_def by blast

lemma zone_inv_session: "zone_inv zm \<Longrightarrow> zm_sessions zm a = Some s \<Longrightarrow> session_ok zm a s"
  unfolding zone_inv_def by blast

lemma zone_inv_co: "zone_inv zm \<Longrightarrow> zm_cos zm coid = Some co \<Longrightarrow> co_ok zm co"
  unfolding zone_inv_def by blast

lemma zone_inv_role: "zone_inv zm \<Longrightarrow> zm_players zm pa = Some p \<Longrightarrow> pRoleData p \<noteq> None \<and> pa < zm_next zm"
  unfolding zone_inv_def by blast

section \<open>Elementary steps\<close>

text \<open>Coroutine table, logs, event centre and channels: nothing the invariant sees.\<close>

lemma zone_inv_frame:
  assumes "zone_inv zm" and "m_mpZoneAgent zm' = m_mpZoneAgent zm" and "zm_sessions zm' = zm_sessions zm"
    and "zm_players zm' = zm_players zm" and "zm_next zm' = zm_next zm"
    and "\<And>coid co. zm_cos zm' coid = Some co \<Longrightarrow> zm_cos zm coid = Some co \<or> co_ok zm co"
  shows "zone_inv zm'" and "grows zm zm'"
proof -
  have co: "co_ok zm' co = co_ok zm co" for co
    by (simp add: co_ok_def has_player_def assms(3) split: login_co.splits)
  have so: "session_ok zm' a s = session_ok zm a s" for a s
    by (simp add: session_ok_def assms(2-5))
  have "co_ok zm' co" if "zm_cos zm' coid = Some co" for coid co
    using assms(6) [OF that] zone_inv_co [OF assms(1)] co by blast
  then show "zone_inv zm'"
    using assms(1) unfolding zone_inv_def so assms(2-5) by blast
  show "grows zm zm'" by (simp add: grows_def objs_def assms(2,3))
qed

text \<open>An update of one session that keeps its key and its zone.\<close>

lemma upd_session_ok:
  assumes inv: "zone_inv zm" and s: "zm_sessions zm a \<noteq> None"
    and f: "\<And>s. zm_sessions zm a = Some s \<Longrightarrow> se_uid (f s) = se_uid s \<and> se_mgr (f s) = se_mgr s \<and> se_gate (f s) = se_gate s
      \<and> (se_player s \<noteq> None \<longrightarrow> se_player (f s) \<noteq> None)
      \<and> (\<forall>pa. se_player (f s) = Some pa \<longrightarrow> zm_players zm pa \<noteq> None)
      \<and> (se_state (f s) = PLAYER_STATE_PLAYING \<longrightarrow> se_player (f s) \<noteq> None)"
  shows "okE {} (\<lambda>zm'. zone_inv zm' \<and> grows zm zm' \<and> zm_cos zm' = zm_cos zm \<and> zm_players zm' = zm_players zm
    \<and> zm_sessions zm' a = map_option f (zm_sessions zm a)) (upd_session a f zm)"
proof -
  obtain s where s: "zm_sessions zm a = Some s" using s by blast
  let ?zm = "zm\<lparr>zm_sessions := (zm_sessions zm)(a \<mapsto> f s)\<rparr>"
  note f = f [OF s]
  have g: "grows zm ?zm" using f s by (auto simp: grows_def objs_def)
  have "session_ok ?zm b t" if "zm_sessions ?zm b = Some t" for b t
    using zone_inv_session [OF inv] s f that by (auto simp: session_ok_def split: if_splits)
  moreover have "co_ok ?zm co" if "zm_cos zm coid = Some co" for coid co
    using objs_co [OF grows_objs [OF g] zone_inv_co [OF inv that]] .
  moreover have "\<exists>t. zm_sessions ?zm b = Some t \<and> se_uid t = uid \<and> se_mgr t = z"
    if "m_mpZoneAgent zm z = Some m" "m uid = Some (Some b)" for z m uid b
    using zone_inv_entry [OF inv that] s f by auto
  ultimately have "zone_inv ?zm" using inv unfolding zone_inv_def by simp
  then show ?thesis using g s by (simp add: upd_session_def)
qed

lemma SetState_ok:
  assumes "zone_inv zm" and "zm_sessions zm a \<noteq> None" and "st = PLAYER_STATE_PLAYING \<longrightarrow> has_player zm a"
  shows "okE {} (\<lambda>zm'. zone_inv zm' \<and> grows zm zm') (SetState a st zm)"
proof -
  have "\<forall>pa. se_player s = Some pa \<longrightarrow> zm_players zm pa \<noteq> None" if "zm_sessions zm a = Some s" for s
    using zone_inv_session [OF assms(1) that] by (simp add: session_ok_def)
  then show ?thesis unfolding SetState_def
    by (intro okE_mono [OF upd_session_ok [OF assms(1,2)]]) (use assms(3) in \<open>auto simp: has_player_def\<close>)
qed

lemma get_session_ok: "zm_sessions zm a \<noteq> None \<Longrightarrow> okE {} (\<lambda>s. zm_sessions zm a = Some s) (get_session a zm)"
  by (auto simp: get_session_def)

lemma new_player_ok:
  assumes inv: "zone_inv zm" and p: "pRoleData p \<noteq> None" and n: "new_player p zm = (pa, zm')"
  shows "zone_inv zm' \<and> grows zm zm' \<and> zm_players zm' pa = Some p \<and> zm_sessions zm' = zm_sessions zm"
proof -
  have z: "pa = zm_next zm" "zm' = zm\<lparr>zm_players := (zm_players zm)(zm_next zm \<mapsto> p), zm_next := zm_next zm + 1\<rparr>"
    using n by (auto simp: new_player_def)
  have g: "grows zm zm'" by (simp add: grows_def objs_def z)
  have "session_ok zm' a s" if "zm_sessions zm a = Some s" for a s
    using zone_inv_session [OF inv that] by (auto simp: session_ok_def z)
  moreover have "co_ok zm' co" if "zm_cos zm coid = Some co" for coid co
    using objs_co [OF grows_objs [OF g] zone_inv_co [OF inv that]] .
  ultimately have "zone_inv zm'"
    using inv p unfolding zone_inv_def z by (auto intro: less_SucI)
  then show ?thesis using g z by simp
qed

section \<open>Attaching and detaching\<close>

text \<open>A delayed event does not touch the rest of the process.\<close>

lemma FireEvent_delayed_rest:
  assumes "FireEvent t zone n code recv secs p arg ex (ec, e) = Some (tid, ec', e')" and "0 < secs"
  shows "e' = e"
  using assms by (auto simp: FireEvent_def FireEvent_player_def Let_def split: if_splits option.splits prod.splits)

lemma logic_OnAttach_rest:
  assumes "logic_OnAttach E l (p, ec, zm) = Some (p', ec', zm')"
  shows "zm' = zm \<and> pRoleData p' = pRoleData p"
  using assms by (auto simp: logic_OnAttach_def AutoSync_OnAttach_def autosync_fire_def
      dest: FireEvent_delayed_rest split: PlayerLogic.splits sum.splits option.splits)

lemma visit_attach_rest:
  assumes "visit_all (logic_OnAttach E) ls (p, ec, zm) = Some (p', ec', zm')"
  shows "zm' = zm \<and> pRoleData p' = pRoleData p"
  using assms
proof (induction ls arbitrary: p ec zm)
  case (Cons nl ls)
  obtain n l where nl: "nl = (n, l)" by (cases nl)
  from Cons.prems obtain q ec1 zm1 where "logic_OnAttach E l (p, ec, zm) = Some (q, ec1, zm1)"
    "visit_all (logic_OnAttach E) ls (q, ec1, zm1) = Some (p', ec', zm')"
    by (auto simp: nl split: option.splits)
  then show ?case using Cons.IH logic_OnAttach_rest by metis
qed simp

text \<open>A player object is replaced by one with a role.\<close>

lemma upd_player_ok:
  assumes inv: "zone_inv zm" and pa: "zm_players zm pa \<noteq> None" and p: "pRoleData p \<noteq> None"
  shows "zone_inv (zm\<lparr>zm_players := (zm_players zm)(pa \<mapsto> p), zm_ec := ec\<rparr>)" (is "zone_inv ?zm")
    and "grows zm (zm\<lparr>zm_players := (zm_players zm)(pa \<mapsto> p), zm_ec := ec\<rparr>)"
proof -
  show g: "grows zm ?zm" by (simp add: grows_def objs_def)
  have "session_ok ?zm a s" if "zm_sessions zm a = Some s" for a s
    using zone_inv_session [OF inv that] by (auto simp: session_ok_def)
  moreover have "co_ok ?zm co" if "zm_cos zm coid = Some co" for coid co
    using objs_co [OF grows_objs [OF g] zone_inv_co [OF inv that]] .
  moreover have "pa < zm_next zm" using pa zone_inv_role [OF inv] by blast
  ultimately show "zone_inv ?zm" using inv p unfolding zone_inv_def by auto
qed

lemma Attach_ok:
  assumes inv: "zone_inv zm" and pa: "zm_players zm pa = Some p"
  shows "okE {NoReturn} (\<lambda>zm'. zone_inv zm' \<and> grows zm zm' \<and> zm_sessions zm' = zm_sessions zm
    \<and> (\<exists>p'. zm_players zm' pa = Some p' \<and> pRoleData p' = pRoleData p)) (PlayerAgent_Attach E pa zm)"
proof -
  have r: "pRoleData p \<noteq> None" using zone_inv_role [OF inv pa] by simp
  show ?thesis
  proof (cases "visit_all (logic_OnAttach E) (ptrLogic p) (p, zm_ec zm, zm)")
    case None
    then show ?thesis using pa r by (auto simp: PlayerAgent_Attach_def)
  next
    case (Some t)
    then obtain p' ec zm' where t: "visit_all (logic_OnAttach E) (ptrLogic p) (p, zm_ec zm, zm) = Some (p', ec, zm')"
      by (cases t) auto
    have "zm' = zm" and p': "pRoleData p' = pRoleData p" using visit_attach_rest [OF t] by simp_all
    then have "PlayerAgent_Attach E pa zm = Inr (zm\<lparr>zm_players := (zm_players zm)(pa \<mapsto> p'), zm_ec := ec\<rparr>)"
      using t pa r by (auto simp: PlayerAgent_Attach_def)
    then show ?thesis using upd_player_ok [OF inv, of pa p' ec] pa r p' by simp
  qed
qed

lemma AttachPlayerAgent_ok:
  assumes inv: "zone_inv zm" and a: "zm_sessions zm a \<noteq> None" and pa: "zm_players zm pa = Some p"
  shows "okE {NoReturn} (\<lambda>zm'. zone_inv zm' \<and> grows zm zm' \<and> has_player zm' a
    \<and> (\<exists>p'. zm_players zm' pa = Some p' \<and> pRoleData p' = pRoleData p)) (AttachPlayerAgent E a pa zm)"
  unfolding AttachPlayerAgent_def
proof (rule okE_bind)
  show "okE {NoReturn} (\<lambda>zm'. zone_inv zm' \<and> grows zm zm' \<and> has_player zm' a \<and> zm_players zm' pa = Some p)
      (upd_session a (\<lambda>s. s\<lparr>se_player := Some pa\<rparr>) zm)"
    by (rule okE_mono [OF upd_session_ok [OF inv a]]) (use pa a in \<open>auto simp: has_player_def\<close>)
next
  fix zm1 assume z: "zone_inv zm1 \<and> grows zm zm1 \<and> has_player zm1 a \<and> zm_players zm1 pa = Some p"
  show "okE {NoReturn} (\<lambda>zm'. zone_inv zm' \<and> grows zm zm' \<and> has_player zm' a
    \<and> (\<exists>p'. zm_players zm' pa = Some p' \<and> pRoleData p' = pRoleData p)) (PlayerAgent_Attach E pa zm1)"
    by (rule okE_mono [OF Attach_ok [of zm1 pa p]]) (use z in \<open>auto simp: has_player_def intro: grows_trans\<close>)
qed

lemma visit_detach: "\<exists>ec'. visit_all logic_OnDetach ls (p, ec) = Some (p, ec')"
  by (induction ls arbitrary: ec) (auto simp: logic_OnDetach_def split: PlayerLogic.splits)

lemma Detach_ok:
  assumes "zone_inv zm" and "zm_players zm pa \<noteq> None"
  shows "okE {} (\<lambda>zm'. zone_inv zm' \<and> grows zm zm' \<and> zm_sessions zm' = zm_sessions zm
    \<and> m_mpZoneAgent zm' = m_mpZoneAgent zm) (PlayerAgent_Detach pa zm)"
proof -
  obtain p where p: "zm_players zm pa = Some p" using assms(2) by blast
  obtain ec where "visit_all logic_OnDetach (ptrLogic p) (p, zm_ec zm) = Some (p, ec)" using visit_detach by blast
  then have "PlayerAgent_Detach pa zm = Inr (zm\<lparr>zm_ec := ec\<rparr>)" using p by (simp add: PlayerAgent_Detach_def)
  then show ?thesis using zone_inv_frame [OF assms(1), of "zm\<lparr>zm_ec := ec\<rparr>"] by simp
qed

section \<open>Answers, requests and coroutines\<close>

lemma ResponseClient_ok:
  assumes "zone_inv zm" and "zm_sessions zm a \<noteq> None" and "ev \<in> {EVENT_CONNECTED, EVENT_CLOSE, EVENT_DATA}"
  shows "okE {} (\<lambda>(r, zm'). zone_inv zm' \<and> grows zm zm' \<and> zm_sessions zm' = zm_sessions zm
    \<and> m_mpZoneAgent zm' = m_mpZoneAgent zm) (Session_ResponseClient E a ev i d zm)"
proof -
  obtain s where "zm_sessions zm a = Some s" using assms(2) by blast
  then have "\<exists>r ch. Session_ResponseClient E a ev i d zm = Inr (r, zm\<lparr>zm_channels := ch\<rparr>)"
    using assms(3) by (auto simp: Session_ResponseClient_def get_session_def Let_def case_prod_beta)
  then obtain r ch where "Session_ResponseClient E a ev i d zm = Inr (r, zm\<lparr>zm_channels := ch\<rparr>)" by blast
  then show ?thesis using zone_inv_frame [OF assms(1), of "zm\<lparr>zm_channels := ch\<rparr>"] by simp
qed

lemma db_call_ok:
  assumes "zone_inv zm" and "db_call ret coid req zm = (r, zm')"
  shows "zone_inv zm' \<and> grows zm zm' \<and> zm_sessions zm' = zm_sessions zm \<and> zm_players zm' = zm_players zm"
proof -
  have "zm' = zm \<or> zm' = zm\<lparr>zm_requests := zm_requests zm @ [req]\<rparr>"
    using assms(2) by (auto simp: db_call_def split: if_splits)
  then show ?thesis
    using assms(1) zone_inv_frame [OF assms(1), of "zm\<lparr>zm_requests := zm_requests zm @ [req]\<rparr>"] by auto
qed

lemma session_role_ok: "zone_inv zm \<Longrightarrow> has_player zm a \<Longrightarrow> okE {} (\<lambda>r. r \<noteq> None) (session_role a zm)"
  using zone_inv_session [of zm a] zone_inv_role [of zm]
  by (fastforce simp: session_role_def has_player_def get_session_def session_ok_def)

text \<open>A body that leaves a well-formed rest may be run as a new coroutine or resumed.\<close>

lemma co_finish_ok:
  assumes "zone_inv zm" and "\<And>co. c = Some co \<Longrightarrow> co_ok zm co"
  shows "zone_inv (co_finish coid (c, zm)) \<and> grows zm (co_finish coid (c, zm))"
proof -
  have "zm_cos (co_finish coid (c, zm)) k = Some co \<Longrightarrow> zm_cos zm k = Some co \<or> co_ok zm co" for k co
    using assms(2) by (auto simp: co_finish_def split: if_splits)
  then show ?thesis
    using zone_inv_frame [OF assms(1), of "co_finish coid (c, zm)"] by (simp add: co_finish_def)
qed

definition body_ok :: "ZoneMgr \<Rightarrow> login_co option \<times> ZoneMgr \<Rightarrow> bool" where
  "body_ok zm r \<longleftrightarrow> zone_inv (snd r) \<and> grows zm (snd r) \<and> (\<forall>co. fst r = Some co \<longrightarrow> co_ok (snd r) co)"

lemma run_ok:
  assumes inv: "zone_inv zm"
    and body: "\<And>zm1. zone_inv zm1 \<Longrightarrow> zm1 = zm\<lparr>zm_cos := (zm_cos zm)(coid \<mapsto> CoRunning)\<rparr>
      \<Longrightarrow> okE F (body_ok zm1) (body zm1)"
  shows "okE F (\<lambda>(r, zm'). zone_inv zm' \<and> grows zm zm')
    (bindE (body (zm\<lparr>zm_cos := (zm_cos zm)(coid \<mapsto> CoRunning)\<rparr>)) (\<lambda>r. Inr (k, co_finish coid r)))"
proof (rule okE_bind)
  let ?zm = "zm\<lparr>zm_cos := (zm_cos zm)(coid \<mapsto> CoRunning)\<rparr>"
  have z: "zone_inv ?zm" and g: "grows zm ?zm"
    by (rule zone_inv_frame [OF inv]; auto simp: co_ok_def split: if_splits)+
  show "okE F (body_ok ?zm) (body ?zm)" by (rule body [OF z refl])
  fix r assume "body_ok ?zm r"
  then show "okE F (\<lambda>(r, zm'). zone_inv zm' \<and> grows zm zm') (Inr (k, co_finish coid r))"
    using co_finish_ok [of "snd r" "fst r" coid] grows_trans [OF g]
    by (auto simp: body_ok_def intro: grows_trans)
qed

section \<open>Leaving\<close>

lemma Logout_save_ok:
  assumes inv: "zone_inv zm" and p: "has_player zm a" and r: "1 \<le> retry" "retry \<le> 3"
  shows "okE {} (body_ok zm) (Logout_save E a retry coid zm)"
proof -
  obtain s where s: "get_session a zm = Inr s" using p by (auto simp: has_player_def get_session_def)
  obtain role where role: "session_role a zm = Inr role"
    using session_role_ok [OF inv p] by (cases "session_role a zm") auto
  obtain x zm1 where u: "UpdateRole E (se_uid s) role coid ROLE_DB_UPDATE_LOGOUT zm = (x, zm1)" by fastforce
  have z: "zone_inv zm1" "grows zm zm1" using db_call_ok [OF inv] u by (auto simp: UpdateRole_def)
  have "has_player zm1 a" by (rule objs_player [OF grows_objs [OF z(2)] p])
  then show ?thesis
    using z r by (cases x) (auto simp: Logout_save_def s role u body_ok_def co_ok_def)
qed

lemma Logout_saved_ok:
  assumes "zone_inv zm" and "has_player zm a" and "0 \<le> retry" and "retry \<le> 2"
  shows "okE {} (body_ok zm) (Logout_saved E a retry ret coid zm)"
  using assms Logout_save_ok [OF assms(1,2), of retry] by (auto simp: Logout_saved_def body_ok_def int_one_le_iff_zero_less)

lemma Logout_ok:
  assumes inv: "zone_inv zm" and a: "zm_sessions zm a \<noteq> None"
  shows "okE {} (\<lambda>(r, zm'). zone_inv zm' \<and> grows zm zm') (LoginLogic_Logout E (Some a) zm)"
proof -
  obtain s where s: "zm_sessions zm a = Some s" using a by blast
  show ?thesis
  proof (cases "se_state s = PLAYER_STATE_PLAYING")
    case True
    then have p: "has_player zm a" using zone_inv_session [OF inv s] s by (simp add: session_ok_def has_player_def)
    have "okE {} (\<lambda>(r, zm'). zone_inv zm' \<and> grows zm zm')
        (bindE (SetState a PLAYER_STATE_OFFLINE zm) (co_create E (Logout_save E a 3)))"
    proof (rule okE_bind)
      show "okE {} (\<lambda>zm'. zone_inv zm' \<and> grows zm zm') (SetState a PLAYER_STATE_OFFLINE zm)"
        by (rule SetState_ok [OF inv a]) (simp add: player_state_defs)
      fix zm1 assume z: "zone_inv zm1 \<and> grows zm zm1"
      have "has_player zm1 a" using z p objs_player grows_objs by blast
      then have "okE {} (\<lambda>(r, zm'). zone_inv zm' \<and> grows zm1 zm') (co_create E (Logout_save E a 3) zm1)"
        unfolding co_create_def Let_def
        by (intro run_ok Logout_save_ok) (use z in \<open>auto simp: has_player_def\<close>)
      then show "okE {} (\<lambda>(r, zm'). zone_inv zm' \<and> grows zm zm') (co_create E (Logout_save E a 3) zm1)"
        by (rule okE_mono) (use z grows_trans in auto)
    qed
    then show ?thesis using s True by (simp add: LoginLogic_Logout_def get_session_def)
  qed (use s inv in \<open>simp add: LoginLogic_Logout_def get_session_def\<close>)
qed

text \<open>The session table still has an object under the key of the session.\<close>

definition registered :: "ZoneMgr \<Rightarrow> nat \<Rightarrow> bool" where
  "registered zm a \<longleftrightarrow> (\<exists>s m b. zm_sessions zm a = Some s \<and> m_mpZoneAgent zm (se_mgr s) = Some m
     \<and> m (se_uid s) = Some (Some b))"

lemma GetSession_ok:
  assumes inv: "zone_inv zm" and s: "zm_sessions zm a = Some s"
  shows "okE {} (\<lambda>(ptr, zm'). zone_inv zm' \<and> grows zm zm' \<and> zm_sessions zm' = zm_sessions zm
    \<and> (\<forall>b. ptr = Some b \<longrightarrow> zm_sessions zm b \<noteq> None) \<and> (registered zm a \<longrightarrow> ptr \<noteq> None))
    (GetSession (se_mgr s) (se_uid s) zm)"
proof -
  obtain m where m: "m_mpZoneAgent zm (se_mgr s) = Some m"
    using zone_inv_session [OF inv s] by (auto simp: session_ok_def)
  have e: "zm_sessions zm b \<noteq> None" if "m uid = Some (Some b)" for uid b
    using zone_inv_entry [OF inv m that] by auto
  let ?zm = "zm\<lparr>m_mpZoneAgent := (m_mpZoneAgent zm)(se_mgr s \<mapsto> m(0 \<mapsto> None))\<rparr>"
  have "zone_inv ?zm \<and> grows zm ?zm" if "m 0 = None"
  proof -
    have g: "grows zm ?zm" using m that by (auto simp: grows_def objs_def map_le_def)
    have "co_ok ?zm co = co_ok zm co" for co by (simp add: co_ok_def has_player_def split: login_co.splits)
    moreover have "session_ok ?zm b t" if "session_ok zm b t" for b t
      using that by (auto simp: session_ok_def)
    ultimately have "zone_inv ?zm" using inv m unfolding zone_inv_def by (auto split: if_splits)
    then show ?thesis using g by blast
  qed
  then show ?thesis
    using m e inv s by (auto simp: GetSession_def registered_def split: option.splits)
qed

lemma Kick_tail:
  assumes z: "zone_inv zm1" "grows zm zm1" "zm_sessions zm1 a \<noteq> None"
    and ptr: "\<forall>b. ptr = Some b \<longrightarrow> zm_sessions zm1 b \<noteq> None" "R \<longrightarrow> ptr \<noteq> None" and F: "R \<or> NullDeref \<in> F"
  shows "okE F (\<lambda>(r, zm'). zone_inv zm' \<and> grows zm zm')
    (bindE (LoginLogic_Logout E ptr zm1) (\<lambda>(_, zm).
     bindE (Session_ResponseClient E a EVENT_CLOSE CONNECTION_CLOSE_BY_DEFAULT None zm) (\<lambda>(_, zm).
     bindE (SetState a PLAYER_STATE_KICKING zm) (\<lambda>zm. Inr (0, zm)))))"
proof (cases ptr)
  case None
  then show ?thesis using ptr F by (auto simp: LoginLogic_Logout_def)
next
  case (Some b)
  let ?Q = "\<lambda>(r :: int, zm'). zone_inv zm' \<and> grows zm zm' \<and> zm_sessions zm' a \<noteq> None"
  have keep: "zm_sessions zm' a \<noteq> None" if "grows zm2 zm'" "zm_sessions zm2 a \<noteq> None" for zm2 zm'
    using that objs_session grows_objs by blast
  show ?thesis
  proof (rule okE_bind [where Q = ?Q])
    show "okE F ?Q (LoginLogic_Logout E ptr zm1)"
      unfolding Some
      by (rule okE_mono [OF Logout_ok]) (use z ptr(1) Some keep grows_trans in \<open>auto dest: objs_session [OF grows_objs]\<close>)
    fix x assume "?Q x"
    then obtain r zm2 where x: "x = (r, zm2)" and z2: "zone_inv zm2" "grows zm zm2" "zm_sessions zm2 a \<noteq> None"
      by (cases x) simp
    have "okE F ?Q (Session_ResponseClient E a EVENT_CLOSE CONNECTION_CLOSE_BY_DEFAULT None zm2)"
      by (rule okE_mono [OF ResponseClient_ok]) (use z2 grows_trans in auto)
    then show "okE F (\<lambda>(r, zm'). zone_inv zm' \<and> grows zm zm') (case x of (_, zm) \<Rightarrow>
       bindE (Session_ResponseClient E a EVENT_CLOSE CONNECTION_CLOSE_BY_DEFAULT None zm) (\<lambda>(_, zm).
       bindE (SetState a PLAYER_STATE_KICKING zm) (\<lambda>zm. Inr (0, zm))))"
      unfolding x prod.case
    proof (rule okE_bind)
      fix y assume "?Q y"
      then obtain k zm3 where y: "y = (k, zm3)" and z3: "zone_inv zm3" "grows zm zm3" "zm_sessions zm3 a \<noteq> None"
        by (cases y) simp
      have "okE F (\<lambda>zm'. zone_inv zm' \<and> grows zm3 zm') (SetState a PLAYER_STATE_KICKING zm3)"
        by (rule okE_mono [OF SetState_ok [OF z3(1,3)]]) (auto simp: player_state_defs)
      then show "okE F (\<lambda>(r, zm'). zone_inv zm' \<and> grows zm zm')
          (case y of (_, zm) \<Rightarrow> bindE (SetState a PLAYER_STATE_KICKING zm) (\<lambda>zm. Inr (0, zm)))"
        unfolding y prod.case by (rule okE_bind) (use z3(2) grows_trans in auto)
    qed
  qed
qed

lemma Kick_ok:
  assumes inv: "zone_inv zm" and a: "zm_sessions zm a \<noteq> None" and F: "registered zm a \<or> NullDeref \<in> F"
  shows "okE F (\<lambda>(r, zm'). zone_inv zm' \<and> grows zm zm') (Kick E a zm)"
proof -
  obtain s where s: "zm_sessions zm a = Some s" using a by blast
  have pl: "zm_players zm pa \<noteq> None" if "se_player s = Some pa" for pa
    using zone_inv_session [OF inv s] that by (simp add: session_ok_def)
  have "okE F (\<lambda>(r, zm'). zone_inv zm' \<and> grows zm zm')
      (bindE (case se_player s of None \<Rightarrow> Inr zm | Some pa \<Rightarrow> PlayerAgent_Detach pa zm) (\<lambda>zm.
         bindE (GetSession (se_mgr s) (se_uid s) zm) (\<lambda>(ptr, zm).
         bindE (LoginLogic_Logout E ptr zm) (\<lambda>(_, zm).
         bindE (Session_ResponseClient E a EVENT_CLOSE CONNECTION_CLOSE_BY_DEFAULT None zm) (\<lambda>(_, zm).
         bindE (SetState a PLAYER_STATE_KICKING zm) (\<lambda>zm. Inr (0, zm)))))))"
  proof (rule okE_bind)
    show "okE F (\<lambda>zm'. zone_inv zm' \<and> grows zm zm' \<and> zm_sessions zm' = zm_sessions zm
        \<and> m_mpZoneAgent zm' = m_mpZoneAgent zm)
        (case se_player s of None \<Rightarrow> Inr zm | Some pa \<Rightarrow> PlayerAgent_Detach pa zm)"
      using inv pl by (auto split: option.splits intro: okE_mono [OF Detach_ok])
    fix zm1 assume z1: "zone_inv zm1 \<and> grows zm zm1 \<and> zm_sessions zm1 = zm_sessions zm
        \<and> m_mpZoneAgent zm1 = m_mpZoneAgent zm"
    show "okE F (\<lambda>(r, zm'). zone_inv zm' \<and> grows zm zm')
        (bindE (GetSession (se_mgr s) (se_uid s) zm1) (\<lambda>(ptr, zm).
         bindE (LoginLogic_Logout E ptr zm) (\<lambda>(_, zm).
         bindE (Session_ResponseClient E a EVENT_CLOSE CONNECTION_CLOSE_BY_DEFAULT None zm) (\<lambda>(_, zm).
         bindE (SetState a PLAYER_STATE_KICKING zm) (\<lambda>zm. Inr (0, zm))))))"
    proof (rule okE_bind)
      have s1: "zm_sessions zm1 a = Some s" and r1: "registered zm1 a = registered zm a"
        using z1 s by (simp_all add: registered_def)
      show "okE F (\<lambda>(ptr, zm'). zone_inv zm' \<and> grows zm1 zm' \<and> zm_sessions zm' = zm_sessions zm1
        \<and> (\<forall>b. ptr = Some b \<longrightarrow> zm_sessions zm1 b \<noteq> None) \<and> (registered zm a \<longrightarrow> ptr \<noteq> None))
        (GetSession (se_mgr s) (se_uid s) zm1)"
        unfolding r1 [symmetric] by (rule okE_mono [OF GetSession_ok [OF _ s1]]) (use z1 in auto)
      fix x assume "(\<lambda>(ptr, zm'). zone_inv zm' \<and> grows zm1 zm' \<and> zm_sessions zm' = zm_sessions zm1
        \<and> (\<forall>b. ptr = Some b \<longrightarrow> zm_sessions zm1 b \<noteq> None) \<and> (registered zm a \<longrightarrow> ptr \<noteq> None)) x"
      then obtain ptr zm2 where x: "x = (ptr, zm2)" and z2: "zone_inv zm2" "grows zm zm2" "zm_sessions zm2 a \<noteq> None"
        and ptr: "\<forall>b. ptr = Some b \<longrightarrow> zm_sessions zm2 b \<noteq> None" "registered zm a \<longrightarrow> ptr \<noteq> None"
        using z1 a grows_trans by (cases x) auto
      show "okE F (\<lambda>(r, zm'). zone_inv zm' \<and> grows zm zm') (case x of (ptr, zm) \<Rightarrow>
         bindE (LoginLogic_Logout E ptr zm) (\<lambda>(_, zm).
         bindE (Session_ResponseClient E a EVENT_CLOSE CONNECTION_CLOSE_BY_DEFAULT None zm) (\<lambda>(_, zm).
         bindE (SetState a PLAYER_STATE_KICKING zm) (\<lambda>zm. Inr (0, zm)))))"
        unfolding x prod.case by (rule Kick_tail [OF z2 ptr F])
    qed
  qed
  then show ?thesis
    using inv unfolding Kick_def get_session_def s option.case bindE_simps
    by (cases "se_state s = PLAYER_STATE_KICKING") (simp_all only: if_True if_False okE_simps prod.case grows_refl simp_thms)
qed

section \<open>Logging in\<close>

lemma registered_grows: "grows zm zm' \<Longrightarrow> registered zm a \<Longrightarrow> registered zm' a"
  unfolding registered_def grows_def objs_def map_le_def by (metis domI)

text \<open>The situation of a login body: its session exists, and a fault by a null pointer is excluded
  while the session is in the table.\<close>

definition login_ctx :: "fault set \<Rightarrow> ZoneMgr \<Rightarrow> nat \<Rightarrow> bool" where
  "login_ctx F zm a \<longleftrightarrow> zone_inv zm \<and> zm_sessions zm a \<noteq> None \<and> NoReturn \<in> F
     \<and> (registered zm a \<or> NullDeref \<in> F)"

lemma login_ctx_grows: "login_ctx F zm a \<Longrightarrow> zone_inv zm' \<Longrightarrow> grows zm zm' \<Longrightarrow> login_ctx F zm' a"
  unfolding login_ctx_def using registered_grows objs_session grows_objs by blast

lemma body_ok_grows: "grows zm zm1 \<Longrightarrow> okE F (body_ok zm1) r \<Longrightarrow> okE F (body_ok zm) r"
  by (erule okE_mono) (auto simp: body_ok_def intro: grows_trans)

lemma kicked_ok: "login_ctx F zm a \<Longrightarrow> okE F (body_ok zm) (kicked (Kick E a zm))"
  unfolding kicked_def login_ctx_def by (rule okE_bind [OF Kick_ok]) (auto simp: body_ok_def)

lemma set_playing_ok:
  assumes "login_ctx F zm a" and "has_player zm a"
  shows "okE F (body_ok zm) (bindE (SetState a PLAYER_STATE_PLAYING zm) (\<lambda>zm. Inr (None, zm)))"
proof (rule okE_bind)
  show "okE F (\<lambda>zm'. zone_inv zm' \<and> grows zm zm') (SetState a PLAYER_STATE_PLAYING zm)"
    by (rule okE_mono [OF SetState_ok]) (use assms in \<open>auto simp: login_ctx_def\<close>)
qed (simp add: body_ok_def)

lemma Login_inserted_ok:
  "login_ctx F zm a \<Longrightarrow> has_player zm a \<Longrightarrow> okE F (body_ok zm) (Login_inserted E a ret zm)"
  by (simp add: Login_inserted_def set_playing_ok kicked_ok)

lemma Login_found_ok:
  assumes c: "login_ctx F zm a"
  shows "okE F (body_ok zm) (Login_found E a pRole zm)"
proof (cases pRole)
  case None
  then show ?thesis by (simp add: Login_found_def kicked_ok [OF c])
next
  case (Some r)
  obtain pa zm1 where n: "new_player (PlayerAgent_new (Some r) True) zm = (pa, zm1)" by fastforce
  have "zone_inv zm" using c by (simp add: login_ctx_def)
  then have z1: "zone_inv zm1" "grows zm zm1" and p: "zm_players zm1 pa = Some (PlayerAgent_new (Some r) True)"
    using new_player_ok [OF _ _ n] by (simp_all add: PlayerAgent_new_def)
  note c1 = login_ctx_grows [OF c z1]
  have "okE F (body_ok zm1) (bindE (AttachPlayerAgent E a pa zm1) (\<lambda>zm.
      bindE (SetState a PLAYER_STATE_PLAYING zm) (\<lambda>zm. Inr (None, zm))))"
  proof (rule okE_bind)
    show "okE F (\<lambda>zm'. zone_inv zm' \<and> grows zm1 zm' \<and> has_player zm' a) (AttachPlayerAgent E a pa zm1)"
      by (rule okE_mono [OF AttachPlayerAgent_ok [OF z1(1) _ p]]) (use c1 in \<open>auto simp: login_ctx_def\<close>)
    fix zm2 assume z2: "zone_inv zm2 \<and> grows zm1 zm2 \<and> has_player zm2 a"
    then show "okE F (body_ok zm1) (bindE (SetState a PLAYER_STATE_PLAYING zm2) (\<lambda>zm. Inr (None, zm)))"
      by (intro body_ok_grows [OF _ set_playing_ok] login_ctx_grows [OF c1]) auto
  qed
  then show ?thesis using body_ok_grows [OF z1(2)] by (simp add: Login_found_def Some n)
qed

lemma logic_birth_role:
  "pRoleData p \<noteq> None \<Longrightarrow> \<exists>p'. logic_OnInitBirthPlayer l p = Some p' \<and> pRoleData p' \<noteq> None"
  by (cases l) (auto simp: logic_OnInitBirthPlayer_def Let_def)

lemma InitBirthPlayer_role:
  assumes "pRoleData p \<noteq> None"
  shows "\<exists>p'. PlayerAgent_InitBirthPlayer p = Some p' \<and> pRoleData p' \<noteq> None"
proof -
  have "\<exists>p'. visit_all logic_OnInitBirthPlayer ls q = Some p' \<and> pRoleData p' \<noteq> None"
    if "pRoleData q \<noteq> None" for ls q
    using that
  proof (induction ls arbitrary: q)
    case (Cons nl ls)
    obtain q' where "logic_OnInitBirthPlayer (snd nl) q = Some q'" "pRoleData q' \<noteq> None"
      using logic_birth_role [OF Cons.prems] by blast
    then show ?case using Cons.IH [of q'] by (cases nl) simp
  qed simp
  then show ?thesis using assms by (simp add: PlayerAgent_InitBirthPlayer_def)
qed

lemma CreateRole_ok:
  assumes c: "login_ctx F zm a"
  shows "okE F (\<lambda>zm'. zone_inv zm' \<and> grows zm zm' \<and> has_player zm' a) (LoginLogic_CreateRole E a zm)"
proof -
  obtain s where s: "zm_sessions zm a = Some s" using c by (auto simp: login_ctx_def)
  let ?p = "PlayerAgent_new (Some (role_birth (se_uid s))) False"
  obtain pa zm1 where n: "new_player ?p zm = (pa, zm1)" by fastforce
  have "zone_inv zm" using c by (simp add: login_ctx_def)
  then have z1: "zone_inv zm1" "grows zm zm1" and p: "zm_players zm1 pa = Some ?p"
    using new_player_ok [OF _ _ n] by (simp_all add: PlayerAgent_new_def)
  note c1 = login_ctx_grows [OF c z1]
  have "okE F (\<lambda>zm'. zone_inv zm' \<and> grows zm zm' \<and> has_player zm' a)
      (bindE (AttachPlayerAgent E a pa zm1) (\<lambda>zm.
         case zm_players zm pa of
           None \<Rightarrow> Inl NullDeref
         | Some p \<Rightarrow>
             (case PlayerAgent_InitBirthPlayer p of
                None \<Rightarrow> Inl NullDeref
              | Some p \<Rightarrow> Inr (zm\<lparr>zm_players := (zm_players zm)(pa \<mapsto> p)\<rparr>))))"
  proof (rule okE_bind)
    show "okE F (\<lambda>zm'. zone_inv zm' \<and> grows zm1 zm' \<and> has_player zm' a \<and>
        (\<exists>p'. zm_players zm' pa = Some p' \<and> pRoleData p' = pRoleData ?p)) (AttachPlayerAgent E a pa zm1)"
      by (rule okE_mono [OF AttachPlayerAgent_ok [OF z1(1) _ p]]) (use c1 in \<open>auto simp: login_ctx_def\<close>)
    fix zm2 assume z2: "zone_inv zm2 \<and> grows zm1 zm2 \<and> has_player zm2 a \<and>
        (\<exists>p'. zm_players zm2 pa = Some p' \<and> pRoleData p' = pRoleData ?p)"
    then obtain q where q: "zm_players zm2 pa = Some q" "pRoleData q \<noteq> None" by (auto simp: PlayerAgent_new_def)
    obtain q' where b: "PlayerAgent_InitBirthPlayer q = Some q'" "pRoleData q' \<noteq> None"
      using InitBirthPlayer_role [OF q(2)] by blast
    have u: "zone_inv (zm2\<lparr>zm_players := (zm_players zm2)(pa \<mapsto> q')\<rparr>)"
      "grows zm2 (zm2\<lparr>zm_players := (zm_players zm2)(pa \<mapsto> q')\<rparr>)"
      using upd_player_ok [of zm2 pa q' "zm_ec zm2"] z2 q(1) b(2) by simp_all
    then show "okE F (\<lambda>zm'. zone_inv zm' \<and> grows zm zm' \<and> has_player zm' a) (case zm_players zm2 pa of
           None \<Rightarrow> Inl NullDeref
         | Some p \<Rightarrow>
             (case PlayerAgent_InitBirthPlayer p of
                None \<Rightarrow> Inl NullDeref
              | Some p \<Rightarrow> Inr (zm2\<lparr>zm_players := (zm_players zm2)(pa \<mapsto> p)\<rparr>)))"
      using q b z2 z1(2) by (auto simp: has_player_def intro: grows_trans)
  qed
  then show ?thesis using s n by (simp add: LoginLogic_CreateRole_def get_session_def)
qed

lemma Login_create_ok:
  assumes c: "login_ctx F zm a"
  shows "okE F (body_ok zm) (Login_create E a coid zm)"
  unfolding Login_create_def
proof (rule okE_bind)
  show "okE F (\<lambda>zm'. zone_inv zm' \<and> grows zm zm') (SetState a PLAYER_STATE_CREATING zm)"
    by (rule okE_mono [OF SetState_ok]) (use c in \<open>auto simp: login_ctx_def player_state_defs\<close>)
  fix zm1 assume z1: "zone_inv zm1 \<and> grows zm zm1"
  note c1 = login_ctx_grows [OF c, of zm1]
  show "okE F (body_ok zm) (bindE (LoginLogic_CreateRole E a zm1) (\<lambda>zm. bindE (get_session a zm) (\<lambda>s.
      bindE (session_role a zm) (\<lambda>r. case InsertRole E (se_uid s) r coid zm of
        (None, zm) \<Rightarrow> Inr (Some (CoInsertRole a), zm) | (Some ret, zm) \<Rightarrow> Login_inserted E a ret zm))))"
  proof (rule okE_bind [OF CreateRole_ok])
    show "login_ctx F zm1 a" using c1 z1 by blast
    fix zm2 assume z2: "zone_inv zm2 \<and> grows zm1 zm2 \<and> has_player zm2 a"
    then obtain s where s: "get_session a zm2 = Inr s" by (auto simp: has_player_def get_session_def)
    obtain role where r: "session_role a zm2 = Inr role"
      using session_role_ok [of zm2 a] z2 by (cases "session_role a zm2") auto
    obtain x zm3 where i: "InsertRole E (se_uid s) role coid zm2 = (x, zm3)" by fastforce
    have z3: "zone_inv zm3" "grows zm2 zm3"
      using db_call_ok [of zm2] z2 i by (auto simp: InsertRole_def)
    have g: "grows zm zm3" using z1 z2 z3(2) grows_trans by blast
    have p3: "has_player zm3 a" using objs_player [OF grows_objs [OF z3(2)]] z2 by blast
    have "okE F (body_ok zm3) (Login_inserted E a ret zm3)" for ret
      by (rule Login_inserted_ok [OF login_ctx_grows [OF c z3(1) g] p3])
    then show "okE F (body_ok zm) (bindE (get_session a zm2) (\<lambda>s. bindE (session_role a zm2) (\<lambda>r.
        case InsertRole E (se_uid s) r coid zm2 of
          (None, zm) \<Rightarrow> Inr (Some (CoInsertRole a), zm) | (Some ret, zm) \<Rightarrow> Login_inserted E a ret zm)))"
      using body_ok_grows [OF g] z3(1) g p3 by (cases x) (auto simp: s r i body_ok_def co_ok_def)
  qed
qed

lemma Login_loaded_ok:
  assumes c: "login_ctx F zm a"
  shows "okE F (body_ok zm) (Login_loaded E a pRole ret coid zm)"
proof -
  obtain s where "get_session a zm = Inr s" using c by (auto simp: login_ctx_def get_session_def)
  moreover have "zone_inv zm" using c by (simp add: login_ctx_def)
  ultimately show ?thesis
    using c by (auto simp: Login_loaded_def body_ok_def Login_found_ok Login_create_ok kicked_ok)
qed

lemma Login_start_ok:
  assumes c: "login_ctx F zm a"
  shows "okE F (body_ok zm) (Login_start E a coid zm)"
  unfolding Login_start_def
proof (rule okE_bind)
  show "okE F (\<lambda>zm'. zone_inv zm' \<and> grows zm zm') (SetState a PLAYER_STATE_LOADING zm)"
    by (rule okE_mono [OF SetState_ok]) (use c in \<open>auto simp: login_ctx_def player_state_defs\<close>)
  fix zm1 assume z1: "zone_inv zm1 \<and> grows zm zm1"
  then have c1: "login_ctx F zm1 a" using login_ctx_grows [OF c] by blast
  then obtain s where s: "get_session a zm1 = Inr s" by (auto simp: login_ctx_def get_session_def)
  have L: "okE F (body_ok zm) (Login_loaded E a pr ret coid zm2)" if "zone_inv zm2" "grows zm zm2" for pr ret zm2
    by (rule body_ok_grows [OF that(2) Login_loaded_ok [OF login_ctx_grows [OF c that]]])
  have G: "zone_inv zm2 \<and> grows zm zm2 \<and> co_ok zm2 (CoGetRole a)"
    if "GetRole E (se_uid s) coid zm1 = (x, zm2)" for x zm2
    using db_call_ok [of zm1, OF _ that [unfolded GetRole_def]] z1 c1
    by (auto simp: co_ok_def login_ctx_def intro: grows_trans)
  show "okE F (body_ok zm) (bindE (get_session a zm1) (\<lambda>s. case ze_find E (se_uid s) of
         Some r \<Rightarrow> Login_loaded E a (Some r) 0 coid zm1
       | None \<Rightarrow> (case GetRole E (se_uid s) coid zm1 of
              (None, zm) \<Rightarrow> Inr (Some (CoGetRole a), zm)
            | (Some ret, zm) \<Rightarrow> Login_loaded E a None ret coid zm)))"
    using z1 L G by (auto simp: s body_ok_def split: option.splits prod.splits)
qed

end
