(* ===== verification/ZoneProps.thy ===== *)
theory ZoneProps
  imports ZoneInv
begin

text \<open>
  The zone server as a state machine of gate messages and database answers, and its properties:
  consistency of its objects, absence of null pointers on the messages of a gate, completion of a
  login, and what goes wrong when a client leaves during its login or comes back through another
  gate.
\<close>

section \<open>Events\<close>

lemma OnDBAnswer_ok:
  assumes inv: "zone_inv zm"
  shows "okE {NoReturn, NullDeref} (\<lambda>(r, zm'). zone_inv zm' \<and> grows zm zm') (OnDBAnswer E ret coid zm)"
proof (cases "zm_cos zm coid")
  case None
  then show ?thesis using inv by (simp add: OnDBAnswer_def CommonCoroutineResume_def)
next
  case (Some co)
  have "okE {NoReturn, NullDeref} (\<lambda>(r, zm'). zone_inv zm' \<and> grows zm zm')
      (bindE (co_resume E co ret coid (zm\<lparr>zm_cos := (zm_cos zm)(coid \<mapsto> CoRunning)\<rparr>))
        (\<lambda>r. Inr (ze_resume E, co_finish coid r)))"
  proof (rule run_ok [OF inv])
    fix zm1 assume z1: "zone_inv zm1" "zm1 = zm\<lparr>zm_cos := (zm_cos zm)(coid \<mapsto> CoRunning)\<rparr>"
    have c: "co_ok zm co" by (rule zone_inv_co [OF inv Some])
    have h: "has_player zm1 a = has_player zm a" for a by (simp add: z1(2) has_player_def)
    have ctx: "login_ctx {NoReturn, NullDeref} zm1 a" if "zm_sessions zm a \<noteq> None" for a
      using that z1 by (simp add: login_ctx_def)
    show "okE {NoReturn, NullDeref} (body_ok zm1) (co_resume E co ret coid zm1)"
    proof (cases co)
      case CoRunning
      then show ?thesis using z1(1) by (simp add: co_resume_def body_ok_def co_ok_def)
    next
      case (CoGetRole a)
      then show ?thesis using c ctx [of a] by (simp add: co_resume_def co_ok_def Login_loaded_ok)
    next
      case (CoInsertRole a)
      then have "has_player zm a" using c by (simp add: co_ok_def)
      then show ?thesis using ctx [of a] CoInsertRole h [of a]
        by (auto simp: co_resume_def has_player_def intro!: Login_inserted_ok)
    next
      case (CoUpdateRole a retry)
      then show ?thesis using c z1(1)
        by (auto simp: co_resume_def co_ok_def h intro!: okE_mono [OF Logout_saved_ok])
    qed
  qed
  then show ?thesis using Some inv by (simp add: OnDBAnswer_def CommonCoroutineResume_def)
qed

lemma Login_ok:
  assumes "zone_inv zm" and "registered zm a"
  shows "okE {NoReturn} (\<lambda>(r, zm'). zone_inv zm' \<and> grows zm zm') (LoginLogic_Login E (Some a) zm)"
  unfolding LoginLogic_Login_def option.case co_create_def Let_def
proof (rule run_ok [OF assms(1)])
  fix zm1 coid assume "zone_inv zm1" "zm1 = zm\<lparr>zm_cos := (zm_cos zm)(coid \<mapsto> CoRunning)\<rparr>"
  then show "okE {NoReturn} (body_ok zm1) (Login_start E a coid zm1)"
    using assms(2) by (intro Login_start_ok) (auto simp: login_ctx_def registered_def)
qed

text \<open>A fresh session object entered into a table.\<close>

lemma new_session_ok:
  assumes inv: "zone_inv zm" and m: "m_mpZoneAgent zm z = Some m" and free: "FindSession m uid = None"
    and s: "se_uid s = uid" "se_mgr s = z" "se_player s = None" "se_state s \<noteq> PLAYER_STATE_PLAYING"
    and zm': "zm' = zm\<lparr>zm_sessions := (zm_sessions zm)(zm_next zm \<mapsto> s), zm_next := zm_next zm + 1,
      m_mpZoneAgent := (m_mpZoneAgent zm)(z \<mapsto> m(uid \<mapsto> Some (zm_next zm)))\<rparr>"
  shows "zone_inv zm' \<and> objs zm zm' \<and> registered zm' (zm_next zm)"
proof -
  have fresh: "zm_sessions zm (zm_next zm) = None"
    using zone_inv_session [OF inv, of "zm_next zm"] by (cases "zm_sessions zm (zm_next zm)") (auto simp: session_ok_def)
  have g: "objs zm zm'" using fresh by (auto simp: objs_def zm')
  have "session_ok zm' a t" if "zm_sessions zm' a = Some t" for a t
    using that zone_inv_session [OF inv, of a] s by (auto simp: zm' session_ok_def split: if_splits)
  moreover have "co_ok zm' co" if "zm_cos zm coid = Some co" for coid co
    using objs_co [OF g zone_inv_co [OF inv that]] .
  moreover have "pa < zm_next zm' \<and> pRoleData p \<noteq> None" if "zm_players zm pa = Some p" for pa p
    using zone_inv_role [OF inv that] by (simp add: zm')
  moreover have "\<exists>t. zm_sessions zm' a = Some t \<and> se_uid t = u \<and> se_mgr t = y"
    if "m_mpZoneAgent zm' y = Some m'" "m' u = Some (Some a)" for y m' u a
    using that zone_inv_entry [OF inv, of y] m s(1,2) fresh by (fastforce simp: zm' split: if_splits)
  moreover have "u = 0" if "m_mpZoneAgent zm' y = Some m'" "m' u = Some None" for y m' u
    using that inv m unfolding zone_inv_def zm' by (auto split: if_splits)
  ultimately have "zone_inv zm'" unfolding zone_inv_def by (simp add: zm')
  moreover have "registered zm' (zm_next zm)" using s by (simp add: registered_def zm')
  ultimately show ?thesis using g by blast
qed

lemma find_registered:
  assumes "zone_inv zm" and "m_mpZoneAgent zm z = Some m" and "FindSession m uid = Some a"
  shows "registered zm a" and "\<exists>s. zm_sessions zm a = Some s \<and> se_uid s = uid \<and> se_mgr s = z"
proof -
  have m: "m uid = Some (Some a)" using assms(3) by (simp add: FindSession_def split: option.splits)
  obtain s where s: "zm_sessions zm a = Some s" "se_uid s = uid" "se_mgr s = z"
    using zone_inv_entry [OF assms(1,2) m] by blast
  then show "\<exists>s. zm_sessions zm a = Some s \<and> se_uid s = uid \<and> se_mgr s = z" by blast
  show "registered zm a" using s m assms(2) by (auto simp: registered_def)
qed

lemma relogin_ok:
  assumes inv: "zone_inv zm" and m: "m_mpZoneAgent zm z = Some m" and a: "FindSession m uid = Some a"
  shows "okE {NoReturn} (\<lambda>(r, zm'). zone_inv zm' \<and> grows zm zm') (CreateSession E z uid gateid cnnx zm)"
proof -
  note R = find_registered [OF inv m a]
  let ?next = "\<lambda>(_ :: int, zm). bindE (upd_session a (Session_Init uid cnnx) zm) (\<lambda>zm.
    LoginLogic_Login E (case m_mpZoneAgent zm z of Some m \<Rightarrow> FindSession m uid | None \<Rightarrow> None) zm)"
  have "okE {NoReturn} (\<lambda>(r, zm'). zone_inv zm' \<and> grows zm zm') (bindE (Kick E a zm) ?next)"
  proof (rule okE_bind [OF Kick_ok [OF inv]])
    show "zm_sessions zm a \<noteq> None" using R(2) by auto
    show "registered zm a \<or> NullDeref \<in> {NoReturn}" using R(1) by blast
    fix x :: "int \<times> ZoneMgr" assume "case x of (r, zm') \<Rightarrow> zone_inv zm' \<and> grows zm zm'"
    then obtain r zm1 where x: "x = (r, zm1)" and z1: "zone_inv zm1" "grows zm zm1" by (cases x) simp
    obtain s where s: "zm_sessions zm1 a = Some s" "se_uid s = uid"
      using R(2) grows_objs [OF z1(2)] unfolding objs_def by blast
    have "okE {NoReturn} (\<lambda>(r, zm'). zone_inv zm' \<and> grows zm zm') (?next (r, zm1))"
      unfolding prod.case
    proof (rule okE_bind)
      show "okE {NoReturn} (\<lambda>zm'. zone_inv zm' \<and> grows zm1 zm') (upd_session a (Session_Init uid cnnx) zm1)"
        by (rule okE_mono [OF upd_session_ok [OF z1(1)]])
          (use s zone_inv_session [OF z1(1) s(1)] in \<open>auto simp: Session_Init_def session_ok_def\<close>)
      fix zm2 assume z2: "zone_inv zm2 \<and> grows zm1 zm2"
      then have g: "grows zm zm2" using z1(2) grows_trans by blast
      obtain m' where m': "m_mpZoneAgent zm2 z = Some m'" "m \<subseteq>\<^sub>m m'" using g m unfolding grows_def by blast
      have "m uid = Some (Some a)" using a by (simp add: FindSession_def split: option.splits)
      then have "m' uid = Some (Some a)" using m'(2) unfolding map_le_def by (metis domI)
      then have f: "FindSession m' uid = Some a" by (simp add: FindSession_def)
      have "okE {NoReturn} (\<lambda>(r, zm'). zone_inv zm' \<and> grows zm2 zm') (LoginLogic_Login E (Some a) zm2)"
        using z2 by (intro Login_ok registered_grows [OF g R(1)]) blast
      then show "okE {NoReturn} (\<lambda>(r, zm'). zone_inv zm' \<and> grows zm zm')
          (LoginLogic_Login E (case m_mpZoneAgent zm2 z of Some m \<Rightarrow> FindSession m uid | None \<Rightarrow> None) zm2)"
        unfolding m'(1) option.case f by (rule okE_mono) (use g grows_trans in auto)
    qed
    then show "okE {NoReturn} (\<lambda>(r, zm'). zone_inv zm' \<and> grows zm zm') (?next x)" by (simp only: x)
  qed
  then show ?thesis by (simp only: CreateSession_def m a option.case)
qed

lemma CreateSession_ok:
  assumes inv: "zone_inv zm" and z: "m_mpZoneAgent zm z \<noteq> None"
  shows "okE {NoReturn} (\<lambda>(r, zm'). zone_inv zm' \<and> objs zm zm') (CreateSession E z uid gateid cnnx zm)"
proof -
  obtain m where m: "m_mpZoneAgent zm z = Some m" using z by blast
  show ?thesis
  proof (cases "FindSession m uid")
    case (Some a)
    show ?thesis by (rule okE_mono [OF relogin_ok [OF inv m Some]]) (auto dest: grows_objs)
  next
    case None
    let ?zm = "zm\<lparr>zm_sessions := (zm_sessions zm)(zm_next zm \<mapsto> Session_Init uid cnnx (Session_new z gateid)),
      zm_next := zm_next zm + 1, m_mpZoneAgent := (m_mpZoneAgent zm)(z \<mapsto> m(uid \<mapsto> Some (zm_next zm)))\<rparr>"
    have n: "zone_inv ?zm \<and> objs zm ?zm \<and> registered ?zm (zm_next zm)"
      by (rule new_session_ok [OF inv m None])
        (simp_all add: Session_Init_def Session_new_def player_state_defs)
    have "okE {NoReturn} (\<lambda>(r, zm'). zone_inv zm' \<and> objs zm zm') (LoginLogic_Login E (Some (zm_next zm)) ?zm)"
      by (rule okE_mono [OF Login_ok]) (use n in \<open>auto dest: grows_objs intro: objs_trans\<close>)
    then show ?thesis by (simp add: CreateSession_def m None Let_def)
  qed
qed

lemma StopSession_ok:
  assumes inv: "zone_inv zm" and z: "m_mpZoneAgent zm z \<noteq> None"
  shows "okE {} (\<lambda>(r, zm'). zone_inv zm' \<and> objs zm zm') (StopSession E z gateid idx uid zm)"
proof -
  obtain m where m: "m_mpZoneAgent zm z = Some m" using z by blast
  show ?thesis
  proof (cases "FindSession m uid")
    case None
    then show ?thesis using inv by (simp add: StopSession_def m)
  next
    case (Some a)
    note R = find_registered [OF inv m Some]
    obtain s where s: "get_session a zm = Inr s" using R(2) by (auto simp: get_session_def)
    have "okE {} (\<lambda>(r, zm'). zone_inv zm' \<and> objs zm zm')
        (bindE (Kick E a zm) (\<lambda>(ret, zm). bindE (DeleteSession z uid zm) (\<lambda>zm. Inr (ret, zm))))"
    proof (rule okE_bind [OF Kick_ok [OF inv]])
      show "zm_sessions zm a \<noteq> None" "registered zm a \<or> NullDeref \<in> {}" using R by auto
      fix x assume "case x of (r, zm') \<Rightarrow> zone_inv zm' \<and> grows zm zm'"
      then obtain r zm1 where x: "x = (r, zm1)" and z1: "zone_inv zm1" "grows zm zm1" by (cases x) simp
      obtain m1 where m1: "m_mpZoneAgent zm1 z = Some m1" using z1(2) m unfolding grows_def by blast
      let ?zm = "zm1\<lparr>m_mpZoneAgent := (m_mpZoneAgent zm1)(z \<mapsto> m1(uid := None))\<rparr>"
      have so: "session_ok ?zm b t = session_ok zm1 b t" for b t by (auto simp: session_ok_def m1)
      have co: "co_ok ?zm c = co_ok zm1 c" for c by (simp add: co_ok_def has_player_def split: login_co.splits)
      have "zone_inv ?zm" using z1(1) m1 unfolding zone_inv_def so co by (auto split: if_splits)
      moreover have "objs zm ?zm" using grows_objs [OF z1(2)] by (simp add: objs_def)
      ultimately show "okE {} (\<lambda>(r, zm'). zone_inv zm' \<and> objs zm zm')
          (case x of (ret, zm) \<Rightarrow> bindE (DeleteSession z uid zm) (\<lambda>zm. Inr (ret, zm)))"
        by (simp add: x DeleteSession_def m1)
    qed
    then show ?thesis using inv by (simp add: StopSession_def m Some s)
  qed
qed

lemma session_player_ok:
  assumes "zone_inv zm" and "has_player zm a"
  shows "okE {} (\<lambda>p. pRoleData p \<noteq> None) (session_player a zm)"
  using assms zone_inv_session [of zm a] zone_inv_role [of zm]
  by (fastforce simp: session_player_def has_player_def get_session_def session_ok_def)

lemma Send_ok:
  assumes "zone_inv zm" and "zm_sessions zm a \<noteq> None"
  shows "okE {} (\<lambda>(r, zm'). zone_inv zm' \<and> objs zm zm') (Session_Send E a msg zm)"
proof -
  have "okE {} (\<lambda>(r, zm'). zone_inv zm' \<and> objs zm zm') (Session_ResponseClient E a EVENT_DATA i d zm)" for i d
    by (rule okE_mono [OF ResponseClient_ok [OF assms]]) (auto dest: grows_objs)
  then show ?thesis using assms by (auto simp: Session_Send_def get_session_def split: option.splits)
qed

lemma role_answer_ok: "okE {} (\<lambda>p. pRoleData p \<noteq> None) pl \<Longrightarrow> okE {} (\<lambda>_. True) (role_answer cmd pl)"
  by (cases pl) (auto simp: role_answer_def GetPlayerRoleBase_def GetPlayerRoleExt_def GetPlayerRoleMisc_def
      PlayerAgent_GetUID_def PlayerAgent_GetName_def)

lemma Handle_ok:
  assumes inv: "zone_inv zm" and a: "zm_sessions zm a \<noteq> None"
  shows "okE {} (\<lambda>(r, zm'). zone_inv zm' \<and> objs zm zm') (Handle E lua h a msg zm)"
proof -
  obtain s where s: "zm_sessions zm a = Some s" using a by blast
  have "okE {} (\<lambda>(r, zm'). zone_inv zm' \<and> objs zm zm') (Role_OnPlayingMsg E a msg zm)"
    if "se_state s = PLAYER_STATE_PLAYING"
  proof (cases "csm_role msg")
    case (Some req)
    have "has_player zm a" using zone_inv_session [OF inv s] s that by (simp add: session_ok_def has_player_def)
    then have "okE {} (\<lambda>_. True) (role_answer (rm_cmd req) (session_player a zm))"
      by (rule role_answer_ok [OF session_player_ok [OF inv]])
    then obtain rsp where r: "role_answer (rm_cmd req) (session_player a zm) = Inr rsp"
      by (cases "role_answer (rm_cmd req) (session_player a zm)") auto
    have "okE {} (\<lambda>(r, zm'). zone_inv zm' \<and> objs zm zm')
        (bindE (Session_Send E a m zm) (\<lambda>(_, zm). Inr (0 :: int, zm)))" for m
      by (rule okE_bind [OF Send_ok [OF inv a]]) auto
    then show ?thesis using inv by (simp add: Role_OnPlayingMsg_def Some r split: option.splits)
  qed (use inv in \<open>simp add: Role_OnPlayingMsg_def\<close>)
  then show ?thesis using inv s by (auto simp: Handle_def get_session_def split: CSMsgHandler.splits)
qed

lemma Dispatch_ok:
  assumes inv: "zone_inv zm" and z: "m_mpZoneAgent zm z \<noteq> None"
  shows "okE {} (\<lambda>(r, zm'). zone_inv zm' \<and> objs zm zm') (DispatchPlayerAgentMsg E lua d z ggc msg zm)"
proof -
  obtain m where m: "m_mpZoneAgent zm z = Some m" using z by blast
  let ?uid = "GetRoleID (ss_uid ggc) (ss_area ggc)"
  show ?thesis
  proof (cases "FindSession m ?uid")
    case (Some a)
    have "zm_sessions zm a \<noteq> None" using find_registered(2) [OF inv m Some] by auto
    then show ?thesis
      using Handle_ok [OF inv] inv by (simp add: DispatchPlayerAgentMsg_def m Some CSMsg_Dispatch_def split: option.splits)
  qed (use inv in \<open>simp add: DispatchPlayerAgentMsg_def m\<close>)
qed

lemma OnGateMessage_ok:
  assumes inv: "zone_inv zm" and F: "NoReturn \<in> F" "length (pData msg) < 2 \<Longrightarrow> OutOfBounds \<in> F"
  shows "okE F (\<lambda>(r, zm'). zone_inv zm' \<and> objs zm zm') (OnGateMessage E lua d msg zm)"
    (is "okE F ?Q _")
proof -
  have A: "okE F ?Q (Zone_AttachPlayerAgent E z g ggc zm)" if "m_mpZoneAgent zm z \<noteq> None" for z g ggc
    unfolding Zone_AttachPlayerAgent_def
    by (rule okE_bind [OF okE_mono [OF CreateSession_ok [OF inv that]]]) (use F in auto)
  have B: "okE F ?Q (DetachPlayerAgent E z g ggc zm)" if "m_mpZoneAgent zm z \<noteq> None" for z g ggc
    unfolding DetachPlayerAgent_def by (rule okE_mono [OF StopSession_ok [OF inv that]]) auto
  have C: "okE F ?Q (DispatchPlayerAgentMsg E lua d z ggc m zm)" if "m_mpZoneAgent zm z \<noteq> None" for z ggc m
    by (rule okE_mono [OF Dispatch_ok [OF inv that]]) auto
  have "okE F (\<lambda>_. True) (open_envelope (pData msg))" using F(2) by (simp add: open_envelope_def Let_def)
  then show ?thesis
    unfolding OnGateMessage_def
  proof (rule okE_bind)
    fix r :: "(byte list \<times> byte list) option"
    show "okE F ?Q (case r of None \<Rightarrow> Inr (-1, zm) | Some (head, cs) \<Rightarrow>
           (case ze_parse_ss E head of
              None \<Rightarrow> Inr (-1, zm)
            | Some ggc \<Rightarrow>
                if GetAgent (ss_area ggc) zm = None then Inr (-1, zm)
                else if ss_event ggc = EVENT_CONNECTED
                then Zone_AttachPlayerAgent E (ss_area ggc) (iSrc msg) ggc zm
                else if ss_event ggc = EVENT_CLOSE
                then DetachPlayerAgent E (ss_area ggc) (iSrc msg) ggc zm
                else if ss_event ggc = EVENT_DATA then
                  (case ze_parse_cs E cs of
                     None \<Rightarrow> Inr (-1, zm)
                   | Some csmsg \<Rightarrow> DispatchPlayerAgentMsg E lua d (ss_area ggc) ggc csmsg zm)
                else Inr (-1, zm)))"
      using inv A B C by (auto simp: GetAgent_def split: option.splits prod.splits)
  qed
qed

section \<open>Reachable states\<close>

definition ZoneMgr_new :: "(unit, nat) EventCenter \<Rightarrow> ChannelAgentMgr \<Rightarrow> ZoneMgr" where
  "ZoneMgr_new ec ch = \<lparr>m_mpZoneAgent = Map.empty, zm_sessions = Map.empty, zm_players = Map.empty,
     zm_next = 0, zm_cos = Map.empty, zm_ec = ec, zm_channels = ch, zm_requests = []\<rparr>"

datatype zone_event = ZoGate ChannelMessage | ZoDB int int

definition zone_handle ::
  "CSMsg ZoneEnv \<Rightarrow> lua_call \<Rightarrow> CSHandlers \<Rightarrow> zone_event \<Rightarrow> ZoneMgr \<Rightarrow> fault + int \<times> ZoneMgr" where
  "zone_handle E lua d ev zm =
     (case ev of ZoGate msg \<Rightarrow> OnGateMessage E lua d msg zm | ZoDB ret coid \<Rightarrow> OnDBAnswer E ret coid zm)"

inductive zone_reach :: "ZoneMgr \<Rightarrow> bool" where
  zone_start: "ZoneMgr_Init_zones ok areas (ZoneMgr_new ec ch) = (0, zm) \<Longrightarrow> zone_reach zm"
| zone_step: "zone_reach zm \<Longrightarrow> zone_handle E lua d ev zm = Inr (r, zm') \<Longrightarrow> zone_reach zm'"

lemma AddZone_inv: "zone_inv zm \<Longrightarrow> zone_inv (snd (AddZone z zm))"
  unfolding zone_inv_def AddZone_def
  by (auto simp: session_ok_def co_ok_def has_player_def split: if_splits login_co.splits)

lemma Init_zones_inv: "zone_inv zm \<Longrightarrow> zone_inv (snd (ZoneMgr_Init_zones ok areas zm))"
proof (induction areas arbitrary: zm)
  case (Cons z zs)
  then show ?case using AddZone_inv [OF Cons.prems, of z] by (auto split: prod.splits)
qed simp

lemma zone_inv_new: "zone_inv (ZoneMgr_new ec ch)"
  by (simp add: zone_inv_def ZoneMgr_new_def)

lemma zone_handle_inv: "zone_inv zm \<Longrightarrow> zone_handle E lua d ev zm = Inr (r, zm') \<Longrightarrow> zone_inv zm'"
  using OnGateMessage_ok [of zm UNIV] OnDBAnswer_ok [of zm E]
  by (cases ev) (fastforce simp: zone_handle_def dest: okE_Inr)+

lemma zone_reach_inv: "zone_reach zm \<Longrightarrow> zone_inv zm"
proof (induction rule: zone_reach.induct)
  case (zone_start ok areas ec ch zm)
  then show ?case using Init_zones_inv [OF zone_inv_new, of ok areas ec ch] by simp
next
  case (zone_step zm E lua d ev r zm')
  then show ?case using zone_handle_inv by blast
qed

section \<open>A login step by step\<close>

lemma autosync_fire_total:
  assumes "finite (dom (m_mpDelayEventParams ec))" and "dom (timer_pending (timerMgr ec)) \<noteq> UNIV"
  shows "\<exists>tid ec'. autosync_fire t zone n uid (ec, e) = Some (tid, ec', e)"
proof (cases "zone e uid")
  case None
  have "player_event EVENT_PLAYER_SYNC_DB" by (rule sync_is_player_event)
  then show ?thesis using None
    by (auto simp: autosync_fire_def FireEvent_def FireEvent_player_def player_event_def event_code_defs
        MAX_PLAYER_EVENT_DELAY_TIME_def)
next
  case (Some pl)
  show ?thesis
    by (rule autosync_fire_online [where zone = zone and e = e, OF Some assms, of t n]) blast
qed

text \<open>The timers and the parked events have room.\<close>

definition room :: "ZoneMgr \<Rightarrow> bool" where
  "room zm \<longleftrightarrow> finite (dom (m_mpDelayEventParams (zm_ec zm))) \<and> dom (timer_pending (timerMgr (zm_ec zm))) \<noteq> UNIV"

lemma Attach_new:
  assumes p: "zm_players zm pa = Some (PlayerAgent_new (Some r) f)" and room: "room zm"
  shows "\<exists>p' ec. PlayerAgent_Attach E pa zm = Inr (zm\<lparr>zm_players := (zm_players zm)(pa \<mapsto> p'), zm_ec := ec\<rparr>)
    \<and> pRoleData p' = Some r"
proof -
  let ?p = "PlayerAgent_new (Some r) f"
  obtain tid ec where t: "autosync_fire () GetZonePlayerAgentPtr (ze_notify E) (role_rid r) (zm_ec zm, zm) = Some (tid, ec, zm)"
    using autosync_fire_total [of "zm_ec zm" "()" GetZonePlayerAgentPtr "ze_notify E" "role_rid r" zm] room
    unfolding room_def by auto
  have "visit_all (logic_OnAttach E) (ptrLogic ?p) (?p, zm_ec zm, zm) = Some (?p\<lparr>as_dwTimerID := tid\<rparr>, ec, zm)"
    using t by (simp add: PlayerAgent_new_def InitLogic_map logic_OnAttach_def AutoSync_OnAttach_def PlayerAgent_GetUID_def)
  then have "PlayerAgent_Attach E pa zm
      = Inr (zm\<lparr>zm_players := (zm_players zm)(pa \<mapsto> ?p\<lparr>as_dwTimerID := tid\<rparr>), zm_ec := ec\<rparr>)"
    using p by (simp add: PlayerAgent_Attach_def PlayerAgent_new_def)
  moreover have "pRoleData (?p\<lparr>as_dwTimerID := tid\<rparr>) = Some r" by (simp add: PlayerAgent_new_def)
  ultimately show ?thesis by blast
qed

text \<open>A new client whose role has to be fetched: its session is in the table and waits.\<close>

definition waiting :: "'m ZoneEnv \<Rightarrow> u32 \<Rightarrow> u64 \<Rightarrow> int \<Rightarrow> GateSSMsg \<Rightarrow> ZoneMgr \<Rightarrow> ZoneMgr \<Rightarrow> bool" where
  "waiting E z uid gateid cnnx zm zm1 \<longleftrightarrow>
     (\<exists>m. m_mpZoneAgent zm z = Some m \<and> m_mpZoneAgent zm1 = (m_mpZoneAgent zm)(z \<mapsto> m(uid \<mapsto> Some (zm_next zm))))
   \<and> zm_sessions zm1 = (zm_sessions zm)(zm_next zm \<mapsto>
        (Session_Init uid cnnx (Session_new z gateid))\<lparr>se_state := PLAYER_STATE_LOADING\<rparr>)
   \<and> zm_cos zm1 = (zm_cos zm)(ze_new E (zm_cos zm) \<mapsto> CoGetRole (zm_next zm))
   \<and> zm_requests zm1 = zm_requests zm @ [DbGet uid (ze_new E (zm_cos zm))]
   \<and> zm_players zm1 = zm_players zm \<and> zm_next zm1 = zm_next zm + 1
   \<and> zm_ec zm1 = zm_ec zm \<and> zm_channels zm1 = zm_channels zm"

lemma CreateSession_waits:
  assumes m: "m_mpZoneAgent zm z = Some m" and new: "FindSession m uid = None"
    and E: "ze_find E uid = None" "ze_get E = 0" "ze_new E (zm_cos zm) \<noteq> 0"
  shows "\<exists>zm1. CreateSession E z uid gateid cnnx zm = Inr (ze_resume E, zm1) \<and> waiting E z uid gateid cnnx zm zm1"
proof -
  have u: "se_uid (Session_Init uid cnnx s) = uid" for s by (simp add: Session_Init_def)
  show ?thesis
    using m new E
    by (simp add: CreateSession_def Let_def LoginLogic_Login_def co_create_def Login_start_def SetState_def
        upd_session_def get_session_def u GetRole_def db_call_def co_finish_def waiting_def)
qed

lemma OnDBAnswer_loaded:
  assumes co: "zm_cos zm coid = Some (CoGetRole a)" "coid \<noteq> 0" and s: "zm_sessions zm a = Some s"
    and r: "ze_find E (se_uid s) = Some r" and room: "room zm"
  shows "\<exists>zm' p. OnDBAnswer E DATA_OK coid zm = Inr (ze_resume E, zm')
    \<and> zm_sessions zm' = (zm_sessions zm)(a \<mapsto> s\<lparr>se_player := Some (zm_next zm), se_state := PLAYER_STATE_PLAYING\<rparr>)
    \<and> m_mpZoneAgent zm' = m_mpZoneAgent zm \<and> zm_cos zm' = (zm_cos zm)(coid := None)
    \<and> zm_players zm' = (zm_players zm)(zm_next zm \<mapsto> p) \<and> pRoleData p = Some r"
proof -
  let ?zm0 = "zm\<lparr>zm_cos := (zm_cos zm)(coid \<mapsto> CoRunning)\<rparr>"
  obtain zm1 where n: "new_player (PlayerAgent_new (Some r) True) ?zm0 = (zm_next zm, zm1)"
    and zm1: "zm1 = ?zm0\<lparr>zm_players := (zm_players zm)(zm_next zm \<mapsto> PlayerAgent_new (Some r) True), zm_next := zm_next zm + 1\<rparr>"
    by (simp add: new_player_def)
  let ?zm2 = "zm1\<lparr>zm_sessions := (zm_sessions zm1)(a \<mapsto> s\<lparr>se_player := Some (zm_next zm)\<rparr>)\<rparr>"
  have "room ?zm2" "zm_players ?zm2 (zm_next zm) = Some (PlayerAgent_new (Some r) True)"
    using room by (simp_all add: room_def zm1)
  then obtain p ec where at: "PlayerAgent_Attach E (zm_next zm) ?zm2
      = Inr (?zm2\<lparr>zm_players := (zm_players ?zm2)(zm_next zm \<mapsto> p), zm_ec := ec\<rparr>)" "pRoleData p = Some r"
    using Attach_new by blast
  let ?zm3 = "?zm2\<lparr>zm_players := (zm_players ?zm2)(zm_next zm \<mapsto> p), zm_ec := ec\<rparr>"
  let ?zm4 = "?zm3\<lparr>zm_sessions := (zm_sessions ?zm3)(a \<mapsto> s\<lparr>se_player := Some (zm_next zm), se_state := PLAYER_STATE_PLAYING\<rparr>)\<rparr>"
  have "AttachPlayerAgent E a (zm_next zm) zm1 = Inr ?zm3"
    using at(1) s by (simp add: AttachPlayerAgent_def upd_session_def zm1)
  moreover have "SetState a PLAYER_STATE_PLAYING ?zm3 = Inr ?zm4" by (simp add: SetState_def upd_session_def)
  ultimately have "Login_found E a (Some r) ?zm0 = Inr (None, ?zm4)"
    using n by (simp add: Login_found_def)
  then have "co_resume E (CoGetRole a) DATA_OK coid ?zm0 = Inr (None, ?zm4)"
    using s r by (simp add: co_resume_def Login_loaded_def DATA_OK_def get_session_def)
  then have "OnDBAnswer E DATA_OK coid zm = Inr (ze_resume E, co_finish coid (None, ?zm4))"
    using co by (simp add: OnDBAnswer_def CommonCoroutineResume_def)
  then show ?thesis using at(2) by (auto simp: co_finish_def zm1)
qed

lemma Login_create_waits:
  assumes s: "zm_sessions zm a = Some s" and E: "ze_insert E = 0" "coid \<noteq> 0" and room: "room zm"
  shows "\<exists>zm' p. Login_create E a coid zm = Inr (Some (CoInsertRole a), zm')
    \<and> zm_sessions zm' = (zm_sessions zm)(a \<mapsto> s\<lparr>se_state := PLAYER_STATE_CREATING, se_player := Some (zm_next zm)\<rparr>)
    \<and> m_mpZoneAgent zm' = m_mpZoneAgent zm \<and> zm_players zm' (zm_next zm) = Some p"
proof -
  let ?s1 = "s\<lparr>se_state := PLAYER_STATE_CREATING\<rparr>"
  let ?zm1 = "zm\<lparr>zm_sessions := (zm_sessions zm)(a \<mapsto> ?s1)\<rparr>"
  let ?p = "PlayerAgent_new (Some (role_birth (se_uid s))) False"
  let ?zm2 = "?zm1\<lparr>zm_players := (zm_players zm)(zm_next zm \<mapsto> ?p), zm_next := zm_next zm + 1\<rparr>"
  let ?s3 = "s\<lparr>se_state := PLAYER_STATE_CREATING, se_player := Some (zm_next zm)\<rparr>"
  let ?zm3 = "?zm2\<lparr>zm_sessions := (zm_sessions zm)(a \<mapsto> ?s3)\<rparr>"
  have "room ?zm3" "zm_players ?zm3 (zm_next zm) = Some ?p" using room by (simp_all add: room_def)
  then obtain p ec where at: "PlayerAgent_Attach E (zm_next zm) ?zm3
      = Inr (?zm3\<lparr>zm_players := (zm_players ?zm3)(zm_next zm \<mapsto> p), zm_ec := ec\<rparr>)"
    "pRoleData p = Some (role_birth (se_uid s))" using Attach_new by blast
  obtain q where q: "PlayerAgent_InitBirthPlayer p = Some q" using InitBirthPlayer_role [of p] at(2) by auto
  have up: "upd_session a (\<lambda>s. s\<lparr>se_player := Some (zm_next zm)\<rparr>) ?zm2 = Inr ?zm3"
    by (simp add: upd_session_def)
  have "AttachPlayerAgent E a (zm_next zm) ?zm2
      = Inr (?zm3\<lparr>zm_players := (zm_players ?zm3)(zm_next zm \<mapsto> p), zm_ec := ec\<rparr>)"
    unfolding AttachPlayerAgent_def up bindE_simps by (rule at(1))
  then have cr: "LoginLogic_CreateRole E a ?zm1 = Inr (?zm3\<lparr>zm_players := (zm_players zm)(zm_next zm \<mapsto> q), zm_ec := ec\<rparr>)"
    using q by (simp add: LoginLogic_CreateRole_def get_session_def new_player_def)
  have "SetState a PLAYER_STATE_CREATING zm = Inr ?zm1" using s by (simp add: SetState_def upd_session_def)
  then show ?thesis
    using cr E by (auto simp: Login_create_def get_session_def session_role_def InsertRole_def db_call_def)
qed

lemma Kick_unregistered:
  assumes s: "zm_sessions zm a = Some s" "se_state s \<noteq> PLAYER_STATE_KICKING" "se_player s = Some pa"
    and p: "zm_players zm pa = Some p"
    and m: "m_mpZoneAgent zm (se_mgr s) = Some m" "m (se_uid s) = None" "FindSession m 0 = None"
  shows "Kick E a zm = Inl NullDeref"
proof -
  obtain ec where "visit_all logic_OnDetach (ptrLogic p) (p, zm_ec zm) = Some (p, ec)" using visit_detach by blast
  then have d: "PlayerAgent_Detach pa zm = Inr (zm\<lparr>zm_ec := ec\<rparr>)" using p by (simp add: PlayerAgent_Detach_def)
  have "m 0 = None \<or> m 0 = Some None" using m(3) by (auto simp: FindSession_def split: option.splits)
  then have "\<exists>zm'. GetSession (se_mgr s) (se_uid s) (zm\<lparr>zm_ec := ec\<rparr>) = Inr (None, zm')"
    using m by (auto simp: GetSession_def)
  then show ?thesis using s d by (auto simp: Kick_def get_session_def LoginLogic_Logout_def)
qed

section \<open>Masks\<close>

lemma and_0xFFFFFFFF: "x AND 0xFFFFFFFF = take_bit 32 (x :: 'a :: len word)"
  by (simp add: take_bit_eq_mask mask_eq_exp_minus_1)

lemma and_0xFFFF: "x AND 0xFFFF = take_bit 16 (x :: 'a :: len word)"
  by (simp add: take_bit_eq_mask mask_eq_exp_minus_1)

section \<open>A zone with one area\<close>

definition ggc42 :: "int \<Rightarrow> GateSSMsg" where
  "ggc42 ev = \<lparr>ss_event = ev, ss_idx = 3, ss_uid = 42, ss_area = 5, ss_ip = None, ss_port = None, ss_reason = None\<rparr>"

definition uid42 :: u64 where "uid42 = GetRoleID 42 5"

definition zenv :: "CSMsg ZoneEnv" where
  "zenv = \<lparr>ze_new = (\<lambda>cos. if cos 1 = None then 1 else 2), ze_resume = 0, ze_find = (\<lambda>_. None),
     ze_get = 0, ze_insert = 0, ze_update = 0, ze_ser_ss = (\<lambda>m. [of_int (ss_event m)]),
     ze_parse_ss = (\<lambda>bs. Some (ggc42 EVENT_CONNECTED)), ze_ser_cs = (\<lambda>m. [1]), ze_parse_cs = (\<lambda>bs. None),
     ze_post1 = True, ze_post2 = True, ze_notify = (\<lambda>_ _ _ _ _ s. Some s)\<rparr>"

definition zone5 :: ZoneMgr where
  "zone5 = (ZoneMgr_new centre0 one_channel)\<lparr>m_mpZoneAgent := [5 \<mapsto> Map.empty]\<rparr>"

lemma zone5_reach: "zone_reach zone5"
  by (rule zone_start [of "\<lambda>_. 0" "[5]"]) (simp add: zone5_def AddZone_def ZoneMgr_new_def)

lemma zone5_room: "room zone5"
proof -
  have "timer_pending TimerMgr_new = Map.empty"
    by (simp add: timer_pending_def TimerMgr_new_def fun_eq_iff)
  then show ?thesis by (simp add: room_def zone5_def ZoneMgr_new_def centre0_def)
qed

text \<open>The first client of the zone connects.\<close>

definition connect42 :: ChannelMessage where
  "connect42 = \<lparr>iSrc = 1, msg_seqence = 0, pData = seal_message [1] []\<rparr>"

lemma connect42_waits:
  "\<exists>zm. OnGateMessage zenv lua d connect42 zone5 = Inr (0, zm) \<and> zone_reach zm
    \<and> waiting zenv 5 uid42 1 (ggc42 EVENT_CONNECTED) zone5 zm"
proof -
  have "m_mpZoneAgent zone5 5 = Some Map.empty" by (simp add: zone5_def)
  from CreateSession_waits [OF this, of uid42 zenv 1 "ggc42 EVENT_CONNECTED"] obtain zm where
    c: "CreateSession zenv 5 uid42 1 (ggc42 EVENT_CONNECTED) zone5 = Inr (0, zm)"
      "waiting zenv 5 uid42 1 (ggc42 EVENT_CONNECTED) zone5 zm"
    by (auto simp: FindSession_def zenv_def zone5_def ZoneMgr_new_def)
  have "open_envelope (pData connect42) = Inr (Some ([1], []))"
    using proxy_env.unseal_seal [of "[1]" "[]"] by (simp add: connect42_def)
  then have m: "OnGateMessage zenv lua d connect42 zone5 = Inr (0, zm)"
    using c(1) by (simp add: OnGateMessage_def zenv_def [unfolded ggc42_def] GetAgent_def zone5_def
        Zone_AttachPlayerAgent_def connect42_def ggc42_def uid42_def)
  have "zone_reach zm" by (rule zone_step [OF zone5_reach, of zenv lua d "ZoGate connect42" 0])
    (simp add: zone_handle_def m)
  then show ?thesis using m c(2) by blast
qed

section \<open>Properties\<close>





text \<open>
  C9.  A login completes.  A new client's session enters the table and one request for its role goes
  to the database; when the database answers with the role, the session is in play, with that role,
  and still knows the gate and the slot the client came from.
\<close>

theorem login_completes:
  assumes "m_mpZoneAgent zm z = Some m" and "FindSession m uid = None" and "room zm"
    and "ze_find E uid = None" and "ze_get E = 0" and "ze_new E (zm_cos zm) \<noteq> 0" and "ze_find E' uid = Some r"
  shows "\<exists>zm1 zm2 m2 a s pa p. CreateSession E z uid gateid cnnx zm = Inr (ze_resume E, zm1)
    \<and> zm_requests zm1 = zm_requests zm @ [DbGet uid (ze_new E (zm_cos zm))]
    \<and> OnDBAnswer E' DATA_OK (ze_new E (zm_cos zm)) zm1 = Inr (ze_resume E', zm2)
    \<and> m_mpZoneAgent zm2 z = Some m2 \<and> FindSession m2 uid = Some a \<and> zm_sessions zm2 a = Some s
    \<and> se_state s = PLAYER_STATE_PLAYING \<and> se_gate s = word_of_int gateid \<and> se_idx s = sint (ss_idx cnnx)
    \<and> se_player s = Some pa \<and> zm_players zm2 pa = Some p \<and> pRoleData p = Some r"
proof -
  let ?co = "ze_new E (zm_cos zm)"
  obtain zm1 where c: "CreateSession E z uid gateid cnnx zm = Inr (ze_resume E, zm1)"
    and w: "waiting E z uid gateid cnnx zm zm1"
    using CreateSession_waits [OF assms(1,2,4,5,6)] by blast
  let ?s = "(Session_Init uid cnnx (Session_new z gateid))\<lparr>se_state := PLAYER_STATE_LOADING\<rparr>"
  have "zm_cos zm1 ?co = Some (CoGetRole (zm_next zm))" "zm_sessions zm1 (zm_next zm) = Some ?s" "room zm1"
    "ze_find E' (se_uid ?s) = Some r"
    using w assms(3,7) by (simp_all add: waiting_def room_def Session_Init_def)
  with OnDBAnswer_loaded [of zm1 ?co] assms(6) obtain zm2 p where
    a: "OnDBAnswer E' DATA_OK ?co zm1 = Inr (ze_resume E', zm2)"
      "zm_sessions zm2 = (zm_sessions zm1)(zm_next zm \<mapsto> ?s\<lparr>se_player := Some (zm_next zm1), se_state := PLAYER_STATE_PLAYING\<rparr>)"
      "m_mpZoneAgent zm2 = m_mpZoneAgent zm1" "zm_players zm2 = (zm_players zm1)(zm_next zm1 \<mapsto> p)" "pRoleData p = Some r"
    by blast
  show ?thesis
    using c w a assms(1) unfolding waiting_def
    by (intro exI [of _ zm1] exI [of _ zm2] exI [of _ "m(uid \<mapsto> Some (zm_next zm))"] exI [of _ "zm_next zm"]
        exI [of _ "?s\<lparr>se_player := Some (zm_next zm1), se_state := PLAYER_STATE_PLAYING\<rparr>"] exI [of _ "zm_next zm1"]
        exI [of _ p]) (auto simp: FindSession_def Session_Init_def Session_new_def)
qed

theorem login_completes_witness:
  "\<exists>zm1 zm2 a s. CreateSession zenv 5 uid42 1 (ggc42 EVENT_CONNECTED) zone5 = Inr (0, zm1)
    \<and> OnDBAnswer (zenv\<lparr>ze_find := (\<lambda>u. Some (role_birth u))\<rparr>) DATA_OK 1 zm1 = Inr (0, zm2)
    \<and> zm_sessions zm2 a = Some s \<and> se_state s = PLAYER_STATE_PLAYING \<and> se_gate s = 1 \<and> se_idx s = 3"
proof -
  have m: "m_mpZoneAgent zone5 5 = Some Map.empty" by (simp add: zone5_def)
  have e: "ze_new zenv (zm_cos zone5) = 1" "ze_resume zenv = 0" by (simp_all add: zenv_def zone5_def ZoneMgr_new_def)
  have g: "sint (ss_idx (ggc42 EVENT_CONNECTED)) = 3" by (simp add: ggc42_def)
  show ?thesis
    using login_completes [OF m _ zone5_room, of uid42 zenv "zenv\<lparr>ze_find := (\<lambda>u. Some (role_birth u))\<rparr>"
        "role_birth uid42" 1 "ggc42 EVENT_CONNECTED"] e g
    by (fastforce simp: FindSession_def zenv_def)
qed

text \<open>
  A client that leaves while its role is being fetched can bring the server down.  Its session is
  no longer in the table, but the suspended login goes on when the database says that the role does
  not exist; if then the insertion of the new role fails, the kick looks the session up, gets a null
  pointer and uses it.
\<close>

lemma late_insert_failure:
  assumes "zm_cos zm coid = Some (CoGetRole a)" and "coid \<noteq> 0" and "zm_sessions zm a = Some s"
    and "m_mpZoneAgent zm (se_mgr s) = Some m" and "m (se_uid s) = None" and "FindSession m 0 = None"
    and "room zm" and "ze_insert E = 0" and "ret \<noteq> DATA_OK"
  shows "\<exists>zm1. OnDBAnswer E DATA_NO_EXISTS coid zm = Inr (ze_resume E, zm1)
    \<and> OnDBAnswer E' ret coid zm1 = Inl NullDeref"
proof -
  let ?zm0 = "zm\<lparr>zm_cos := (zm_cos zm)(coid \<mapsto> CoRunning)\<rparr>"
  let ?s = "s\<lparr>se_state := PLAYER_STATE_CREATING, se_player := Some (zm_next zm)\<rparr>"
  have "zm_sessions ?zm0 a = Some s" "room ?zm0" using assms(3,7) by (simp_all add: room_def)
  from Login_create_waits [OF this(1) assms(8,2) this(2)] obtain zm1 p where
    c: "Login_create E a coid ?zm0 = Inr (Some (CoInsertRole a), zm1)"
      "zm_sessions zm1 a = Some ?s" "m_mpZoneAgent zm1 = m_mpZoneAgent zm" "zm_players zm1 (zm_next zm) = Some p"
    by (auto simp: fun_upd_same)
  let ?zm1 = "co_finish coid (Some (CoInsertRole a), zm1)"
  let ?zm2 = "?zm1\<lparr>zm_cos := (zm_cos ?zm1)(coid \<mapsto> CoRunning)\<rparr>"
  have "OnDBAnswer E DATA_NO_EXISTS coid zm = Inr (ze_resume E, ?zm1)"
    using assms(1,2) c(1)
    by (simp add: OnDBAnswer_def CommonCoroutineResume_def co_resume_def Login_loaded_def DATA_NO_EXISTS_def DATA_OK_def)
  moreover have "Kick E' a ?zm2 = Inl NullDeref"
    by (rule Kick_unregistered [where s = ?s and pa = "zm_next zm" and p = p and m = m])
      (use c assms(4-6) in \<open>simp_all add: co_finish_def player_state_defs\<close>)
  then have "OnDBAnswer E' ret coid ?zm1 = Inl NullDeref"
    using assms(2,9)
    by (simp add: OnDBAnswer_def CommonCoroutineResume_def co_finish_def co_resume_def Login_inserted_def kicked_def)
  ultimately show ?thesis by blast
qed

lemma late_insert_failure_witness:
  "\<exists>zm1. OnDBAnswer zenv DATA_NO_EXISTS 1 (zone5\<lparr>zm_cos := [1 \<mapsto> CoGetRole 0], zm_next := 1,
        zm_sessions := [0 \<mapsto> (Session_new 5 1)\<lparr>se_uid := uid42, se_state := PLAYER_STATE_KICKING\<rparr>]\<rparr>) = Inr (0, zm1)
    \<and> OnDBAnswer zenv 4 1 zm1 = Inl NullDeref"
proof -
  let ?z = "zone5\<lparr>zm_cos := [1 \<mapsto> CoGetRole 0], zm_next := 1,
    zm_sessions := [0 \<mapsto> (Session_new 5 1)\<lparr>se_uid := uid42, se_state := PLAYER_STATE_KICKING\<rparr>]\<rparr>"
  have "zm_cos ?z 1 = Some (CoGetRole 0)" by simp
  moreover have "room ?z" using zone5_room by (simp add: room_def)
  ultimately show ?thesis
    using late_insert_failure [of ?z 1 0 "(Session_new 5 1)\<lparr>se_uid := uid42, se_state := PLAYER_STATE_KICKING\<rparr>"
        Map.empty zenv 4 zenv]
    by (simp add: zone5_def Session_new_def FindSession_def zenv_def DATA_OK_def)
qed

text \<open>
  A player who logs in again keeps the session and with it the gate of the first login: whatever
  gate the new connection comes from, the answers go to the old one.
\<close>

lemma relogin_keeps_gate:
  assumes "zone_inv zm" and "m_mpZoneAgent zm z = Some m" and "FindSession m uid = Some a"
    and "zm_sessions zm a = Some s" and "CreateSession E z uid gateid cnnx zm = Inr (r, zm')"
  shows "\<exists>m' s'. m_mpZoneAgent zm' z = Some m' \<and> FindSession m' uid = Some a
    \<and> zm_sessions zm' a = Some s' \<and> se_gate s' = se_gate s"
proof -
  have g: "grows zm zm'" using okE_Inr [OF relogin_ok [OF assms(1-3)] assms(5)] by simp
  obtain m' where m': "m_mpZoneAgent zm' z = Some m'" "m \<subseteq>\<^sub>m m'" using g assms(2) unfolding grows_def by blast
  have "m uid = Some (Some a)" using assms(3) by (simp add: FindSession_def split: option.splits)
  then have "m' uid = Some (Some a)" using m'(2) unfolding map_le_def by (metis domI)
  moreover obtain s' where "zm_sessions zm' a = Some s'" "se_gate s' = se_gate s"
    using grows_objs [OF g] assms(4) unfolding objs_def by blast
  ultimately show ?thesis using m'(1) by (simp add: FindSession_def)
qed


text \<open>The zone with user 42 logging in from gate 1.\<close>

definition zone42 :: ZoneMgr where
  "zone42 = zone5\<lparr>m_mpZoneAgent := [5 \<mapsto> [uid42 \<mapsto> Some 0]], zm_next := 1,
     zm_sessions := [0 \<mapsto> (Session_Init uid42 (ggc42 EVENT_CONNECTED) (Session_new 5 1))\<lparr>se_state := PLAYER_STATE_LOADING\<rparr>]\<rparr>"

lemma zone42_inv: "zone_inv zone42"
  by (auto simp: zone_inv_def zone42_def zone5_def ZoneMgr_new_def session_ok_def Session_Init_def Session_new_def
      player_state_defs split: if_splits)

lemma zone42_relogin: "\<exists>r zm. CreateSession zenv 5 uid42 2 (ggc42 EVENT_CONNECTED) zone42 = Inr (r, zm)"
  by (simp add: CreateSession_def zone42_def FindSession_def Kick_def get_session_def GetSession_def
      LoginLogic_Logout_def Session_ResponseClient_def SetState_def upd_session_def LoginLogic_Login_def
      co_create_def Login_start_def GetRole_def db_call_def Session_Init_def Session_new_def player_state_defs
      zenv_def case_prod_beta Let_def)

lemma relogin_keeps_gate_witness:
  "\<exists>r zm s. CreateSession zenv 5 uid42 2 (ggc42 EVENT_CONNECTED) zone42 = Inr (r, zm)
    \<and> zm_sessions zm 0 = Some s \<and> se_gate s = 1"
proof -
  obtain r zm where c: "CreateSession zenv 5 uid42 2 (ggc42 EVENT_CONNECTED) zone42 = Inr (r, zm)"
    using zone42_relogin by blast
  have m: "m_mpZoneAgent zone42 5 = Some [uid42 \<mapsto> Some 0]" "FindSession [uid42 \<mapsto> Some 0] uid42 = Some 0"
    "\<exists>s. zm_sessions zone42 0 = Some s \<and> se_gate s = 1"
    by (simp_all add: zone42_def FindSession_def Session_Init_def Session_new_def)
  then obtain s where "zm_sessions zone42 0 = Some s" "se_gate s = 1" by blast
  then show ?thesis using relogin_keeps_gate [OF zone42_inv m(1,2) _ c] c by auto
qed

text \<open>
  A role identifier gives back the low 32 bits of the user and the low 16 bits of the area it was
  made from, and within these ranges different users or areas have different identifiers.
\<close>

lemma GetRoleID_roundtrip:
  "GetUidFromRoleID (GetRoleID uid area) = ucast uid \<and> GetAreaFromRoleID (GetRoleID uid area) = ucast area
    \<and> (GetRoleID uid area = GetRoleID uid' area'
       \<longleftrightarrow> (ucast uid :: u32) = ucast uid' \<and> (ucast area :: u16) = ucast area')"
proof -
  have u: "GetUidFromRoleID (GetRoleID u a) = ucast u" for u a
    unfolding GetUidFromRoleID_def GetRoleID_def and_0xFFFFFFFF and_0xFFFF
    by (rule bit_word_eqI) (auto simp: bit_simps)
  have r: "GetAreaFromRoleID (GetRoleID u a) = ucast a" for u a
    unfolding GetAreaFromRoleID_def GetRoleID_def and_0xFFFFFFFF and_0xFFFF
    by (rule bit_word_eqI) (auto simp: bit_simps)
  have "GetRoleID uid area = GetRoleID uid' area'"
    if "(ucast uid :: u32) = ucast uid'" "(ucast area :: u16) = ucast area'"
  proof -
    have "bit uid n = bit uid' n" if "n < 32" for n
      using arg_cong [OF \<open>ucast uid = ucast uid'\<close>, of "\<lambda>w. bit w n"] that by (simp add: bit_simps)
    moreover have "bit area n = bit area' n" if "n < 16" for n
      using arg_cong [OF \<open>ucast area = ucast area'\<close>, of "\<lambda>w. bit w n"] that by (simp add: bit_simps)
    ultimately show ?thesis
      unfolding GetRoleID_def and_0xFFFFFFFF and_0xFFFF by (intro bit_word_eqI) (auto simp: bit_simps)
  qed
  then show ?thesis using u r by metis
qed

end
