(* ===== verification/RedisAgent.thy ===== *)
theory RedisAgent
  imports Prelude
begin

text \<open>
  The redis client (\<open>datacenter/RedisAgent.h/.cpp\<close>): commands are handed to one of several
  connections together with a callback identifier; the caller's callback data waits in a pool
  until the reply comes or the time is over.

  \<open>hiredis\<close> and \<open>libev\<close> are parameters.  What a call of theirs answers is an argument: \<open>redis_io\<close>
  holds the value of \<open>rand()\<close>, whether \<open>hiredis\<close> takes the command, and the clock; an \<open>ev_event\<close> is a
  callback that the event loop makes.  The commands that \<open>hiredis\<close> has taken are logged in \<open>sent\<close>, the
  calls of the listener in \<open>told\<close>.  A buffer is its bytes; creating one does not fail.
\<close>

section \<open>State\<close>

text \<open>Types of a reply, \<open>hiredis.h\<close>.\<close>

definition REDIS_REPLY_STRING :: int where "REDIS_REPLY_STRING = 1"
definition REDIS_REPLY_NIL :: int where "REDIS_REPLY_NIL = 4"
definition REDIS_REPLY_STATUS :: int where "REDIS_REPLY_STATUS = 5"
definition REDIS_REPLY_ERROR :: int where "REDIS_REPLY_ERROR = 6"

lemmas reply_types = REDIS_REPLY_STRING_def REDIS_REPLY_NIL_def REDIS_REPLY_STATUS_def REDIS_REPLY_ERROR_def

record redisReply =
  rp_type :: int
  rp_integer :: int
  rp_str :: string

datatype redis_cmd = RGet string | RSet string string | RDel string | RSelect int

record RedisAddr =
  ra_ip :: string
  ra_port :: int
  dbidx :: u32

record RedisClientContext =
  rc_addr :: RedisAddr
  rc_ctx :: nat
  db_selected :: bool

record RedisAgentCallBack =
  ra_cb :: "byte list"
  ra_time :: u32

record RedisAgent =
  r_listener :: bool
  m_dwCallBackSeq :: u32
  m_mpCallBackPool :: "u32 \<rightharpoonup> RedisAgentCallBack"
  m_chkTimeOut :: u32
  redisCtxList :: "RedisClientContext list"
  m_iConnected :: int
  m_closing :: bool
  sent :: "(nat \<times> u32 \<times> redis_cmd) list"
  told :: "(redisReply option \<times> byte list \<times> bool) list"

record redis_io =
  io_rand :: nat
  io_ok :: bool
  io_now :: int

definition RedisAgent_new :: RedisAgent where
  "RedisAgent_new = \<lparr>r_listener = False, m_dwCallBackSeq = 1, m_mpCallBackPool = Map.empty, m_chkTimeOut = 5,
     redisCtxList = [], m_iConnected = 0, m_closing = False, sent = [], told = []\<rparr>"

section \<open>Commands\<close>

definition Command :: "redis_io \<Rightarrow> byte list \<Rightarrow> redis_cmd \<Rightarrow> RedisAgent \<Rightarrow> fault + int \<times> RedisAgent" where
  "Command io cb cmd s =
     (if redisCtxList s = [] then Inl DivByZero
      else
        let select = io_rand io mod length (redisCtxList s) in
        case probe (\<lambda>i. m_mpCallBackPool s i \<noteq> None) (m_dwCallBackSeq s) of
          None \<Rightarrow> Inl NoReturn
        | Some vp \<Rightarrow>
            if \<not> io_ok io then Inr (-1, s\<lparr>m_dwCallBackSeq := vp\<rparr>)
            else Inr (0, s\<lparr>m_dwCallBackSeq := vp + 1,
                           m_mpCallBackPool := (m_mpCallBackPool s)(vp \<mapsto>
                             \<lparr>ra_cb = cb, ra_time = word_of_int (io_now io)\<rparr>),
                           sent := sent s @ [(rc_ctx (redisCtxList s ! select), vp, cmd)]\<rparr>))"

definition Redis_Get :: "redis_io \<Rightarrow> string \<Rightarrow> byte list \<Rightarrow> RedisAgent \<Rightarrow> fault + int \<times> RedisAgent" where
  "Redis_Get io key cb = Command io cb (RGet key)"

definition Redis_Update :: "redis_io \<Rightarrow> string \<Rightarrow> string \<Rightarrow> byte list \<Rightarrow> RedisAgent \<Rightarrow> fault + int \<times> RedisAgent" where
  "Redis_Update io key obj cb = Command io cb (RSet key obj)"

definition Redis_Remove :: "redis_io \<Rightarrow> string \<Rightarrow> byte list \<Rightarrow> RedisAgent \<Rightarrow> fault + int \<times> RedisAgent" where
  "Redis_Remove io key cb = Command io cb (RDel key)"

definition SELECTDB_CB :: "byte list" where
  "SELECTDB_CB = map (\<lambda>c. of_nat (of_char c)) ''$SELECTDB''"

definition SelectDB :: "redis_io \<Rightarrow> int \<Rightarrow> RedisAgent \<Rightarrow> fault + RedisAgent" where
  "SelectDB io idx s =
     (if idx < 0 then Inl AssertFail
      else bindE (Command io (SELECTDB_CB @ [0]) (RSelect idx) s) (\<lambda>(r, s). Inr s))"

section \<open>Callbacks\<close>

definition FindCallBack :: "u32 \<Rightarrow> RedisAgent \<Rightarrow> RedisAgentCallBack option" where
  "FindCallBack cbid s = m_mpCallBackPool s cbid"

definition AllContextReady :: "RedisAgent \<Rightarrow> bool" where
  "AllContextReady s \<longleftrightarrow> list_all db_selected (redisCtxList s)"

text \<open>\<open>FindContext\<close> returns a pointer into the list: an index.\<close>

definition FindContext :: "nat \<Rightarrow> RedisAgent \<Rightarrow> nat option" where
  "FindContext c s = find_idx (\<lambda>x. c = rc_ctx x) (redisCtxList s)"

definition OnSelectDB :: "nat \<Rightarrow> redisReply option \<Rightarrow> RedisAgent \<Rightarrow> fault + RedisAgent" where
  "OnSelectDB c reply s =
     (case FindContext c s of
        None \<Rightarrow> Inr s
      | Some i \<Rightarrow>
          (case reply of
             None \<Rightarrow> Inl NullDeref
           | Some r \<Rightarrow>
               Inr (if rp_integer r = 0 \<and> rp_type r = REDIS_REPLY_STATUS
                    then s\<lparr>redisCtxList := (redisCtxList s)[i := (redisCtxList s ! i)\<lparr>db_selected := True\<rparr>]\<rparr>
                    else s)))"

text \<open>\<open>strstr\<close>: the C string in the buffer is searched; a buffer without NUL is read past its end.\<close>

fun contains :: "'a list \<Rightarrow> 'a list \<Rightarrow> bool" where
  "contains n [] \<longleftrightarrow> n = []"
| "contains n (x # xs) \<longleftrightarrow> take (length n) (x # xs) = n \<or> contains n xs"

definition is_select :: "byte list \<Rightarrow> bool" where
  "is_select cb = contains SELECTDB_CB (takeWhile (\<lambda>b. b \<noteq> 0) cb)"

definition tell :: "redisReply option \<Rightarrow> byte list \<Rightarrow> bool \<Rightarrow> RedisAgent \<Rightarrow> fault + RedisAgent" where
  "tell reply cb timeout s =
     (if r_listener s then Inr (s\<lparr>told := told s @ [(reply, cb, timeout)]\<rparr>) else Inl NullDeref)"

definition RedisAgent_OnCommand :: "nat \<Rightarrow> redisReply option \<Rightarrow> u32 \<Rightarrow> RedisAgent \<Rightarrow> fault + RedisAgent" where
  "RedisAgent_OnCommand c reply cbid s =
     (case FindCallBack cbid s of
        None \<Rightarrow> Inr s
      | Some pcb \<Rightarrow>
          if 0 \<notin> set (ra_cb pcb) then Inl OutOfBounds
          else
            bindE (if is_select (ra_cb pcb) then OnSelectDB c reply s else tell reply (ra_cb pcb) False s)
              (\<lambda>s. Inr (s\<lparr>m_mpCallBackPool := (m_mpCallBackPool s)(cbid := None)\<rparr>)))"

text \<open>\<open>ctx->addr.dbidx\<close> is unsigned and becomes an \<open>int\<close>.\<close>

definition ConnectCallback :: "redis_io \<Rightarrow> nat \<Rightarrow> bool \<Rightarrow> RedisAgent \<Rightarrow> fault + RedisAgent" where
  "ConnectCallback io c status s =
     (if status then
        let s = s\<lparr>m_iConnected := m_iConnected s + 1\<rparr> in
        case FindContext c s of
          None \<Rightarrow> Inl NullDeref
        | Some i \<Rightarrow> SelectDB io (sint (dbidx (rc_addr (redisCtxList s ! i)))) s
      else Inr s)"

definition DisConnectCallback :: "bool \<Rightarrow> RedisAgent \<Rightarrow> RedisAgent" where
  "DisConnectCallback status s = (if status then s\<lparr>m_iConnected := m_iConnected s - 1\<rparr> else s)"

datatype ev_event =
    EvConnect redis_io nat bool
  | EvDisconnect bool
  | EvReply nat "redisReply option" u32

fun ev_call :: "ev_event \<Rightarrow> RedisAgent \<Rightarrow> fault + RedisAgent" where
  "ev_call (EvConnect io c status) s = ConnectCallback io c status s"
| "ev_call (EvDisconnect status) s = Inr (DisConnectCallback status s)"
| "ev_call (EvReply c reply cbid) s = RedisAgent_OnCommand c reply cbid s"

fun ev_loop :: "ev_event list \<Rightarrow> RedisAgent \<Rightarrow> fault + RedisAgent" where
  "ev_loop [] s = Inr s"
| "ev_loop (e # es) s = bindE (ev_call e s) (ev_loop es)"

section \<open>Start, stop and polling\<close>

text \<open>\<open>conn i a\<close> is the context of the \<open>i\<close>-th \<open>redisAsyncConnect\<close>, \<open>None\<close> when it reports an error.\<close>

fun connect_all :: "(nat \<Rightarrow> RedisAddr \<Rightarrow> nat option) \<Rightarrow> nat \<Rightarrow> RedisAddr list \<Rightarrow> RedisAgent \<Rightarrow> int \<times> RedisAgent" where
  "connect_all conn i [] s = (0, s)"
| "connect_all conn i (a # as) s =
     (case conn i a of
        None \<Rightarrow> (-1, s)
      | Some c \<Rightarrow> connect_all conn (Suc i) as
          (s\<lparr>redisCtxList := redisCtxList s @ [\<lparr>rc_addr = a, rc_ctx = c, db_selected = False\<rparr>]\<rparr>))"

text \<open>The wait of \<open>3000000\<close> microseconds in rounds of \<open>3000\<close>; round \<open>k\<close> of the loop brings \<open>evs k\<close>.\<close>

fun wait_ready :: "(nat \<Rightarrow> ev_event list) \<Rightarrow> nat \<Rightarrow> RedisAgent \<Rightarrow> fault + RedisAgent" where
  "wait_ready evs 0 s = Inr s"
| "wait_ready evs (Suc k) s = (if AllContextReady s then Inr s else bindE (ev_loop (evs (Suc k)) s) (wait_ready evs k))"

definition RedisAgent_Init ::
  "(nat \<Rightarrow> RedisAddr \<Rightarrow> nat option) \<Rightarrow> ev_event list \<Rightarrow> (nat \<Rightarrow> ev_event list) \<Rightarrow> RedisAddr list
     \<Rightarrow> RedisAgent \<Rightarrow> fault + int \<times> RedisAgent" where
  "RedisAgent_Init conn ev0 evs addrList s =
     (if r_listener s then Inr (-1, s)
      else if addrList = [] then Inr (-1, s)
      else
        case connect_all conn 0 addrList s of (r, s) \<Rightarrow>
          if r \<noteq> 0 then Inr (-1, s)
          else
            bindE (ev_loop ev0 s) (\<lambda>s.
            bindE (wait_ready evs 1000 s) (\<lambda>s.
              if \<not> AllContextReady s then Inr (-1, s)
              else Inr (0, s\<lparr>r_listener := True, m_closing := False\<rparr>))))"

definition RedisAgent_Stop :: "RedisAgent \<Rightarrow> RedisAgent" where
  "RedisAgent_Stop s = (if m_closing s then s else s\<lparr>m_closing := True\<rparr>)"

text \<open>
  The two loops of \<open>CheckTimeOut\<close> differ in their guard: the second one also stops when
  \<open>m_chkTimeOut\<close> has passed \<open>m_dwCallBackSeq\<close>.  \<open>time + 5\<close> is computed with 32 bits.
\<close>

fun check_loop :: "bool \<Rightarrow> nat \<Rightarrow> int \<Rightarrow> RedisAgent \<Rightarrow> fault + RedisAgent" where
  "check_loop guarded 0 now s = Inr s"
| "check_loop guarded (Suc k) now s =
     (if guarded \<and> \<not> m_chkTimeOut s \<le> m_dwCallBackSeq s then Inr s
      else
        let i = m_chkTimeOut s in
        case m_mpCallBackPool s i of
          None \<Rightarrow> check_loop guarded k now (s\<lparr>m_chkTimeOut := i + 1\<rparr>)
        | Some e \<Rightarrow>
            if uint (ra_time e + 5) < now then
              bindE (tell None (ra_cb e) True s) (\<lambda>s.
                check_loop guarded k now
                  (s\<lparr>m_mpCallBackPool := (m_mpCallBackPool s)(i := None), m_chkTimeOut := i + 1\<rparr>))
            else Inr s)"

definition CheckTimeOut :: "int \<Rightarrow> int \<Rightarrow> RedisAgent \<Rightarrow> fault + RedisAgent" where
  "CheckTimeOut iChkNum now s =
     (if m_dwCallBackSeq s < m_chkTimeOut s then check_loop False (nat iChkNum) now s
      else
        bindE (check_loop True (nat iChkNum) now s) (\<lambda>s.
          Inr (if m_dwCallBackSeq s < m_chkTimeOut s then s\<lparr>m_chkTimeOut := m_dwCallBackSeq s\<rparr> else s)))"

definition RedisAgent_Polling :: "ev_event list \<Rightarrow> int \<Rightarrow> int \<Rightarrow> RedisAgent \<Rightarrow> fault + RedisAgent" where
  "RedisAgent_Polling evs now chkPerTick s =
     (if m_closing s then Inr s
      else bindE (ev_loop evs s) (CheckTimeOut chkPerTick now))"

section \<open>Every callback is kept or delivered, once\<close>

datatype redis_call = RCommand redis_io "byte list" redis_cmd | RPolling "ev_event list" int int

fun redis_step :: "redis_call \<Rightarrow> RedisAgent \<Rightarrow> fault + int \<times> RedisAgent" where
  "redis_step (RCommand io cb cmd) s = Command io cb cmd s"
| "redis_step (RPolling evs now n) s = bindE (RedisAgent_Polling evs now n s) (\<lambda>s. Inr (0, s))"

definition waiting :: "(u32 \<rightharpoonup> RedisAgentCallBack) \<Rightarrow> byte list \<Rightarrow> nat" where
  "waiting m cb = card {i. map_option ra_cb (m i) = Some cb}"

definition delivered :: "RedisAgent \<Rightarrow> byte list \<Rightarrow> nat" where
  "delivered s cb = count_list (map (\<lambda>(reply, cb, timeout). cb) (told s)) cb"

text \<open>The callbacks of clients; those of \<open>SelectDB\<close> are internal.\<close>

definition kept :: "RedisAgent \<Rightarrow> byte list \<Rightarrow> nat" where
  "kept s cb = (if is_select cb then 0 else waiting (m_mpCallBackPool s) cb + delivered s cb)"

fun redis_delta :: "redis_call \<Rightarrow> byte list \<Rightarrow> int" where
  "redis_delta (RCommand io cb cmd) k = (if k = cb \<and> \<not> is_select cb then 1 else 0)"
| "redis_delta (RPolling evs now n) k = 0"

lemma waiting_insert:
  assumes "m i = None"
  shows "waiting (m(i \<mapsto> e)) cb = waiting m cb + (if ra_cb e = cb then 1 else 0)"
proof -
  have "{j. map_option ra_cb ((m(i \<mapsto> e)) j) = Some cb}
      = (if ra_cb e = cb then insert i {j. map_option ra_cb (m j) = Some cb} else {j. map_option ra_cb (m j) = Some cb})"
    using assms by auto
  moreover have "i \<notin> {j. map_option ra_cb (m j) = Some cb}" using assms by simp
  ultimately show ?thesis by (simp add: waiting_def)
qed

lemma waiting_remove:
  assumes "m i = Some e"
  shows "waiting m cb = waiting (m(i := None)) cb + (if ra_cb e = cb then 1 else 0)"
proof -
  have "m = (m(i := None))(i \<mapsto> e)" using assms by auto
  then show ?thesis using waiting_insert [of "m(i := None)" i e cb] by simp
qed

lemma Command_kept:
  assumes "Command io cb cmd s = Inr (r, s')"
  shows "kept s' k = kept s k + (if r = 0 \<and> k = cb \<and> \<not> is_select cb then 1 else 0)"
proof -
  from assms obtain vp where vp: "probe (\<lambda>i. m_mpCallBackPool s i \<noteq> None) (m_dwCallBackSeq s) = Some vp"
    by (auto simp: Command_def Let_def split: if_splits option.splits)
  then have "m_mpCallBackPool s vp = None" using probe_Some_unused [OF vp] by simp
  then show ?thesis
    using assms vp by (auto simp: Command_def Let_def kept_def delivered_def waiting_insert split: if_splits)
qed

lemma tell_kept:
  assumes "m_mpCallBackPool s i = Some e" "tell reply (ra_cb e) t s = Inr s1"
  shows "kept (s1\<lparr>m_mpCallBackPool := (m_mpCallBackPool s1)(i := None), m_chkTimeOut := c\<rparr>) k = kept s k"
    "kept (s1\<lparr>m_mpCallBackPool := (m_mpCallBackPool s1)(i := None)\<rparr>) k = kept s k"
  using assms waiting_remove [of "m_mpCallBackPool s" i e k, OF assms(1)]
  by (auto simp: tell_def kept_def delivered_def split: if_splits)

lemma OnSelectDB_frame:
  "OnSelectDB c reply s = Inr s' \<Longrightarrow> m_mpCallBackPool s' = m_mpCallBackPool s \<and> told s' = told s
     \<and> m_dwCallBackSeq s' = m_dwCallBackSeq s \<and> m_chkTimeOut s' = m_chkTimeOut s \<and> m_closing s' = m_closing s"
  by (auto simp: OnSelectDB_def split: option.splits if_splits)

lemma OnCommand_kept:
  assumes "RedisAgent_OnCommand c reply cbid s = Inr s'"
  shows "kept s' k = kept s k"
proof (cases "m_mpCallBackPool s cbid")
  case None
  then show ?thesis using assms by (simp add: RedisAgent_OnCommand_def FindCallBack_def)
next
  case (Some e)
  show ?thesis
  proof (cases "is_select (ra_cb e)")
    case True
    then show ?thesis
      using assms Some waiting_remove [of "m_mpCallBackPool s" cbid e k, OF Some]
      by (auto simp: RedisAgent_OnCommand_def FindCallBack_def bindE_Inr kept_def delivered_def dest!: OnSelectDB_frame
          split: if_splits)
  next
    case False
    then show ?thesis
      using assms Some tell_kept(2) [OF Some, of reply False]
      by (auto simp: RedisAgent_OnCommand_def FindCallBack_def bindE_Inr split: if_splits)
  qed
qed

lemma Select_kept: "SelectDB io idx s = Inr s' \<Longrightarrow> kept s' k = kept s k"
proof -
  have "is_select (SELECTDB_CB @ [0])" by (simp add: is_select_def SELECTDB_CB_def)
  then show "SelectDB io idx s = Inr s' \<Longrightarrow> kept s' k = kept s k"
    by (auto simp: SelectDB_def bindE_Inr Command_kept split: if_splits)
qed

lemma ev_call_kept: "ev_call e s = Inr s' \<Longrightarrow> kept s' k = kept s k"
proof (cases e)
  case (EvConnect io c status)
  have "kept (s\<lparr>m_iConnected := n\<rparr>) k = kept s k" for n by (simp add: kept_def delivered_def)
  then show "ev_call e s = Inr s' \<Longrightarrow> ?thesis"
    by (auto simp: EvConnect ConnectCallback_def Let_def Select_kept split: if_splits option.splits)
next
  case (EvDisconnect status)
  show "ev_call e s = Inr s' \<Longrightarrow> ?thesis"
    by (auto simp: EvDisconnect DisConnectCallback_def kept_def delivered_def)
next
  case (EvReply c reply cbid)
  show "ev_call e s = Inr s' \<Longrightarrow> ?thesis" by (simp add: EvReply OnCommand_kept)
qed

lemma ev_loop_kept: "ev_loop es s = Inr s' \<Longrightarrow> kept s' k = kept s k"
  by (induction es arbitrary: s) (auto simp: bindE_Inr ev_call_kept)

lemma check_loop_kept: "check_loop g n now s = Inr s' \<Longrightarrow> kept s' k = kept s k"
proof (induction g n now s rule: check_loop.induct)
  case (2 g n now s)
  have c: "kept (s\<lparr>m_chkTimeOut := j\<rparr>) k = kept s k" for j by (simp add: kept_def delivered_def)
  show ?case
    using 2 by (auto simp: Let_def bindE_Inr tell_kept c split: if_splits option.splits)
qed simp

lemma Polling_kept: "RedisAgent_Polling evs now n s = Inr s' \<Longrightarrow> kept s' k = kept s k"
proof -
  have c: "kept (t\<lparr>m_chkTimeOut := j\<rparr>) k = kept t k" for t j by (simp add: kept_def delivered_def)
  show "RedisAgent_Polling evs now n s = Inr s' \<Longrightarrow> kept s' k = kept s k"
    by (auto simp: RedisAgent_Polling_def CheckTimeOut_def bindE_Inr c split: if_splits
        dest!: ev_loop_kept [of _ _ _ k] check_loop_kept [of _ _ _ _ _ k])
qed

interpretation redis_books: account redis_step "\<lambda>_. True" "\<lambda>_. True" kept redis_delta
proof unfold_locales
  fix s c r s'
  assume "redis_step c s = Inr (r, s')"
  then show "True \<and> (\<forall>k. int (kept s' k) = int (kept s k) + (if r = 0 then redis_delta c k else 0))"
    by (cases c) (auto simp: Command_kept Polling_kept bindE_Inr)
qed

text \<open>
  C25.  No callback is lost or delivered twice.  Over any sequence of commands and polls, with any
  replies, connects and timeouts in between, on an agent that starts with an empty pool: the
  number of times some callback data was delivered to the listener plus the number of times it is
  waiting is the number of accepted commands that carried it.
\<close>

theorem redis_callbacks_once:
  assumes "run_calls redis_step calls s = Inr (rs, s')"
    and "m_mpCallBackPool s = Map.empty" "told s = []" and "\<not> is_select cb"
  shows "int (waiting (m_mpCallBackPool s') cb) + int (delivered s' cb) = booked redis_delta calls rs cb"
proof -
  have "int (kept s' cb) = int (kept s cb) + booked redis_delta calls rs cb"
    using redis_books.run_keeps [OF _ _ assms(1)] by (simp add: list_all_def)
  then show ?thesis using assms(2-) by (simp add: kept_def waiting_def delivered_def)
qed

definition redis_demo_io :: redis_io where
  "redis_demo_io = \<lparr>io_rand = 7, io_ok = True, io_now = 100\<rparr>"

definition redis_demo :: RedisAgent where
  "redis_demo = RedisAgent_new\<lparr>r_listener := True,
     redisCtxList := [\<lparr>rc_addr = \<lparr>ra_ip = ''localhost'', ra_port = 6379, dbidx = 0\<rparr>, rc_ctx = 1, db_selected = True\<rparr>]\<rparr>"

lemma redis_demo_run:
  "run_calls redis_step [RCommand redis_demo_io [1, 0] (RGet ''k''), RPolling [EvReply 1 None 1] 101 1] redis_demo
     = Inr ([0, 0], redis_demo\<lparr>m_dwCallBackSeq := 2, m_mpCallBackPool := Map.empty, m_chkTimeOut := 6,
         sent := [(1, 1, RGet ''k'')], told := [(None, [1, 0], False)]\<rparr>)"
  by (simp add: Command_def redis_demo_def RedisAgent_new_def redis_demo_io_def probe_free RedisAgent_Polling_def
      RedisAgent_OnCommand_def FindCallBack_def is_select_def SELECTDB_CB_def tell_def CheckTimeOut_def)

theorem redis_callbacks_once_witness:
  "\<exists>rs s'. run_calls redis_step [RCommand redis_demo_io [1, 0] (RGet ''k''), RPolling [EvReply 1 None 1] 101 1] redis_demo
       = Inr (rs, s')
     \<and> int (waiting (m_mpCallBackPool s') [1, 0]) + int (delivered s' [1, 0]) = 1"
  using redis_callbacks_once [OF redis_demo_run, of "[1, 0]"]
  by (simp only: redis_demo_run) (simp add: redis_demo_def RedisAgent_new_def is_select_def SELECTDB_CB_def)

section \<open>Timeouts\<close>

definition expired :: "int \<Rightarrow> RedisAgentCallBack \<Rightarrow> bool" where
  "expired now e \<longleftrightarrow> uint (ra_time e + 5) < now"

text \<open>The identifiers from \<open>a\<close> on, \<open>n\<close> of them.\<close>

fun ids :: "u32 \<Rightarrow> nat \<Rightarrow> u32 list" where
  "ids a 0 = []"
| "ids a (Suc n) = a # ids (a + 1) n"

definition expire :: "u32 list \<Rightarrow> RedisAgent \<Rightarrow> RedisAgent" where
  "expire js s = s\<lparr>told := told s @ [(None, ra_cb e, True). e \<leftarrow> List.map_filter (m_mpCallBackPool s) js],
     m_mpCallBackPool := (m_mpCallBackPool s) |` (- set js)\<rparr>"

lemma uint_u32_suc: "uint (a :: u32) < 4294967295 \<Longrightarrow> uint (a + 1) = uint a + 1"
  using uint_ge_0 [of a] by (simp add: uint_word_ariths)

lemma set_ids:
  "uint a + int n \<le> 4294967296 \<Longrightarrow> i \<in> set (ids a n) \<longleftrightarrow> uint a \<le> uint i \<and> uint i < uint a + int n"
proof (induction n arbitrary: a)
  case 0
  then show ?case by simp
next
  case (Suc n)
  have i: "i = a \<longleftrightarrow> uint i = uint a" by (simp add: word_uint_eq_iff)
  show ?case
  proof (cases "n = 0")
    case True
    then show ?thesis using i by auto
  next
    case False
    then have "uint (a + 1) = uint a + 1" using Suc.prems by (intro uint_u32_suc) linarith
    then show ?thesis using Suc.IH [of "a + 1"] Suc.prems i by auto
  qed
qed

text \<open>A step of the second loop over a range whose callbacks have all expired.\<close>

lemma check_loop_expires:
  assumes "r_listener s" "uint (m_chkTimeOut s) + int n \<le> uint (m_dwCallBackSeq s) + 1"
    and "\<forall>i\<in>set (ids (m_chkTimeOut s) n). \<forall>e. m_mpCallBackPool s i = Some e \<longrightarrow> expired now e"
    and "uint (m_dwCallBackSeq s) < 4294967295"
  shows "check_loop True (n + k) now s
    = check_loop True k now ((expire (ids (m_chkTimeOut s) n) s)\<lparr>m_chkTimeOut := m_chkTimeOut s + of_nat n\<rparr>)"
  using assms
proof (induction n arbitrary: s)
  case 0
  then show ?case by (simp add: expire_def map_filter_simps restrict_map_def)
next
  case (Suc n)
  let ?a = "m_chkTimeOut s"
  have le: "?a \<le> m_dwCallBackSeq s" using Suc.prems(2) by (simp add: word_le_def)
  have a: "uint (?a + 1) = uint ?a + 1" using Suc.prems(2,4) by (intro uint_u32_suc) linarith
  have ni: "?a \<notin> set (ids (?a + 1) n)" using set_ids [of "?a + 1" n ?a] a Suc.prems(2,4) by simp
  define t where "t = (expire [?a] s)\<lparr>m_chkTimeOut := ?a + 1\<rparr>"
  have "check_loop True (Suc n + k) now s = check_loop True (n + k) now t"
  proof (cases "m_mpCallBackPool s ?a")
    case None
    then have "(m_mpCallBackPool s) |` (- {?a}) = m_mpCallBackPool s" by (auto simp: restrict_map_def fun_eq_iff)
    then show ?thesis using le None by (simp add: t_def expire_def map_filter_simps)
  next
    case (Some e)
    then have "expired now e" using Suc.prems(3) by simp
    moreover have "(m_mpCallBackPool s) |` (- {?a}) = (m_mpCallBackPool s)(?a := None)"
      by (auto simp: restrict_map_def fun_eq_iff)
    ultimately show ?thesis
      using le Some Suc.prems(1) by (simp add: t_def expire_def map_filter_simps tell_def expired_def Let_def)
  qed
  also have "\<dots> = check_loop True k now ((expire (ids (m_chkTimeOut t) n) t)\<lparr>m_chkTimeOut := m_chkTimeOut t + of_nat n\<rparr>)"
    using Suc.prems a by (intro Suc.IH) (auto simp: t_def expire_def restrict_map_def split: if_splits)
  also have "(expire (ids (m_chkTimeOut t) n) t)\<lparr>m_chkTimeOut := m_chkTimeOut t + of_nat n\<rparr>
      = (expire (ids ?a (Suc n)) s)\<lparr>m_chkTimeOut := ?a + of_nat (Suc n)\<rparr>"
  proof -
    have "List.map_filter (m_mpCallBackPool s |` (- {?a})) (ids (?a + 1) n)
        = List.map_filter (m_mpCallBackPool s) (ids (?a + 1) n)"
      using ni by (intro map_filter_cong_on) (auto simp: restrict_map_def)
    then show ?thesis
      by (simp add: t_def expire_def map_filter_simps restrict_map_def fun_eq_iff add.assoc split: option.split)
  qed
  finally show ?case .
qed

text \<open>
  When the pointer of the check is not ahead of the sequence number, one check that is long
  enough takes every callback in between out of the pool, provided all have expired, and reports
  each of them once to the listener as timed out, in the order of their identifiers; other
  callbacks stay, and the pointer ends at the sequence number.
\<close>

lemma CheckTimeOut_expires:
  assumes "r_listener s" "m_chkTimeOut s \<le> m_dwCallBackSeq s" "uint (m_dwCallBackSeq s) < 4294967295"
    and "js = ids (m_chkTimeOut s) (Suc (unat (m_dwCallBackSeq s - m_chkTimeOut s)))"
    and "\<forall>i\<in>set js. \<forall>e. m_mpCallBackPool s i = Some e \<longrightarrow> expired now e"
    and "int (length js) < n"
  shows "CheckTimeOut n now s = Inr ((expire js s)\<lparr>m_chkTimeOut := m_dwCallBackSeq s\<rparr>)"
proof -
  let ?d = "unat (m_dwCallBackSeq s - m_chkTimeOut s)"
  have "uint (m_dwCallBackSeq s - m_chkTimeOut s) = uint (m_dwCallBackSeq s) - uint (m_chkTimeOut s)"
    by (rule uint_minus_simple_alt [THEN iffD1, OF assms(2)])
  then have d: "uint (m_chkTimeOut s) + int (Suc ?d) \<le> uint (m_dwCallBackSeq s) + 1" by simp
  have len: "length (ids a m) = m" for a m by (induction m arbitrary: a) auto
  have "Suc ?d < nat n" using assms(6) unfolding assms(4) len by linarith
  then have "nat n = Suc ?d + Suc (nat n - Suc (Suc ?d))" by linarith
  then obtain k where k: "nat n = Suc ?d + Suc k" by (rule that)
  have e: "m_chkTimeOut s + of_nat (Suc ?d) = m_dwCallBackSeq s + 1" by simp
  have "check_loop True (nat n) now s
      = check_loop True (Suc k) now ((expire js s)\<lparr>m_chkTimeOut := m_dwCallBackSeq s + 1\<rparr>)"
    using check_loop_expires [OF assms(1) d assms(5) [unfolded assms(4)] assms(3), of "Suc k"]
    unfolding k e assms(4) .
  moreover have "\<not> m_dwCallBackSeq s + 1 \<le> m_dwCallBackSeq s"
    using uint_u32_suc [OF assms(3)] by (simp add: word_le_def)
  ultimately show ?thesis
    using assms(2) by (simp add: CheckTimeOut_def expire_def not_less)
qed

lemma CheckTimeOut_expires_witness:
  "let s = redis_demo\<lparr>m_dwCallBackSeq := 6, m_mpCallBackPool := [5 \<mapsto> \<lparr>ra_cb = [1, 0], ra_time = 100\<rparr>]\<rparr> in
   CheckTimeOut 10 200 s = Inr ((expire [5, 6] s)\<lparr>m_chkTimeOut := 6\<rparr>)"
  using CheckTimeOut_expires [where s = "redis_demo\<lparr>m_dwCallBackSeq := 6,
      m_mpCallBackPool := [5 \<mapsto> \<lparr>ra_cb = [1, 0], ra_time = 100\<rparr>]\<rparr>" and js = "[5, 6]" and now = 200 and n = 10]
  by (simp add: redis_demo_def RedisAgent_new_def expired_def Let_def)

text \<open>
  A tick of the server: a poll in which the event loop brings replies and disconnects, then some
  commands.
\<close>

record redis_tick =
  tk_evs :: "ev_event list"
  tk_now :: int
  tk_chk :: nat
  tk_cmds :: "(redis_io \<times> byte list \<times> redis_cmd) list"

fun issue :: "(redis_io \<times> byte list \<times> redis_cmd) list \<Rightarrow> RedisAgent \<Rightarrow> fault + RedisAgent" where
  "issue [] s = Inr s"
| "issue ((io, cb, cmd) # cs) s = bindE (Command io cb cmd s) (\<lambda>(r, s). issue cs s)"

fun run_ticks :: "redis_tick list \<Rightarrow> RedisAgent \<Rightarrow> fault + RedisAgent" where
  "run_ticks [] s = Inr s"
| "run_ticks (t # ts) s =
     bindE (RedisAgent_Polling (tk_evs t) (tk_now t) (int (tk_chk t)) s) (\<lambda>s.
     bindE (issue (tk_cmds t) s) (run_ticks ts))"

fun no_connect :: "ev_event \<Rightarrow> bool" where
  "no_connect (EvConnect _ _ _) = False"
| "no_connect _ = True"

definition quiet_tick :: "redis_tick \<Rightarrow> bool" where
  "quiet_tick t \<longleftrightarrow> list_all no_connect (tk_evs t) \<and> length (tk_cmds t) \<le> tk_chk t"

definition timeouts :: "RedisAgent \<Rightarrow> (redisReply option \<times> byte list \<times> bool) list" where
  "timeouts s = filter (\<lambda>(reply, cb, timeout). timeout) (told s)"

text \<open>The pointer of the check is ahead of all identifiers in use.\<close>

definition ahead :: "RedisAgent \<Rightarrow> bool" where
  "ahead s \<longleftrightarrow> \<not> m_closing s \<and> m_dwCallBackSeq s < m_chkTimeOut s
     \<and> (\<forall>i. m_mpCallBackPool s i \<noteq> None \<longrightarrow> i < m_dwCallBackSeq s)"

lemma ev_call_ahead:
  assumes "ev_call e s = Inr s'" "no_connect e" "ahead s"
  shows "ahead s' \<and> timeouts s' = timeouts s \<and> m_dwCallBackSeq s' = m_dwCallBackSeq s \<and> m_chkTimeOut s' = m_chkTimeOut s"
proof (cases e)
  case (EvReply c reply cbid)
  show ?thesis
    using assms unfolding EvReply
    by (auto simp: RedisAgent_OnCommand_def FindCallBack_def bindE_Inr ahead_def timeouts_def tell_def
        dest!: OnSelectDB_frame split: option.splits if_splits)
qed (use assms in \<open>auto simp: DisConnectCallback_def ahead_def timeouts_def split: if_splits\<close>)

lemma ev_loop_ahead:
  "ev_loop es s = Inr s' \<Longrightarrow> list_all no_connect es \<Longrightarrow> ahead s \<Longrightarrow>
     ahead s' \<and> timeouts s' = timeouts s \<and> m_dwCallBackSeq s' = m_dwCallBackSeq s \<and> m_chkTimeOut s' = m_chkTimeOut s"
proof (induction es arbitrary: s)
  case (Cons e es)
  then obtain s1 where s1: "ev_call e s = Inr s1" "ev_loop es s1 = Inr s'" by (auto simp: bindE_Inr)
  then show ?case using Cons.IH [OF s1(2)] ev_call_ahead [OF s1(1)] Cons.prems by simp
qed simp

lemma check_loop_ahead:
  assumes "ahead s" "uint (m_chkTimeOut s) + int k < 4294967296"
  shows "check_loop False k now s = Inr (s\<lparr>m_chkTimeOut := m_chkTimeOut s + of_nat k\<rparr>)
    \<and> uint (m_chkTimeOut s + of_nat k) = uint (m_chkTimeOut s) + int k"
  using assms
proof (induction k arbitrary: s)
  case (Suc k)
  let ?a = "m_chkTimeOut s" and ?t = "s\<lparr>m_chkTimeOut := m_chkTimeOut s + 1\<rparr>"
  have a: "uint (?a + 1) = uint ?a + 1" using Suc.prems(2) by (intro uint_u32_suc) linarith
  then have t: "ahead ?t" using Suc.prems(1) by (auto simp: ahead_def word_less_def)
  have "m_mpCallBackPool s ?a = None" using Suc.prems(1) by (auto simp: ahead_def dest: order.asym)
  then have "check_loop False (Suc k) now s = check_loop False k now ?t" by (simp add: Let_def)
  moreover have "uint (m_chkTimeOut ?t) + int k < 4294967296" using Suc.prems(2) a by simp
  ultimately show ?case using Suc.IH [OF t] a by (simp add: add.assoc)
qed simp

lemma Command_ahead:
  assumes "Command io cb cmd s = Inr (r, s')" "ahead s"
  shows "timeouts s' = timeouts s \<and> m_chkTimeOut s' = m_chkTimeOut s \<and> m_closing s' = m_closing s
    \<and> (\<forall>i. m_mpCallBackPool s' i \<noteq> None \<longrightarrow> i < m_dwCallBackSeq s')
    \<and> uint (m_dwCallBackSeq s') \<le> uint (m_dwCallBackSeq s) + 1"
proof -
  let ?q = "m_dwCallBackSeq s"
  have "m_mpCallBackPool s ?q = None" using assms(2) by (auto simp: ahead_def)
  then have p: "probe (\<lambda>i. m_mpCallBackPool s i \<noteq> None) ?q = Some ?q" by (simp add: probe_free)
  have "uint ?q < 4294967295"
    using assms(2) uint_bounded [of "m_chkTimeOut s"] by (simp add: ahead_def word_less_def)
  then have q: "uint (?q + 1) = uint ?q + 1" by (rule uint_u32_suc)
  then have "i < ?q \<Longrightarrow> i < ?q + 1" "?q < ?q + 1" for i by (simp_all add: word_less_def)
  then show ?thesis
    using assms p q by (auto simp: Command_def Let_def timeouts_def ahead_def split: if_splits)
qed

lemma issue_ahead:
  "issue cs s = Inr s' \<Longrightarrow> ahead s \<Longrightarrow> uint (m_dwCallBackSeq s) + int (length cs) < uint (m_chkTimeOut s) \<Longrightarrow>
     ahead s' \<and> timeouts s' = timeouts s \<and> m_chkTimeOut s' = m_chkTimeOut s"
proof (induction cs s rule: issue.induct)
  case (2 io cb cmd cs s)
  then obtain r t where t: "Command io cb cmd s = Inr (r, t)" "issue cs t = Inr s'" by (auto simp: bindE_Inr)
  note c = Command_ahead [OF t(1) "2.prems"(2)]
  have lt: "uint (m_dwCallBackSeq t) + int (length cs) < uint (m_chkTimeOut t)" using c "2.prems"(3) by simp
  then have "ahead t" using c "2.prems"(2) by (simp add: ahead_def word_less_def)
  then show ?case using "2.IH" [OF t(2) _ lt] c by simp
qed simp

text \<open>
  A lost reply is never reported.  The check of the timeouts starts ahead of the sequence
  number and stays ahead: on a server that issues in no tick more commands than it checks
  identifiers, no callback is ever reported as timed out, however long its reply is overdue,
  until the pointer of the check has run through all identifiers and wraps round.
\<close>

lemma timeouts_run_ahead:
  assumes "run_ticks ts s = Inr s'" "ahead s" "list_all quiet_tick ts"
    and "uint (m_chkTimeOut s) + int (sum_list (map tk_chk ts)) < 4294967296"
  shows "timeouts s' = timeouts s \<and> ahead s'"
  using assms
proof (induction ts arbitrary: s)
  case (Cons t ts)
  let ?n = "tk_chk t"
  obtain s1 s2 where s1: "RedisAgent_Polling (tk_evs t) (tk_now t) (int ?n) s = Inr s1"
      and s2: "issue (tk_cmds t) s1 = Inr s2" "run_ticks ts s2 = Inr s'"
    using Cons.prems(1) by (auto simp: bindE_Inr)
  have t: "list_all no_connect (tk_evs t)" "length (tk_cmds t) \<le> ?n" using Cons.prems(3) by (auto simp: quiet_tick_def)
  obtain s0 where s0: "ev_loop (tk_evs t) s = Inr s0" "CheckTimeOut (int ?n) (tk_now t) s0 = Inr s1"
    using s1 Cons.prems(2) by (auto simp: RedisAgent_Polling_def ahead_def bindE_Inr)
  note e = ev_loop_ahead [OF s0(1) t(1) Cons.prems(2)]
  have k: "uint (m_chkTimeOut s0) + int ?n < 4294967296" using e Cons.prems(4) by simp
  note c = check_loop_ahead [OF conjunct1 [OF e] k, of "tk_now t"]
  have i1: "s1 = s0\<lparr>m_chkTimeOut := m_chkTimeOut s0 + of_nat ?n\<rparr>"
  proof -
    have "m_dwCallBackSeq s0 < m_chkTimeOut s0" using conjunct1 [OF e] unfolding ahead_def by blast
    then show ?thesis using s0(2) c by (simp add: CheckTimeOut_def)
  qed
  then have i: "ahead s1" "timeouts s1 = timeouts s" "uint (m_chkTimeOut s1) = uint (m_chkTimeOut s) + int ?n"
      "uint (m_dwCallBackSeq s1) + int (length (tk_cmds t)) < uint (m_chkTimeOut s1)"
    using c e t(2) by (auto simp: ahead_def timeouts_def word_less_def)
  note j = issue_ahead [OF s2(1) i(1) i(4)]
  show ?case using Cons.IH [OF s2(2)] j i Cons.prems(3,4) by simp
qed simp

lemma timeouts_run_ahead_witness:
  "\<exists>s'. run_ticks [\<lparr>tk_evs = [], tk_now = 100, tk_chk = 1, tk_cmds = [(redis_demo_io, [1, 0], RGet ''k'')]\<rparr>,
       \<lparr>tk_evs = [], tk_now = 9999, tk_chk = 1, tk_cmds = []\<rparr>] redis_demo = Inr s'
     \<and> m_mpCallBackPool s' 1 = Some \<lparr>ra_cb = [1, 0], ra_time = 100\<rparr> \<and> timeouts s' = []"
proof -
  let ?ts = "[\<lparr>tk_evs = [], tk_now = 100, tk_chk = 1, tk_cmds = [(redis_demo_io, [1, 0], RGet ''k'')]\<rparr>,
       \<lparr>tk_evs = [], tk_now = 9999, tk_chk = 1, tk_cmds = []\<rparr>]"
  obtain s' where s': "run_ticks ?ts redis_demo = Inr s'"
      "m_mpCallBackPool s' 1 = Some \<lparr>ra_cb = [1, 0], ra_time = 100\<rparr>"
    by (simp add: Command_def redis_demo_def RedisAgent_new_def redis_demo_io_def probe_free RedisAgent_Polling_def
        CheckTimeOut_def)
  have "timeouts s' = timeouts redis_demo"
    using timeouts_run_ahead [OF s'(1)]
    by (simp add: ahead_def quiet_tick_def redis_demo_def RedisAgent_new_def)
  then show ?thesis using s' by (simp add: timeouts_def redis_demo_def RedisAgent_new_def)
qed

section \<open>Selecting the database\<close>

lemma wait_ready_idle: "wait_ready (\<lambda>_. []) k s = Inr s"
  by (induction k) auto

text \<open>
  \<open>SelectDB\<close> goes through \<open>Command\<close>, which picks a connection at random: when both connections
  of an agent come up and the draw falls on the first one twice, both \<open>SELECT\<close> go there and are
  answered, the second connection never becomes ready, and \<open>Init\<close> gives up.
\<close>

lemma select_misses_context:
  assumes "io_ok io" "io_rand io mod 2 = 0" "rp_type ok = REDIS_REPLY_STATUS" "rp_integer ok = 0"
    and "sint (dbidx a) \<ge> 0" "sint (dbidx b) \<ge> 0"
  shows "\<exists>s. RedisAgent_Init (\<lambda>i _. Some i)
       [EvConnect io 0 True, EvConnect io 1 True, EvReply 0 (Some ok) 1, EvReply 0 (Some ok) 2] (\<lambda>_. [])
       [a, b] RedisAgent_new = Inr (-1, s)
     \<and> map db_selected (redisCtxList s) = [True, False] \<and> m_mpCallBackPool s = Map.empty"
  using assms
  by (simp add: RedisAgent_Init_def RedisAgent_new_def ConnectCallback_def Let_def FindContext_def SelectDB_def
      Command_def probe_free probe_step RedisAgent_OnCommand_def FindCallBack_def OnSelectDB_def is_select_def
      SELECTDB_CB_def AllContextReady_def wait_ready_idle fun_eq_iff)

end
