(* ===== verification/Config.thy ===== *)
theory Config
  imports Decimal RedisAgent
begin

text \<open>
  Configuration: the tree of values (\<open>component/ConfigParser.h/.cpp\<close>), the parser of INI files
  (\<open>component/IniConfigParser.h/.cpp\<close>) and the configuration centre in redis
  (\<open>datacenter/ConfigCenter.h/.cpp\<close>).

  The \<open>iniparser\<close> library is a parameter, a record of its calls on a pointer to a dictionary of
  type \<open>'d\<close>.  The redis server is a parameter: what it answers to a command in a state of type \<open>'s\<close>.
\<close>

section \<open>Values\<close>

datatype ConfigValue = ConfigValue (cv_key: string) (cv_value: string) (cv_dic: "ConfigValue list")

definition prefixes :: "int \<Rightarrow> string \<Rightarrow> string" where
  "prefixes level prefix = concat (replicate (nat level) prefix)"

fun VisualConfig :: "ConfigValue \<Rightarrow> int \<Rightarrow> string \<Rightarrow> string"
  and VisualConfigs :: "ConfigValue list \<Rightarrow> int \<Rightarrow> string \<Rightarrow> string" where
  "VisualConfig (ConfigValue k v dic) level prefix =
     (if dic = [] then prefixes level prefix @ k @ '' <- ['' @ v @ '']'' @ [CHR 0x0A]
      else prefixes level prefix @ k @ '' <- ['' @ '']'' @ [CHR 0x0A] @ VisualConfigs dic (level + 1) prefix)"
| "VisualConfigs [] level prefix = []"
| "VisualConfigs (v # vs) level prefix = VisualConfig v level prefix @ VisualConfigs vs level prefix"

section \<open>INI files\<close>

record 'd ini =
  ini_load :: "string \<Rightarrow> 'd option"
  ini_new :: "'d option"
  ini_find :: "'d option \<Rightarrow> string \<Rightarrow> bool"
  ini_getstring :: "'d option \<Rightarrow> string \<Rightarrow> string option"
  ini_getint :: "'d option \<Rightarrow> string \<Rightarrow> int \<Rightarrow> int"
  ini_secnames :: "'d option \<Rightarrow> string list"
  ini_seckeys :: "'d option \<Rightarrow> string \<Rightarrow> string list"
  ini_set :: "string \<Rightarrow> string \<Rightarrow> 'd option \<Rightarrow> int \<times> 'd option"

record 'd IniConfigParser =
  rootValue :: ConfigValue
  ini_dic :: "'d option"

definition IniConfigParser_new :: "'d IniConfigParser" where
  "IniConfigParser_new = \<lparr>rootValue = ConfigValue ''root'' [] [], ini_dic = None\<rparr>"

definition SetRootName :: "string option \<Rightarrow> 'd IniConfigParser \<Rightarrow> 'd IniConfigParser" where
  "SetRootName name p =
     p\<lparr>rootValue := ConfigValue (case name of Some n \<Rightarrow> n | None \<Rightarrow> ''root'') (cv_value (rootValue p)) (cv_dic (rootValue p))\<rparr>"

abbreviation root_key :: "'d IniConfigParser \<Rightarrow> string" where
  "root_key p \<equiv> cv_key (rootValue p)"

definition full_key :: "string \<Rightarrow> string \<Rightarrow> string" where
  "full_key root key = (if key \<noteq> root \<and> CHR '':'' \<notin> set key then root @ '':'' @ key else key)"

text \<open>
  \<open>GetConfig\<close> calls itself on the keys of a section; the first argument bounds the depth of the calls.
  \<open>substr\<close> behind the end of a key raises an exception.
\<close>

fun each_key :: "(string \<Rightarrow> fault + int \<times> ConfigValue) \<Rightarrow> nat \<Rightarrow> string list \<Rightarrow> fault + ConfigValue list" where
  "each_key get n [] = Inr []"
| "each_key get n (k # ks) =
     bindE (get k) (\<lambda>(r, cv).
       if r \<noteq> 0 then each_key get n ks
       else if length (cv_key cv) < n then Inl OutOfBounds
       else bindE (each_key get n ks) (\<lambda>cvs. Inr (ConfigValue (drop n (cv_key cv)) (cv_value cv) (cv_dic cv) # cvs)))"

fun GetConfig :: "nat \<Rightarrow> 'd ini \<Rightarrow> 'd IniConfigParser \<Rightarrow> bool \<Rightarrow> ConfigValue \<Rightarrow> fault + int \<times> ConfigValue" where
  "GetConfig 0 I p bIsSec v = Inl NoReturn"
| "GetConfig (Suc n) I p bIsSec v =
     (let d = ini_dic p; k = cv_key v;
          key = (if k \<noteq> root_key p \<and> CHR '':'' \<notin> set k \<and> \<not> bIsSec then root_key p @ '':'' @ k else k) in
      if CHR '':'' \<notin> set k \<and> ini_find I d k then
        bindE (each_key (\<lambda>c. GetConfig n I p False (ConfigValue c [] [])) (length k + 1) (ini_seckeys I d k))
          (\<lambda>cvs. Inr (0, ConfigValue k (cv_value v) cvs))
      else
        case ini_getstring I d key of
          None \<Rightarrow> Inr (-1, v)
        | Some sv \<Rightarrow> Inr (0, ConfigValue k sv (cv_dic v)))"

fun read_sections :: "nat \<Rightarrow> 'd ini \<Rightarrow> string list \<Rightarrow> 'd IniConfigParser \<Rightarrow> fault + 'd IniConfigParser" where
  "read_sections n I [] p = Inr p"
| "read_sections n I (s # ss) p =
     (if root_key p = s then read_sections n I ss p
      else
        bindE (GetConfig n I p True (ConfigValue s [] [])) (\<lambda>(r, v).
          read_sections n I ss
            (p\<lparr>rootValue := ConfigValue (root_key p) (cv_value (rootValue p)) (cv_dic (rootValue p) @ [v])\<rparr>)))"

definition ReadConfigFile :: "nat \<Rightarrow> 'd ini \<Rightarrow> string \<Rightarrow> 'd IniConfigParser \<Rightarrow> fault + int \<times> 'd IniConfigParser" where
  "ReadConfigFile n I file p =
     (let p = p\<lparr>ini_dic := ini_load I file\<rparr> in
      if ini_dic p = None then Inr (-1, p)
      else
        bindE (GetConfig n I p False (rootValue p)) (\<lambda>(r, v).
        bindE (read_sections n I (ini_secnames I (ini_dic p)) (p\<lparr>rootValue := v\<rparr>)) (\<lambda>p. Inr (0, p))))"

definition GetConfigInt :: "'d ini \<Rightarrow> 'd IniConfigParser \<Rightarrow> string \<Rightarrow> int \<Rightarrow> int" where
  "GetConfigInt I p key dflt = ini_getint I (ini_dic p) (full_key (root_key p) key) dflt"

definition GetConfigString :: "'d ini \<Rightarrow> 'd IniConfigParser \<Rightarrow> string \<Rightarrow> string option \<Rightarrow> string" where
  "GetConfigString I p key dflt =
     (case ini_getstring I (ini_dic p) (full_key (root_key p) key) of
        Some s \<Rightarrow> s
      | None \<Rightarrow> (case dflt of Some s \<Rightarrow> s | None \<Rightarrow> []))"

text \<open>\<open>CreateConfig\<close> of a value whose key has become \<open>key\<close>.\<close>

definition insert_config :: "'d ini \<Rightarrow> string \<Rightarrow> string \<Rightarrow> string \<Rightarrow> 'd option \<Rightarrow> int \<times> 'd option" where
  "insert_config I root key val d =
     (let sect = (if CHR '':'' \<in> set key then takeWhile (\<lambda>c. c \<noteq> CHR '':'') key else root);
          k = (if CHR '':'' \<in> set key then key else root @ '':'' @ key);
          d1 = (if ini_find I d sect then d else snd (ini_set I sect [] d)) in
      ini_set I k val d1)"

fun create_config :: "'d ini \<Rightarrow> string \<Rightarrow> string \<Rightarrow> ConfigValue \<Rightarrow> 'd option \<Rightarrow> int \<times> 'd option"
  and create_configs :: "'d ini \<Rightarrow> string \<Rightarrow> string \<Rightarrow> ConfigValue list \<Rightarrow> 'd option \<Rightarrow> 'd option" where
  "create_config I root key (ConfigValue k v dic) d =
     (if dic \<noteq> [] then (0, create_configs I root key dic d) else insert_config I root key v d)"
| "create_configs I root key [] d = d"
| "create_configs I root key (c # cs) d =
     create_configs I root key cs (snd (create_config I root (key @ '':'' @ cv_key c) c d))"

definition CreateConfig :: "'d ini \<Rightarrow> ConfigValue \<Rightarrow> 'd IniConfigParser \<Rightarrow> int \<times> 'd IniConfigParser" where
  "CreateConfig I v p =
     (case create_config I (root_key p) (cv_key v) v (ini_dic p) of (r, d) \<Rightarrow> (r, p\<lparr>ini_dic := d\<rparr>))"

definition Ini_Create :: "'d ini \<Rightarrow> string option \<Rightarrow> 'd IniConfigParser \<Rightarrow> fault + int \<times> 'd IniConfigParser" where
  "Ini_Create I name p =
     (if ini_dic p \<noteq> None then Inl AssertFail
      else
        let p = p\<lparr>ini_dic := ini_new I\<rparr> in
        if ini_dic p = None then Inr (-1, p) else Inr (0, SetRootName name p))"

section \<open>The configuration centre\<close>

datatype cc_cmd = CCSelect int | CCPing | CCGet string | CCSet string string | CCDel string

type_synonym 's redis_server = "cc_cmd \<Rightarrow> 's \<Rightarrow> redisReply option \<times> 's"

text \<open>\<open>str\<close> of a reply is set for texts, states and errors only.\<close>

definition has_str :: "redisReply \<Rightarrow> bool" where
  "has_str r \<longleftrightarrow> rp_type r = REDIS_REPLY_STRING \<or> rp_type r = REDIS_REPLY_STATUS \<or> rp_type r = REDIS_REPLY_ERROR"

definition cc_code :: "redisReply option \<times> 's \<Rightarrow> fault + int \<times> 's" where
  "cc_code rs =
     (case fst rs of
        None \<Rightarrow> Inl NullDeref
      | Some r \<Rightarrow> Inr (if rp_type r = REDIS_REPLY_ERROR then -1 else 0, snd rs))"

definition HeartBeat :: "'s redis_server \<Rightarrow> 's \<Rightarrow> fault + int \<times> 's" where
  "HeartBeat srv s = cc_code (srv CCPing s)"

definition CC_Init :: "'s redis_server \<Rightarrow> bool \<Rightarrow> int \<Rightarrow> 's \<Rightarrow> fault + int \<times> 's" where
  "CC_Init srv connected idx s =
     (if \<not> connected then Inr (-1, s) else HeartBeat srv (snd (srv (CCSelect idx) s)))"

definition cc_key :: "string \<Rightarrow> string \<Rightarrow> string" where
  "cc_key cfg key = cfg @ '':'' @ key"

definition CC_RemoveConfig :: "'s redis_server \<Rightarrow> string \<Rightarrow> string \<Rightarrow> 's \<Rightarrow> fault + int \<times> 's" where
  "CC_RemoveConfig srv key cfg s = cc_code (srv (CCDel (cc_key cfg key)) s)"

text \<open>\<open>sc n t\<close> is the C string that \<open>STRNCPY\<close> leaves in a buffer of \<open>n\<close> bytes.\<close>

definition CC_GetConfig ::
  "'s redis_server \<Rightarrow> (nat \<Rightarrow> string \<Rightarrow> string) \<Rightarrow> string \<Rightarrow> string \<Rightarrow> 's \<Rightarrow> fault + string option \<times> 's" where
  "CC_GetConfig srv sc key cfg s =
     (case srv (CCGet (cc_key cfg key)) s of (reply, s') \<Rightarrow>
        (case reply of
           None \<Rightarrow> Inl NullDeref
         | Some r \<Rightarrow>
             if rp_type r = REDIS_REPLY_NIL then Inr (None, s')
             else if rp_type r = REDIS_REPLY_ERROR \<or> \<not> has_str r then Inr (None, s')
             else Inr (Some (sc (1024 * 1024) (c_str (rp_str r))), s')))"

definition CC_SetConfig :: "'s redis_server \<Rightarrow> string \<Rightarrow> string \<Rightarrow> string \<Rightarrow> 's \<Rightarrow> fault + int \<times> 's" where
  "CC_SetConfig srv key val cfg s = cc_code (srv (CCSet (cc_key cfg key) val) s)"

definition CC_SetConfigInt :: "'s redis_server \<Rightarrow> string \<Rightarrow> int \<Rightarrow> string \<Rightarrow> 's \<Rightarrow> fault + int \<times> 's" where
  "CC_SetConfigInt srv key val cfg s = CC_SetConfig srv key (take 19 (show_int val)) cfg s"

definition CC_GetConfigInt ::
  "'s redis_server \<Rightarrow> (nat \<Rightarrow> string \<Rightarrow> string) \<Rightarrow> string \<Rightarrow> int \<Rightarrow> string \<Rightarrow> 's \<Rightarrow> fault + int \<times> 's" where
  "CC_GetConfigInt srv sc key dflt cfg s =
     bindE (CC_GetConfig srv sc key cfg s) (\<lambda>(pv, s). Inr (case pv of None \<Rightarrow> dflt | Some t \<Rightarrow> strtol t, s))"

section \<open>What the libraries promise\<close>

text \<open>
  An INI dictionary: a value that was set is found under its key and others stay.  Keys are
  stored in lower case, so this holds for keys in lower case.  Decimal numbers are read as such,
  blanks behind them do not matter.
\<close>

definition lower_case :: "string \<Rightarrow> bool" where
  "lower_case k \<longleftrightarrow> (\<forall>c\<in>set k. c \<notin> set ''ABCDEFGHIJKLMNOPQRSTUVWXYZ'')"

lemma lower_case_append [simp]: "lower_case (a @ b) \<longleftrightarrow> lower_case a \<and> lower_case b"
  unfolding lower_case_def by (simp only: set_append ball_Un)

lemma lower_case_colon [simp]: "lower_case ('':'' @ b) \<longleftrightarrow> lower_case b" "lower_case (CHR '':'' # b) \<longleftrightarrow> lower_case b"
proof -
  have "lower_case '':''" by (simp add: lower_case_def)
  then show "lower_case ('':'' @ b) \<longleftrightarrow> lower_case b" unfolding lower_case_append by blast
  then show "lower_case (CHR '':'' # b) \<longleftrightarrow> lower_case b" by (simp only: append_Cons append_Nil)
qed

lemma lower_case_takeWhile: "lower_case k \<Longrightarrow> lower_case (takeWhile P k)"
  unfolding lower_case_def by (meson set_takeWhileD)

definition ini_laws :: "'d ini \<Rightarrow> bool" where
  "ini_laws I \<longleftrightarrow>
     (\<forall>d k v. lower_case k \<longrightarrow> (\<exists>d'. ini_set I k v (Some d) = (0, Some d')
        \<and> (\<forall>j. lower_case j \<longrightarrow> ini_getstring I (Some d') j = (if j = k then Some v else ini_getstring I (Some d) j))))
   \<and> (\<forall>d k. lower_case k \<longrightarrow> ini_find I d k = (ini_getstring I d k \<noteq> None))
   \<and> (\<forall>d k dflt. ini_getstring I d k = None \<longrightarrow> ini_getint I d k dflt = dflt)
   \<and> (\<forall>d k dflt n m. ini_getstring I d k = Some (show_int n @ replicate m (CHR '' '')) \<longrightarrow> ini_getint I d k dflt = n)"

text \<open>A redis server that keeps texts under keys and answers without an error.\<close>

definition server_laws :: "'s redis_server \<Rightarrow> ('s \<Rightarrow> string \<rightharpoonup> string) \<Rightarrow> bool" where
  "server_laws srv kv \<longleftrightarrow>
     (\<forall>s k v. kv (snd (srv (CCSet k v) s)) = (kv s)(k \<mapsto> v) \<and> (\<exists>r. fst (srv (CCSet k v) s) = Some r \<and> rp_type r = REDIS_REPLY_STATUS))
   \<and> (\<forall>s k. kv (snd (srv (CCGet k) s)) = kv s \<and> (\<exists>r. fst (srv (CCGet k) s) = Some r
        \<and> (case kv s k of None \<Rightarrow> rp_type r = REDIS_REPLY_NIL | Some v \<Rightarrow> rp_type r = REDIS_REPLY_STRING \<and> rp_str r = v)))
   \<and> (\<forall>s i. kv (snd (srv (CCSelect i) s)) = kv s)
   \<and> (\<forall>s. kv (snd (srv CCPing s)) = kv s \<and> (\<exists>r. fst (srv CCPing s) = Some r \<and> rp_type r = REDIS_REPLY_STATUS))"

section \<open>Trees survive\<close>

text \<open>The leaves of a tree with the keys they get in the file.\<close>

fun leaves :: "string \<Rightarrow> ConfigValue \<Rightarrow> (string \<times> string) list"
  and leaves_list :: "string \<Rightarrow> ConfigValue list \<Rightarrow> (string \<times> string) list" where
  "leaves key (ConfigValue k v dic) = (if dic = [] then [(key, v)] else leaves_list key dic)"
| "leaves_list key [] = []"
| "leaves_list key (c # cs) = leaves (key @ '':'' @ cv_key c) c @ leaves_list key cs"

definition insert_all :: "'d ini \<Rightarrow> string \<Rightarrow> (string \<times> string) list \<Rightarrow> 'd option \<Rightarrow> 'd option" where
  "insert_all I root kvs d = foldl (\<lambda>d (k, v). snd (insert_config I root k v d)) d kvs"

lemma insert_all_append: "insert_all I root (xs @ ys) d = insert_all I root ys (insert_all I root xs d)"
  by (simp add: insert_all_def)

lemma create_config_leaves:
  "snd (create_config I root key v d) = insert_all I root (leaves key v) d"
  "create_configs I root key vs d = insert_all I root (leaves_list key vs) d"
proof (induction I root key v d and I root key vs d rule: create_config_create_configs.induct)
  case (1 I root key k v dic d)
  then show ?case by (simp add: insert_all_def)
next
  case (2 I root key d)
  then show ?case by (simp add: insert_all_def)
next
  case (3 I root key c cs d)
  then show ?case by (simp add: insert_all_append)
qed

text \<open>The key under which \<open>CreateConfig\<close> stores a leaf.\<close>

definition stored_key :: "string \<Rightarrow> string \<Rightarrow> string" where
  "stored_key root key = (if CHR '':'' \<in> set key then key else root @ '':'' @ key)"

lemma insert_config_string:
  assumes I: "ini_laws I" and lc: "lower_case root" "lower_case key" "lower_case j" and j: "CHR '':'' \<in> set j"
    and r: "CHR '':'' \<notin> set root"
  shows "\<exists>d'. insert_config I root key v (Some d) = (0, Some d')
    \<and> ini_getstring I (Some d') j = (if j = stored_key root key then Some v else ini_getstring I (Some d) j)"
proof -
  define sect where "sect = (if CHR '':'' \<in> set key then takeWhile (\<lambda>c. c \<noteq> CHR '':'') key else root)"
  have sect: "lower_case sect" "CHR '':'' \<notin> set sect"
    using lc r set_takeWhileD [of "CHR '':''" "\<lambda>c. c \<noteq> CHR '':''" key] by (auto simp: sect_def lower_case_takeWhile)
  have k: "lower_case (stored_key root key)" using lc by (simp add: stored_key_def)
  obtain d1 where d1: "(if ini_find I (Some d) sect then Some d else snd (ini_set I sect [] (Some d))) = Some d1"
      "ini_getstring I (Some d1) j = ini_getstring I (Some d) j"
  proof (cases "ini_find I (Some d) sect")
    case True
    then show thesis using that by simp
  next
    case False
    obtain d1 where "ini_set I sect [] (Some d) = (0, Some d1)"
        "\<forall>j. lower_case j \<longrightarrow> ini_getstring I (Some d1) j = (if j = sect then Some [] else ini_getstring I (Some d) j)"
      using I sect(1) unfolding ini_laws_def by blast
    moreover have "j \<noteq> sect" using sect(2) j by blast
    ultimately show thesis using that [of d1] False lc(3) by simp
  qed
  obtain d2 where "ini_set I (stored_key root key) v (Some d1) = (0, Some d2)"
      "\<forall>j. lower_case j \<longrightarrow> ini_getstring I (Some d2) j = (if j = stored_key root key then Some v else ini_getstring I (Some d1) j)"
    using I k unfolding ini_laws_def by blast
  then show ?thesis using d1 lc(3) by (simp add: insert_config_def Let_def flip: stored_key_def sect_def)
qed

lemma insert_all_string:
  assumes "ini_laws I" "lower_case root" "lower_case j" "CHR '':'' \<in> set j" "CHR '':'' \<notin> set root"
    and "\<forall>(k, v)\<in>set kvs. lower_case k"
  shows "\<exists>d'. insert_all I root kvs (Some d) = Some d'
    \<and> ini_getstring I (Some d') j = (case map_of (rev (map (\<lambda>(k, v). (stored_key root k, v)) kvs)) j of
        Some v \<Rightarrow> Some v | None \<Rightarrow> ini_getstring I (Some d) j)"
  using assms(6)
proof (induction kvs rule: rev_induct)
  case Nil
  then show ?case by (simp add: insert_all_def)
next
  case (snoc kv kvs)
  obtain k v where kv: "kv = (k, v)" by fastforce
  obtain d1 where d1: "insert_all I root kvs (Some d) = Some d1"
      "ini_getstring I (Some d1) j = (case map_of (rev (map (\<lambda>(k, v). (stored_key root k, v)) kvs)) j of
        Some v \<Rightarrow> Some v | None \<Rightarrow> ini_getstring I (Some d) j)"
    using snoc by auto
  have "lower_case k" using snoc.prems by (simp add: kv)
  from insert_config_string [OF assms(1,2) this assms(3-5), of v d1] show ?case
    using d1 by (auto simp: kv insert_all_append) (auto simp: insert_all_def)
qed

lemma stored_full: "key \<noteq> root \<Longrightarrow> stored_key root key = full_key root key"
  by (simp add: stored_key_def full_key_def)

lemma stored_colon: "CHR '':'' \<in> set (stored_key root key)"
  by (simp add: stored_key_def)

lemma stored_lower: "lower_case root \<Longrightarrow> lower_case key \<Longrightarrow> lower_case (stored_key root key)"
  by (simp add: stored_key_def)

text \<open>What a parser reads after a series of entries was created: the last entry for the key.\<close>

lemma created_entries:
  assumes I: "ini_laws I" and root: "lower_case root" "CHR '':'' \<notin> set root" "root_key p = root" "ini_dic p = Some d"
    and kvs: "\<forall>(k, v)\<in>set kvs. lower_case k" and key: "lower_case key" "key \<noteq> root"
  shows "\<exists>d'. insert_all I root kvs (Some d) = Some d'
    \<and> GetConfigString I (p\<lparr>ini_dic := Some d'\<rparr>) key dflt
        = (case map_of (rev (map (\<lambda>(k, v). (stored_key root k, v)) kvs)) (stored_key root key) of
             Some v \<Rightarrow> v | None \<Rightarrow> GetConfigString I p key dflt)
    \<and> (\<forall>n m. map_of (rev (map (\<lambda>(k, v). (stored_key root k, v)) kvs)) (stored_key root key)
           = Some (show_int n @ replicate m (CHR '' '')) \<longrightarrow> GetConfigInt I (p\<lparr>ini_dic := Some d'\<rparr>) key i = n)"
proof -
  obtain d' where d': "insert_all I root kvs (Some d) = Some d'"
      "ini_getstring I (Some d') (stored_key root key)
        = (case map_of (rev (map (\<lambda>(k, v). (stored_key root k, v)) kvs)) (stored_key root key) of
             Some v \<Rightarrow> Some v | None \<Rightarrow> ini_getstring I (Some d) (stored_key root key))"
    using insert_all_string [OF I root(1) stored_lower [OF root(1) key(1)] stored_colon root(2) kvs, of d] by blast
  have "ini_getstring I (Some d') (stored_key root key) = Some (show_int n @ replicate m (CHR '' '')) \<Longrightarrow>
      ini_getint I (Some d') (stored_key root key) i = n" for n m
    using I unfolding ini_laws_def by blast
  then show ?thesis
    using d' root(3,4) stored_full [OF key(2)]
    by (auto simp: GetConfigString_def GetConfigInt_def split: option.split)
qed


text \<open>A dictionary as an association list.\<close>

definition demo_ini :: "(string \<times> string) list ini" where
  "demo_ini = \<lparr>ini_load = (\<lambda>_. None), ini_new = Some [],
     ini_find = (\<lambda>d k. case d of None \<Rightarrow> False | Some m \<Rightarrow> map_of m k \<noteq> None),
     ini_getstring = (\<lambda>d k. case d of None \<Rightarrow> None | Some m \<Rightarrow> map_of m k),
     ini_getint = (\<lambda>d k dflt. case d of None \<Rightarrow> dflt | Some m \<Rightarrow> (case map_of m k of None \<Rightarrow> dflt | Some s \<Rightarrow> strtol s)),
     ini_secnames = (\<lambda>_. []), ini_seckeys = (\<lambda>_ _. []),
     ini_set = (\<lambda>k v d. case d of None \<Rightarrow> (-1, None) | Some m \<Rightarrow> (0, Some ((k, v) # m)))\<rparr>"

lemma strtol_blanks: "strtol (show_int i @ replicate m (CHR '' '')) = i"
proof -
  have r: "read_digits 0 (show_nat n @ replicate m (CHR '' '')) = n" for n
    using show_nat_digits [of _ n] by (cases m) (simp_all add: read_digits_append read_show_nat is_digit_def)
  show ?thesis
  proof (cases "i < 0")
    case True
    have "\<not> is_space CHR ''-''" by (simp add: is_space_def)
    then show ?thesis using True r by (simp add: show_int_def strtol_def)
  next
    case False
    obtain c cs where s: "show_nat (nat i) = c # cs" by (meson neq_Nil_conv show_nat_nonempty)
    then have "is_digit c" using show_nat_digits [of c "nat i"] by simp
    then have "strtol (show_int i @ replicate m (CHR '' '')) = int (read_digits 0 (show_nat (nat i) @ replicate m (CHR '' '')))"
      using False is_digit_props [of c] by (simp add: show_int_def strtol_def s del: read_digits.simps)
    then show ?thesis using False r by simp
  qed
qed

lemma demo_ini_laws: "ini_laws demo_ini"
  by (auto simp: ini_laws_def demo_ini_def strtol_blanks split: option.split)


section \<open>The configuration centre keeps values\<close>

lemma CC_GetConfig_kv:
  assumes "server_laws srv kv"
  shows "\<exists>s'. CC_GetConfig srv sc key cfg s
      = Inr (map_option (\<lambda>v. sc (1024 * 1024) (c_str v)) (kv s (cc_key cfg key)), s') \<and> kv s' = kv s"
proof -
  let ?k = "cc_key cfg key"
  have "kv (snd (srv (CCGet ?k) s)) = kv s \<and> (\<exists>r. fst (srv (CCGet ?k) s) = Some r
      \<and> (case kv s ?k of None \<Rightarrow> rp_type r = REDIS_REPLY_NIL | Some v \<Rightarrow> rp_type r = REDIS_REPLY_STRING \<and> rp_str r = v))"
    using assms unfolding server_laws_def by blast
  then show ?thesis
    by (cases "kv s ?k") (auto simp: CC_GetConfig_def has_str_def reply_types case_prod_beta)
qed

lemma CC_SetConfig_kv:
  assumes "server_laws srv kv"
  shows "\<exists>s'. CC_SetConfig srv key val cfg s = Inr (0, s') \<and> kv s' = (kv s)(cc_key cfg key \<mapsto> val)"
proof -
  have "kv (snd (srv (CCSet (cc_key cfg key) val) s)) = (kv s)(cc_key cfg key \<mapsto> val)
      \<and> (\<exists>r. fst (srv (CCSet (cc_key cfg key) val) s) = Some r \<and> rp_type r = REDIS_REPLY_STATUS)"
    using assms unfolding server_laws_def by blast
  then show ?thesis by (auto simp: CC_SetConfig_def cc_code_def reply_types)
qed

lemma CC_Init_kv:
  assumes "server_laws srv kv"
  shows "\<exists>s'. CC_Init srv True idx s = Inr (0, s') \<and> kv s' = kv s"
proof -
  let ?s = "snd (srv (CCSelect idx) s)"
  have "kv ?s = kv s" "kv (snd (srv CCPing ?s)) = kv ?s \<and> (\<exists>r. fst (srv CCPing ?s) = Some r \<and> rp_type r = REDIS_REPLY_STATUS)"
    using assms unfolding server_laws_def by blast+
  then show ?thesis by (auto simp: CC_Init_def HeartBeat_def cc_code_def reply_types)
qed


section \<open>Reading a file returns\<close>

text \<open>The keys of a section begin with its name and a colon, so that the calls of \<open>GetConfig\<close> nest at most twice.\<close>

definition seckeys_laws :: "'d ini \<Rightarrow> bool" where
  "seckeys_laws I \<longleftrightarrow> (\<forall>d k. \<forall>c\<in>set (ini_seckeys I d k). \<exists>t. c = k @ '':'' @ t)"

lemma each_key_returns:
  assumes "\<forall>k\<in>set ks. n \<le> length k \<and> (\<exists>r v. get k = Inr (r, ConfigValue k v []))"
  shows "\<exists>cvs. each_key get n ks = Inr cvs"
  using assms by (induction ks) auto

lemma GetConfig_returns:
  assumes "seckeys_laws I"
  shows "\<exists>r v'. GetConfig (Suc (Suc n)) I p b v = Inr (r, v')"
proof (cases "CHR '':'' \<notin> set (cv_key v) \<and> ini_find I (ini_dic p) (cv_key v)")
  case True
  let ?ks = "ini_seckeys I (ini_dic p) (cv_key v)"
  have "\<forall>c\<in>set ?ks. length (cv_key v) + 1 \<le> length c
      \<and> (\<exists>r x. GetConfig (Suc n) I p False (ConfigValue c [] []) = Inr (r, ConfigValue c x []))"
    using assms unfolding seckeys_laws_def by (fastforce split: option.split)
  from each_key_returns [OF this] obtain cvs where
    c: "each_key (\<lambda>c. GetConfig (Suc n) I p False (ConfigValue c [] [])) (length (cv_key v) + 1) ?ks = Inr cvs" by blast
  show ?thesis
    unfolding GetConfig.simps(2) [of "Suc n"] Let_def if_P [OF True] c by simp
next
  case False
  then show ?thesis
    unfolding GetConfig.simps(2) [of "Suc n"] Let_def if_not_P [OF False] by (auto split: option.split)
qed

lemma read_sections_returns:
  assumes "seckeys_laws I"
  shows "\<exists>p'. read_sections (Suc (Suc n)) I ss p = Inr p'"
proof (induction ss arbitrary: p)
  case (Cons s ss)
  obtain r v where "GetConfig (Suc (Suc n)) I p True (ConfigValue s [] []) = Inr (r, v)"
    using GetConfig_returns [OF assms] by blast
  then show ?case using Cons.IH by (simp del: GetConfig.simps)
qed simp

text \<open>A depth of two is enough to read any file; a missing file is the only error.\<close>

lemma ReadConfigFile_returns:
  assumes "seckeys_laws I"
  shows "\<exists>p'. ReadConfigFile (Suc (Suc n)) I file p = Inr (if ini_load I file = None then -1 else 0, p')"
proof -
  define q where "q = p\<lparr>ini_dic := ini_load I file\<rparr>"
  obtain r v where g: "GetConfig (Suc (Suc n)) I q False (rootValue q) = Inr (r, v)"
    using GetConfig_returns [OF assms] by blast
  obtain p' where "read_sections (Suc (Suc n)) I (ini_secnames I (ini_dic q)) (q\<lparr>rootValue := v\<rparr>) = Inr p'"
    using read_sections_returns [OF assms] by blast
  moreover have "ini_dic q = ini_load I file" by (simp add: q_def)
  ultimately show ?thesis using g by (simp add: ReadConfigFile_def Let_def del: GetConfig.simps flip: q_def)
qed

end
