(* ===== verification/MysqlMeta.thy ===== *)
theory MysqlMeta
  imports Decimal
begin

text \<open>
  The description of a MySQL table and the SQL text made from it (\<open>db/MysqlMeta.h/.cpp\<close>).

  The union \<open>u_data\<close> of a field is its eight bytes as one \<open>u64\<close>; on the little-endian hosts of the
  server its 32-bit members are the low half.  Printing and reading of floating point numbers,
  \<open>Time::mkTimeStamp\<close> and the escaping functions of the MySQL client library are parameters.
  A character buffer is a list of characters, and an address past its end is \<open>OutOfBounds\<close>.
\<close>

section \<open>Data\<close>

record MysqlField =
  fd_name :: string
  fd_type :: int
  u_data :: u64
  buffer :: string

definition VAL_TYPE_INVALID :: int where "VAL_TYPE_INVALID = 0"
definition VAL_TYPE_INT32 :: int where "VAL_TYPE_INT32 = 1"
definition VAL_TYPE_INT64 :: int where "VAL_TYPE_INT64 = 2"
definition VAL_TYPE_UINT32 :: int where "VAL_TYPE_UINT32 = 3"
definition VAL_TYPE_UINT64 :: int where "VAL_TYPE_UINT64 = 4"
definition VAL_TYPE_REAL32 :: int where "VAL_TYPE_REAL32 = 5"
definition VAL_TYPE_REAL64 :: int where "VAL_TYPE_REAL64 = 6"
definition VAL_TYPE_VARCHAR :: int where "VAL_TYPE_VARCHAR = 7"
definition VAL_TYPE_TEXT :: int where "VAL_TYPE_TEXT = 8"
definition VAL_TYPE_BLOB :: int where "VAL_TYPE_BLOB = 9"
definition VAL_TYPE_DATETIME :: int where "VAL_TYPE_DATETIME = 10"
definition VAL_TYPE_MAX :: int where "VAL_TYPE_MAX = 11"

lemmas val_types = VAL_TYPE_INVALID_def VAL_TYPE_INT32_def VAL_TYPE_INT64_def VAL_TYPE_UINT32_def
  VAL_TYPE_UINT64_def VAL_TYPE_REAL32_def VAL_TYPE_REAL64_def VAL_TYPE_VARCHAR_def VAL_TYPE_TEXT_def
  VAL_TYPE_BLOB_def VAL_TYPE_DATETIME_def VAL_TYPE_MAX_def

record MysqlFieldMeta =
  fm_name :: string
  fm_type :: int
  typeName :: string
  maxlen :: int
  ispk :: bool

record MysqlMeta =
  tblname :: string
  cols :: "MysqlFieldMeta list"

text \<open>
  What the C and MySQL libraries provide: \<open>%f\<close> and \<open>atof\<close> on the bit patterns of \<open>float\<close> and
  \<open>double\<close>, \<open>Time::mkTimeStamp\<close>, and the escaped form of a text, with a connection or without.
\<close>

record mysql_lib =
  print_r32 :: "u32 \<Rightarrow> string"
  print_r64 :: "u64 \<Rightarrow> string"
  atof_r32 :: "string \<Rightarrow> u32"
  atof_r64 :: "string \<Rightarrow> u64"
  mkTimeStamp :: "string \<Rightarrow> u32"
  escape_string :: "bool \<Rightarrow> string \<Rightarrow> string"

definition MysqlFieldMeta_Init :: MysqlFieldMeta where
  "MysqlFieldMeta_Init = \<lparr>fm_name = [], fm_type = 0, typeName = [], maxlen = 0, ispk = False\<rparr>"

definition MysqlField_Init :: "MysqlField \<Rightarrow> MysqlField" where
  "MysqlField_Init f = f\<lparr>u_data := 0, buffer := []\<rparr>"

text \<open>The members of the union: the low half holds the 32-bit ones.\<close>

definition field_u32 :: "MysqlField \<Rightarrow> u32" where
  "field_u32 f = ucast (u_data f)"

definition set_low32 :: "u32 \<Rightarrow> u64 \<Rightarrow> u64" where
  "set_low32 v u = push_bit 32 (drop_bit 32 u) OR ucast v"

section \<open>Looking up\<close>

definition GetFieldMeta :: "MysqlMeta \<Rightarrow> string \<Rightarrow> MysqlFieldMeta option" where
  "GetFieldMeta table fieldName = find (\<lambda>c. fm_name c = fieldName) (cols table)"

definition GetField :: "MysqlField list \<Rightarrow> string \<Rightarrow> MysqlField option" where
  "GetField fs fieldName = find (\<lambda>f. fd_name f = fieldName) fs"

definition type2str :: "string list" where
  "type2str = [''INVALID'', ''INTEGER'', ''BIGINT'', ''INTEGER UNSIGNED'', ''BIGINT UNSIGNED'',
     ''FLOAT'', ''DOUBLE'', ''VARCHAR'', ''TEXT'', ''BLOB'', ''DATETIME'']"

text \<open>The \<open>int\<close> type of a column is passed as an \<open>uint8_t\<close>.\<close>

definition GetTypeString :: "int \<Rightarrow> fault + string" where
  "GetTypeString ty =
     (let t = uint (word_of_int ty :: u8) in
      if t < VAL_TYPE_MAX then Inr (type2str ! nat t) else Inl AssertFail)"

section \<open>Creating a table\<close>

definition column_sql :: "MysqlFieldMeta \<Rightarrow> fault + string" where
  "column_sql c =
     bindE (GetTypeString (fm_type c)) (\<lambda>t.
       Inr (fm_name c @ '' '' @ t
            @ (if 0 < maxlen c \<and> fm_type c = VAL_TYPE_VARCHAR then ''('' @ show_int (maxlen c) @ '')'' else [])
            @ '' NOT NULL'' @ '','' @ [CHR 0x0A]))"

fun columns_sql :: "MysqlFieldMeta list \<Rightarrow> fault + string" where
  "columns_sql [] = Inr []"
| "columns_sql (c # cs) = bindE (column_sql c) (\<lambda>s. bindE (columns_sql cs) (\<lambda>t. Inr (s @ t)))"

fun pks_sql :: "string \<Rightarrow> MysqlFieldMeta list \<Rightarrow> string" where
  "pks_sql pks [] = pks"
| "pks_sql pks (c # cs) =
     pks_sql (if ispk c then (if 0 < length pks then pks @ '','' else pks) @ fm_name c else pks) cs"

definition GetCreateTableSQL :: "MysqlMeta \<Rightarrow> fault + string" where
  "GetCreateTableSQL m =
     bindE (columns_sql (cols m)) (\<lambda>s.
       Inr (''CREATE TABLE IF NOT EXISTS '' @ tblname m @ '' ('' @ s
            @ ''PRIMARY KEY ('' @ pks_sql [] (cols m) @ '')'' @ [CHR 0x0A]
            @ '')ENGINE=InnoDB DEFAULT CHARSET utf8 COLLATE utf8_general_ci''))"

text \<open>\<open>Init\<close>: one field per column; the local \<open>ec\<close> keeps its other members.\<close>

definition MysqlMeta_Init :: "MysqlMeta \<Rightarrow> MysqlField list" where
  "MysqlMeta_Init m = map (\<lambda>c. \<lparr>fd_name = fm_name c, fd_type = fm_type c, u_data = 0, buffer = []\<rparr>) (cols m)"

section \<open>Values\<close>

text \<open>\<open>snprintf(digitbuffer,sizeof(digitbuffer),...)\<close> with \<open>char digitbuffer[20]\<close>.\<close>

definition digitbuffer :: "string \<Rightarrow> string" where
  "digitbuffer s = take 19 s"

text \<open>
  The text of a field of type \<open>VARCHAR\<close> or \<open>TEXT\<close>: \<open>at(0)\<close> throws on an empty buffer, and \<open>strlen\<close>
  runs past a buffer without a NUL (the test of the length comes after it).
\<close>

definition text_value :: "string \<Rightarrow> fault + string" where
  "text_value b = (if CHR 0x00 \<in> set b then Inr (c_str b) else Inl OutOfBounds)"

definition GetFieldValueSQL :: "mysql_lib \<Rightarrow> bool \<Rightarrow> MysqlMeta \<Rightarrow> MysqlField \<Rightarrow> fault + string" where
  "GetFieldValueSQL l conn m col =
     (case GetFieldMeta m (fd_name col) of
        None \<Rightarrow> Inl AssertFail
      | Some fieldMeta \<Rightarrow>
          let t = fm_type fieldMeta in
          if t = VAL_TYPE_INT32 then Inr (digitbuffer (show_int (sint (field_u32 col))))
          else if t = VAL_TYPE_INT64 then Inr (digitbuffer (show_int (sint (u_data col))))
          else if t = VAL_TYPE_UINT32 then Inr (digitbuffer (show_int (uint (field_u32 col))))
          else if t = VAL_TYPE_UINT64 then Inr (digitbuffer (show_int (uint (u_data col))))
          else if t = VAL_TYPE_REAL32 then Inr (digitbuffer (print_r32 l (field_u32 col)))
          else if t = VAL_TYPE_REAL64 then Inr (digitbuffer (print_r64 l (u_data col)))
          else if t = VAL_TYPE_VARCHAR \<or> t = VAL_TYPE_TEXT then
            bindE (text_value (buffer col)) (\<lambda>s.
              Inr ([CHR 0x27] @ c_str (escape_string l conn s) @ [CHR 0x27]))
          else if t = VAL_TYPE_BLOB then
            Inr ([CHR 0x27] @ c_str (escape_string l conn (buffer col)) @ [CHR 0x27])
          else if t = VAL_TYPE_DATETIME then
            Inr (''FROM_UNIXTIME('' @ digitbuffer (show_int (uint (field_u32 col))) @ '')'')
          else Inl AssertFail)"

text \<open>\<open>strtol\<close> and \<open>strtoul\<close> of a 64-bit \<open>long\<close>, with their saturation.\<close>

definition strtol64 :: "string \<Rightarrow> u64" where
  "strtol64 s = word_of_int (max (- 9223372036854775808) (min 9223372036854775807 (strtol s)))"

definition strtoul64 :: "string \<Rightarrow> u64" where
  "strtoul64 s = (if 18446744073709551615 < \<bar>strtol s\<bar> then 18446744073709551615 else word_of_int (strtol s))"

text \<open>
  A column of a result row: \<open>None\<close> is an SQL \<open>NULL\<close>, a null pointer of length 0.  The numbers are
  read from the first 63 characters.
\<close>

definition SetFieldValue :: "mysql_lib \<Rightarrow> MysqlMeta \<Rightarrow> MysqlField \<Rightarrow> string option \<Rightarrow> fault + int \<times> MysqlField" where
  "SetFieldValue l m field data =
     (case GetFieldMeta m (fd_name field) of
        None \<Rightarrow> Inr (-1, field)
      | Some fieldMeta \<Rightarrow>
          let f = (MysqlField_Init field)\<lparr>fd_name := fm_name fieldMeta, fd_type := fm_type fieldMeta\<rparr>;
              bytes = (case data of None \<Rightarrow> [] | Some d \<Rightarrow> d);
              number = c_str (take 63 bytes);
              t = fm_type fieldMeta in
          if t = VAL_TYPE_INT32 \<or> t = VAL_TYPE_INT64 then Inr (0, f\<lparr>u_data := strtol64 number\<rparr>)
          else if t = VAL_TYPE_UINT32 \<or> t = VAL_TYPE_UINT64 then Inr (0, f\<lparr>u_data := strtoul64 number\<rparr>)
          else if t = VAL_TYPE_REAL32 then Inr (0, f\<lparr>u_data := set_low32 (atof_r32 l number) (u_data f)\<rparr>)
          else if t = VAL_TYPE_REAL64 then Inr (0, f\<lparr>u_data := atof_r64 l number\<rparr>)
          else if t = VAL_TYPE_VARCHAR \<or> t = VAL_TYPE_TEXT then Inr (0, f\<lparr>buffer := bytes @ [CHR 0x00]\<rparr>)
          else if t = VAL_TYPE_BLOB then Inr (0, f\<lparr>buffer := bytes\<rparr>)
          else if t = VAL_TYPE_DATETIME then
            (case data of
               None \<Rightarrow> Inl NullDeref
             | Some d \<Rightarrow> Inr (0, f\<lparr>u_data := set_low32 (mkTimeStamp l (c_str d)) (u_data f)\<rparr>))
          else Inl AssertFail)"

section \<open>Statements\<close>

text \<open>The assignments of an UPDATE: key columns are skipped; \<open>first\<close> counts those written.\<close>

fun update_sets ::
  "mysql_lib \<Rightarrow> bool \<Rightarrow> MysqlMeta \<Rightarrow> nat \<Rightarrow> MysqlField list \<Rightarrow> fault + string" where
  "update_sets l conn m first [] = Inr []"
| "update_sets l conn m first (d # ds) =
     (case GetFieldMeta m (fd_name d) of
        None \<Rightarrow> Inl NullDeref
      | Some field \<Rightarrow>
          if ispk field then update_sets l conn m first ds
          else
            bindE (GetFieldValueSQL l conn m d) (\<lambda>v.
              bindE (update_sets l conn m (Suc first) ds) (\<lambda>rest.
                Inr ((if first \<noteq> 0 then '','' else []) @ fd_name d @ ''='' @ v @ rest))))"

definition GetUpdateTableSQL ::
  "mysql_lib \<Rightarrow> bool \<Rightarrow> MysqlMeta \<Rightarrow> string \<Rightarrow> MysqlField list \<Rightarrow> fault + string" where
  "GetUpdateTableSQL l conn m whr data =
     bindE (update_sets l conn m 0 data) (\<lambda>s.
       Inr (''UPDATE '' @ tblname m @ '' SET '' @ s @ '' WHERE '' @ whr))"

text \<open>A loop that writes a comma in front of every element but the first.\<close>

fun commas :: "string list \<Rightarrow> string" where
  "commas [] = []"
| "commas [x] = x"
| "commas (x # xs) = x @ '','' @ commas xs"

fun field_values :: "mysql_lib \<Rightarrow> bool \<Rightarrow> MysqlMeta \<Rightarrow> MysqlField list \<Rightarrow> fault + string list" where
  "field_values l conn m [] = Inr []"
| "field_values l conn m (f # fs) =
     bindE (GetFieldValueSQL l conn m f) (\<lambda>v. bindE (field_values l conn m fs) (\<lambda>vs. Inr (v # vs)))"

definition GetInsertTableSQL ::
  "mysql_lib \<Rightarrow> bool \<Rightarrow> MysqlMeta \<Rightarrow> MysqlField list \<Rightarrow> fault + string" where
  "GetInsertTableSQL l conn m data =
     bindE (field_values l conn m data) (\<lambda>vs.
       Inr (''INSERT INTO '' @ tblname m @ ''('' @ commas (map fd_name data)
            @ '') VALUES('' @ commas vs @ '')''))"

definition GetDeleteTableSQL :: "MysqlMeta \<Rightarrow> string \<Rightarrow> string" where
  "GetDeleteTableSQL m whr = ''DELETE FROM '' @ tblname m @ '' WHERE '' @ whr"

definition realFieldSels :: "MysqlMeta \<Rightarrow> string list \<Rightarrow> string list" where
  "realFieldSels m selCols = map fm_name (filter (\<lambda>c. ispk c \<or> fm_name c \<in> set selCols) (cols m))"

definition GetSelectTableSQL :: "MysqlMeta \<Rightarrow> string \<Rightarrow> string list \<Rightarrow> string" where
  "GetSelectTableSQL m whr selCols =
     ''SELECT '' @ (if selCols = [] then ''*'' else commas (realFieldSels m selCols))
       @ '' FROM '' @ tblname m @ '' WHERE '' @ whr"

text \<open>\<open>Visual\<close>: the names and the values, each followed by a tab.\<close>

definition Visual :: "mysql_lib \<Rightarrow> MysqlMeta \<Rightarrow> MysqlField list \<Rightarrow> fault + string" where
  "Visual l m vc =
     bindE (field_values l False m vc) (\<lambda>vs.
       Inr (concat (map (\<lambda>f. fd_name f @ [CHR 0x09]) vc) @ [CHR 0x0A]
            @ concat (map (\<lambda>v. v @ [CHR 0x09]) vs) @ [CHR 0x0A]))"

section \<open>Numbers through the database\<close>

text \<open>The number a field of an integer type stands for.\<close>

definition field_number :: "int \<Rightarrow> MysqlField \<Rightarrow> int" where
  "field_number t f =
     (if t = VAL_TYPE_INT32 then sint (field_u32 f)
      else if t = VAL_TYPE_INT64 then sint (u_data f)
      else if t = VAL_TYPE_UINT32 then uint (field_u32 f)
      else uint (u_data f))"

definition number_types :: "int list" where
  "number_types = [VAL_TYPE_INT32, VAL_TYPE_INT64, VAL_TYPE_UINT32, VAL_TYPE_UINT64]"

lemma take_show_nat:
  assumes "length (show_nat n) = Suc (Suc k)"
  shows "take (Suc k) (show_nat n) = show_nat (n div 10)"
proof -
  have "\<not> n < 10" using assms by (auto simp: show_nat.simps)
  then have "show_nat n = show_nat (n div 10) @ [digit_char (n mod 10)]" by (subst show_nat.simps) simp
  then show ?thesis using assms by simp
qed

text \<open>The twenty bytes hold nineteen characters: a longer number loses its last digit.\<close>

definition kept_number :: "int \<Rightarrow> int" where
  "kept_number v = (if length (show_int v) \<le> 19 then v else sgn v * (\<bar>v\<bar> div 10))"

lemma nat_less_power: "\<bar>v\<bar> < 10 ^ k \<Longrightarrow> nat \<bar>v\<bar> < 10 ^ k" for v :: int
  by (simp add: nat_less_iff)

lemma digitbuffer_number:
  assumes "- 9223372036854775808 \<le> v" "v \<le> 18446744073709551615"
  shows "digitbuffer (show_int v) = show_int (kept_number v)"
proof (cases "length (show_int v) \<le> 19")
  case True
  then show ?thesis by (simp add: digitbuffer_def kept_number_def)
next
  case False
  show ?thesis
  proof (cases "v < 0")
    case True
    have "nat (- v) < 10 ^ Suc 18" using assms(1) by simp
    then have "length (show_nat (nat (- v))) = Suc (Suc 17)"
      using length_show_nat [of "nat (- v)" 18] False True by (simp add: show_int_def)
    note t = take_show_nat [OF this]
    have "\<not> v > - 10"
    proof
      assume "- 10 < v"
      then have "show_nat (nat (- v)) = [digit_char (nat (- v))]" by (subst show_nat.simps) simp
      then show False using \<open>length (show_nat (nat (- v))) = Suc (Suc 17)\<close> by simp
    qed
    then have "0 < (- v) div 10" by simp
    moreover have "nat ((- v) div 10) = nat (- v) div 10" by (simp add: nat_div_distrib)
    ultimately show ?thesis
      using False True t by (simp add: digitbuffer_def kept_number_def show_int_def)
  next
    case nonneg: False
    have "nat v < 10 ^ Suc 19" using assms(2) by simp
    then have "length (show_nat (nat v)) = Suc (Suc 18)"
      using length_show_nat [of "nat v" 19] False nonneg by (simp add: show_int_def)
    note t = take_show_nat [OF this]
    have "nat (v div 10) = nat v div 10" using nonneg by (simp add: nat_div_distrib)
    moreover have "0 \<le> v div 10" "v \<noteq> 0" using nonneg False by (auto simp: show_int_def show_nat.simps)
    ultimately show ?thesis
      using False nonneg t by (simp add: digitbuffer_def kept_number_def show_int_def sgn_if)
  qed
qed

lemma read_number:
  assumes "length (show_int w) \<le> 63" "- 9223372036854775808 \<le> w" "w \<le> 18446744073709551615"
  shows "strtoul64 (c_str (take 63 (show_int w))) = word_of_int w"
    and "w \<le> 9223372036854775807 \<Longrightarrow> strtol64 (c_str (take 63 (show_int w))) = word_of_int w"
  using assms by (auto simp: strtoul64_def strtol64_def abs_if)

lemma kept_number_bounds: "0 \<le> v \<Longrightarrow> 0 \<le> kept_number v \<and> kept_number v \<le> v"
  "v \<le> 0 \<Longrightarrow> v \<le> kept_number v \<and> kept_number v \<le> 0"
  by (auto simp: kept_number_def sgn_if)

lemma sint_word_of_int_u64: "- 9223372036854775808 \<le> w \<Longrightarrow> w \<le> 9223372036854775807 \<Longrightarrow> sint (word_of_int w :: u64) = w"
  by (simp add: sint_sbintrunc' signed_take_bit_int_eq_self)

lemma sint_word_of_int_u32: "- 2147483648 \<le> w \<Longrightarrow> w \<le> 2147483647 \<Longrightarrow> sint (word_of_int w :: u32) = w"
  by (simp add: sint_sbintrunc' signed_take_bit_int_eq_self)

lemma field_number_range:
  "t = VAL_TYPE_INT32 \<Longrightarrow> - 2147483648 \<le> field_number t f \<and> field_number t f \<le> 2147483647"
  "t = VAL_TYPE_INT64 \<Longrightarrow> - 9223372036854775808 \<le> field_number t f \<and> field_number t f \<le> 9223372036854775807"
  "t = VAL_TYPE_UINT32 \<Longrightarrow> 0 \<le> field_number t f \<and> field_number t f \<le> 4294967295"
  "t = VAL_TYPE_UINT64 \<Longrightarrow> 0 \<le> field_number t f \<and> field_number t f \<le> 18446744073709551615"
  using sint_range_size [of "field_u32 f"] sint_range_size [of "u_data f"]
    uint_lt2p [of "field_u32 f"] uint_lt2p [of "u_data f"]
  by (simp_all add: field_number_def val_types word_size)

lemma low32_of_int: "ucast (word_of_int w :: u64) = (word_of_int w :: u32)"
  by (rule bit_word_eqI) (auto simp: bit_simps)

lemma field_number_set:
  "t = VAL_TYPE_INT32 \<Longrightarrow> - 2147483648 \<le> w \<Longrightarrow> w \<le> 2147483647 \<Longrightarrow>
     field_number t (f\<lparr>u_data := word_of_int w\<rparr>) = w"
  "t = VAL_TYPE_INT64 \<Longrightarrow> - 9223372036854775808 \<le> w \<Longrightarrow> w \<le> 9223372036854775807 \<Longrightarrow>
     field_number t (f\<lparr>u_data := word_of_int w\<rparr>) = w"
  "t = VAL_TYPE_UINT32 \<Longrightarrow> 0 \<le> w \<Longrightarrow> w \<le> 4294967295 \<Longrightarrow>
     field_number t (f\<lparr>u_data := word_of_int w\<rparr>) = w"
  "t = VAL_TYPE_UINT64 \<Longrightarrow> 0 \<le> w \<Longrightarrow> w \<le> 18446744073709551615 \<Longrightarrow>
     field_number t (f\<lparr>u_data := word_of_int w\<rparr>) = w"
  by (simp_all add: field_number_def field_u32_def val_types sint_word_of_int_u64 sint_word_of_int_u32
        low32_of_int take_bit_int_eq_self unsigned_of_int)

lemma kept_number_range:
  "a \<le> v \<and> v \<le> b \<Longrightarrow> a \<le> 0 \<Longrightarrow> 0 \<le> b \<Longrightarrow> a \<le> kept_number v \<and> kept_number v \<le> b"
  using kept_number_bounds [of v] by (cases "0 \<le> v") auto

lemma field_number_kept:
  assumes "t \<in> set number_types"
  shows "field_number t (g\<lparr>u_data := word_of_int (kept_number (field_number t f))\<rparr>)
    = kept_number (field_number t f)"
proof -
  consider "t = VAL_TYPE_INT32" | "t = VAL_TYPE_INT64" | "t = VAL_TYPE_UINT32" | "t = VAL_TYPE_UINT64"
    using assms by (auto simp: number_types_def)
  then show ?thesis
  proof cases
    case 1
    then show ?thesis
      using kept_number_range [OF field_number_range(1) [OF 1, of f]] field_number_set(1) [OF 1] by simp
  next
    case 2
    then show ?thesis
      using kept_number_range [OF field_number_range(2) [OF 2, of f]] field_number_set(2) [OF 2] by simp
  next
    case 3
    then show ?thesis
      using kept_number_range [OF field_number_range(3) [OF 3, of f]] field_number_set(3) [OF 3] by simp
  next
    case 4
    then show ?thesis
      using kept_number_range [OF field_number_range(4) [OF 4, of f]] field_number_set(4) [OF 4] by simp
  qed
qed

lemma number_roundtrip_step:
  assumes m: "GetFieldMeta m (fd_name f) = Some fm" "fm_type fm = t" "t \<in> set number_types"
    and v: "v = field_number t f"
  shows "GetFieldValueSQL l conn m f = Inr (show_int (kept_number v))
    \<and> (\<exists>f'. SetFieldValue l m f (Some (show_int (kept_number v))) = Inr (0, f')
        \<and> field_number t f' = kept_number v \<and> fd_name f' = fm_name fm \<and> fd_type f' = t)"
proof -
  let ?w = "kept_number v"
  let ?f = "(MysqlField_Init f)\<lparr>fd_name := fm_name fm, fd_type := t\<rparr>"
  note R = field_number_range [of t f, folded v]
  have r: "- 9223372036854775808 \<le> v" "v \<le> 18446744073709551615"
    using R m(3) by (auto simp: number_types_def)
  note D = digitbuffer_number [OF r]
  have "length (show_int ?w) \<le> 63" using D [symmetric] by (simp add: digitbuffer_def)
  moreover have w: "- 9223372036854775808 \<le> ?w" "?w \<le> 18446744073709551615"
    using r kept_number_bounds [of v] by linarith+
  ultimately have N: "strtoul64 (c_str (take 63 (show_int ?w))) = word_of_int ?w"
      "?w \<le> 9223372036854775807 \<Longrightarrow> strtol64 (c_str (take 63 (show_int ?w))) = word_of_int ?w"
    using read_number by blast+
  have "GetFieldValueSQL l conn m f = Inr (digitbuffer (show_int v))"
    using m by (auto simp: GetFieldValueSQL_def number_types_def v field_number_def val_types)
  moreover have "field_number t (?f\<lparr>u_data := word_of_int ?w\<rparr>) = ?w"
    using field_number_kept [OF m(3)] by (simp add: v)
  moreover have "SetFieldValue l m f (Some (show_int ?w)) = Inr (0, ?f\<lparr>u_data := word_of_int ?w\<rparr>)"
  proof -
    have "t = VAL_TYPE_INT32 \<or> t = VAL_TYPE_INT64 \<Longrightarrow> ?w \<le> 9223372036854775807"
      using kept_number_range [OF R(1)] kept_number_range [OF R(2)] by auto
    then show ?thesis
      using m N by (auto simp: SetFieldValue_def Let_def number_types_def val_types)
  qed
  ultimately show ?thesis using D by (auto simp: MysqlField_Init_def)
qed

text \<open>
  C30.  Integer columns survive the way into the database and back, up to nineteen characters.
  The SQL text of a field of type \<open>INT32\<close>, \<open>INT64\<close>, \<open>UINT32\<close> or \<open>UINT64\<close>, read back by
  \<open>SetFieldValue\<close>, gives a field of the same name, type and number, when the number has at most
  nineteen characters.  A number of twenty characters (an unsigned one from \<open>10^19\<close> on, a
  negative one of nineteen digits) loses its last digit in the twenty-byte buffer.
\<close>

theorem number_field_roundtrip:
  assumes "GetFieldMeta m (fd_name f) = Some fm" "fm_type fm \<in> set number_types"
    and "v = field_number (fm_type fm) f"
  shows "\<exists>s f'. GetFieldValueSQL l conn m f = Inr s \<and> SetFieldValue l m f (Some s) = Inr (0, f')
    \<and> fd_name f' = fd_name f \<and> fd_type f' = fm_type fm
    \<and> field_number (fm_type fm) f' = (if length (show_int v) \<le> 19 then v else sgn v * (\<bar>v\<bar> div 10))"
proof -
  have "fm_name fm = fd_name f" using assms(1) by (auto simp: GetFieldMeta_def find_Some_iff)
  then show ?thesis
    using number_roundtrip_step [OF assms(1) refl assms(2,3), of l conn]
    by (auto simp: kept_number_def)
qed

definition demo_lib :: mysql_lib where
  "demo_lib = \<lparr>print_r32 = (\<lambda>_. ''0.000000''), print_r64 = (\<lambda>_. ''0.000000''), atof_r32 = (\<lambda>_. 0),
     atof_r64 = (\<lambda>_. 0), mkTimeStamp = (\<lambda>_. 0), escape_string = (\<lambda>_ s. s)\<rparr>"

definition demo_meta :: MysqlMeta where
  "demo_meta = \<lparr>tblname = ''Role'',
     cols = [\<lparr>fm_name = ''id'', fm_type = VAL_TYPE_UINT64, typeName = [], maxlen = 0, ispk = True\<rparr>]\<rparr>"

definition demo_field :: "u64 \<Rightarrow> MysqlField" where
  "demo_field u = \<lparr>fd_name = ''id'', fd_type = VAL_TYPE_UINT64, u_data = u, buffer = []\<rparr>"

theorem number_field_roundtrip_witness:
  "(\<exists>s f'. GetFieldValueSQL demo_lib True demo_meta (demo_field 1234567890123456789) = Inr s
      \<and> SetFieldValue demo_lib demo_meta (demo_field 1234567890123456789) (Some s) = Inr (0, f')
      \<and> field_number VAL_TYPE_UINT64 f' = 1234567890123456789)
   \<and> (\<exists>s f'. GetFieldValueSQL demo_lib True demo_meta (demo_field 12345678901234567890) = Inr s
      \<and> SetFieldValue demo_lib demo_meta (demo_field 12345678901234567890) (Some s) = Inr (0, f')
      \<and> field_number VAL_TYPE_UINT64 f' = 1234567890123456789)"
proof -
  let ?fm = "\<lparr>fm_name = ''id'', fm_type = VAL_TYPE_UINT64, typeName = [], maxlen = 0, ispk = True\<rparr>"
  have m: "GetFieldMeta demo_meta (fd_name (demo_field u)) = Some ?fm" for u
    by (simp add: GetFieldMeta_def demo_meta_def demo_field_def)
  have t: "fm_type ?fm \<in> set number_types" by (simp add: number_types_def)
  have n: "field_number (fm_type ?fm) (demo_field 1234567890123456789) = 1234567890123456789"
      "field_number (fm_type ?fm) (demo_field 12345678901234567890) = 12345678901234567890"
    by (simp_all add: field_number_def demo_field_def val_types)
  have len: "length (show_int 1234567890123456789) = 19" "length (show_int 12345678901234567890) = 20"
    by (simp_all add: show_int_def show_nat.simps)
  show ?thesis
    using number_field_roundtrip [OF m [of 1234567890123456789] t refl, of demo_lib True]
      number_field_roundtrip [OF m [of 12345678901234567890] t refl, of demo_lib True]
    unfolding n len by auto
qed

end
