(* ===== verification/MysqlProxy.thy ===== *)
theory MysqlProxy
  imports MysqlMeta
begin

text \<open>
  One MySQL connection (\<open>db/MysqlProxy.h/.cpp\<close>): connecting, and turning a request into a
  statement, running it and filling in the response.

  The client library is a parameter \<open>mysql_api\<close> over a state \<open>'db\<close> of the connection: running a
  statement changes it, the error number and the stored result are read from it.  A call on
  the null connection is the fault \<open>NullDeref\<close>.  A callback buffer is a byte list.
\<close>

section \<open>Requests and responses\<close>

definition MYSQL_REQ_SELECT :: int where "MYSQL_REQ_SELECT = 1"
definition MYSQL_REQ_UPDATE :: int where "MYSQL_REQ_UPDATE = 2"
definition MYSQL_REQ_DELETE :: int where "MYSQL_REQ_DELETE = 3"
definition MYSQL_REQ_INSERT :: int where "MYSQL_REQ_INSERT = 4"
definition MYSQL_REQ_CREATE_TB :: int where "MYSQL_REQ_CREATE_TB = 6"

lemmas req_types = MYSQL_REQ_SELECT_def MYSQL_REQ_UPDATE_def MYSQL_REQ_DELETE_def MYSQL_REQ_INSERT_def
  MYSQL_REQ_CREATE_TB_def

definition MYSQL_RESULT_OK :: int where "MYSQL_RESULT_OK = 0"
definition MYSQL_RESULT_NO_DATA :: int where "MYSQL_RESULT_NO_DATA = 1"
definition MYSQL_RESULT_ALREADY_EXIST :: int where "MYSQL_RESULT_ALREADY_EXIST = 2"
definition MYSQL_RESULT_TIMEOUT :: int where "MYSQL_RESULT_TIMEOUT = 3"
definition MYSQL_RESULT_GET_NO_PK :: int where "MYSQL_RESULT_GET_NO_PK = 4"
definition MYSQL_RESULT_NO_META :: int where "MYSQL_RESULT_NO_META = 5"
definition MYSQL_RESULT_STORE_RESULT_ERR :: int where "MYSQL_RESULT_STORE_RESULT_ERR = 6"
definition MYSQL_RESULT_UNKOWN :: int where "MYSQL_RESULT_UNKOWN = 0x7F"
definition MYSQL_RESULT_SQL_EXE_ERR :: int where "MYSQL_RESULT_SQL_EXE_ERR = 0x7FFF"

lemmas result_codes = MYSQL_RESULT_OK_def MYSQL_RESULT_NO_DATA_def MYSQL_RESULT_ALREADY_EXIST_def
  MYSQL_RESULT_TIMEOUT_def MYSQL_RESULT_GET_NO_PK_def MYSQL_RESULT_NO_META_def
  MYSQL_RESULT_STORE_RESULT_ERR_def MYSQL_RESULT_UNKOWN_def MYSQL_RESULT_SQL_EXE_ERR_def

record MysqlRequest =
  rq_tblname :: string
  rq_op :: int
  rq_where :: string
  rq_data :: "MysqlField list"
  rq_fields :: "string list"
  rq_cb :: "byte list"

record MysqlResponse =
  rs_tblname :: string
  rs_op :: int
  rs_data :: "MysqlField list"
  rs_cb :: "byte list"
  rs_ret :: int

record MysqlProxyOption =
  opt_ip :: string
  opt_port :: int
  opt_uname :: string
  opt_passwd :: string
  opt_dbname :: string
  opt_unisock :: string
  opt_cliflag :: int
  opt_wait_timeout :: int
  opt_intr_timeout :: int

definition MysqlProxyOption_new :: MysqlProxyOption where
  "MysqlProxyOption_new = \<lparr>opt_ip = [], opt_port = 0, opt_uname = [], opt_passwd = [], opt_dbname = [],
     opt_unisock = [], opt_cliflag = 0, opt_wait_timeout = 0, opt_intr_timeout = 0\<rparr>"

text \<open>
  The MySQL client library.  A stored result has the names of its columns and, when there is a
  row, its values.  \<open>mysql_open\<close> stands for \<open>mysql_init\<close>, the options and \<open>mysql_real_connect\<close>.
\<close>

record 'db mysql_api =
  mysql_lib_of :: mysql_lib
  mysql_init :: "'db option"
  mysql_options :: "string \<Rightarrow> string \<Rightarrow> 'db \<Rightarrow> 'db"
  mysql_real_connect :: "MysqlProxyOption \<Rightarrow> 'db \<Rightarrow> bool \<times> 'db"
  mysql_set_character_set :: "string \<Rightarrow> 'db \<Rightarrow> int \<times> 'db"
  mysql_autocommit :: "'db \<Rightarrow> int \<times> 'db"
  mysql_query :: "string \<Rightarrow> 'db \<Rightarrow> int \<times> 'db"
  mysql_errno :: "'db \<Rightarrow> int"
  mysql_store_result :: "'db \<Rightarrow> (string list \<times> string option list option) option"
  ER_DUP_ENTRY :: int

record 'db MysqlProxy =
  conn :: "'db option"
  tableMetas :: "string \<rightharpoonup> MysqlMeta"
  rsp :: MysqlResponse

section \<open>Operations\<close>

definition MysqlProxy_Init :: "MysqlMeta list \<Rightarrow> 'db MysqlProxy \<Rightarrow> 'db MysqlProxy" where
  "MysqlProxy_Init metas p = p\<lparr>tableMetas := foldl (\<lambda>t m. t(tblname m \<mapsto> m)) Map.empty metas\<rparr>"

definition GetTableMeta :: "string \<Rightarrow> 'db MysqlProxy \<Rightarrow> MysqlMeta option" where
  "GetTableMeta name p = tableMetas p name"

definition ExecuteSQL :: "'db mysql_api \<Rightarrow> string \<Rightarrow> 'db MysqlProxy \<Rightarrow> fault + int \<times> 'db MysqlProxy" where
  "ExecuteSQL a sql p =
     (case conn p of
        None \<Rightarrow> Inl NullDeref
      | Some db \<Rightarrow>
          let (r, db') = mysql_query a sql db in
          Inr (if r \<noteq> 0 then -1 else 0, p\<lparr>conn := Some db'\<rparr>))"

definition GetLastErrNo :: "'db mysql_api \<Rightarrow> 'db MysqlProxy \<Rightarrow> int" where
  "GetLastErrNo a p = (case conn p of None \<Rightarrow> 0 | Some db \<Rightarrow> mysql_errno a db)"

definition SelectDB :: "'db mysql_api \<Rightarrow> string \<Rightarrow> 'db MysqlProxy \<Rightarrow> fault + int \<times> 'db MysqlProxy" where
  "SelectDB a name p = ExecuteSQL a (''USE '' @ name) p"

definition CreateDB :: "'db mysql_api \<Rightarrow> string \<Rightarrow> 'db MysqlProxy \<Rightarrow> fault + int \<times> 'db MysqlProxy" where
  "CreateDB a name p =
     ExecuteSQL a (''CREATE DATABASE IF NOT EXISTS '' @ name @ '' DEFAULT CHARSET utf8 COLLATE utf8_general_ci'') p"

definition CreateTable :: "'db mysql_api \<Rightarrow> MysqlMeta \<Rightarrow> 'db MysqlProxy \<Rightarrow> fault + int \<times> 'db MysqlProxy" where
  "CreateTable a meta p = bindE (GetCreateTableSQL meta) (\<lambda>sql. ExecuteSQL a sql p)"

text \<open>
  \<open>Connect\<close>.  The failure exit sets the connection to null before it closes it, so the handle is
  lost; the status of \<open>SelectDB\<close> is not looked at.
\<close>

definition connect_options :: "'db mysql_api \<Rightarrow> MysqlProxyOption \<Rightarrow> 'db \<Rightarrow> 'db" where
  "connect_options a opt db =
     (let wait = show_int (opt_wait_timeout opt);
          db1 = (if 0 < opt_wait_timeout opt then
                   mysql_options a ''MYSQL_OPT_WRITE_TIMEOUT'' wait
                     (mysql_options a ''MYSQL_OPT_READ_TIMEOUT'' wait
                       (mysql_options a ''MYSQL_OPT_CONNECT_TIMEOUT'' wait
                         (mysql_options a ''MYSQL_INIT_COMMAND'' (''set wait_timeout='' @ wait) db)))
                 else db);
          db2 = (if 0 < opt_intr_timeout opt then
                   mysql_options a ''MYSQL_INIT_COMMAND''
                     (''set interactive_timeout='' @ show_int (opt_intr_timeout opt)) db1
                 else db1)
      in mysql_options a ''MYSQL_OPT_RECONNECT'' ''1'' db2)"

definition Connect :: "'db mysql_api \<Rightarrow> MysqlProxyOption \<Rightarrow> 'db MysqlProxy \<Rightarrow> fault + int \<times> 'db MysqlProxy" where
  "Connect a opt p =
     (case mysql_init a of
        None \<Rightarrow> Inr (-1, p\<lparr>conn := None\<rparr>)
      | Some db0 \<Rightarrow>
          let (up, db1) = mysql_real_connect a opt (connect_options a opt db0) in
          if \<not> up then Inr (-1, p\<lparr>conn := None\<rparr>)
          else
            let (r2, db2) = mysql_set_character_set a ''utf8'' db1 in
            if r2 \<noteq> 0 then Inr (-1, p\<lparr>conn := None\<rparr>)
            else
              let (r3, db3) = mysql_autocommit a db2 in
              if r3 \<noteq> 0 then Inr (-1, p\<lparr>conn := None\<rparr>)
              else
                bindE (CreateDB a (opt_dbname opt) (p\<lparr>conn := Some db3\<rparr>)) (\<lambda>(r4, p4).
                  if r4 \<noteq> 0 then Inr (-1, p4\<lparr>conn := None\<rparr>)
                  else bindE (SelectDB a (opt_dbname opt) p4) (\<lambda>(_, p5). Inr (0, p5))))"

text \<open>
  The columns of a row go through one local field \<open>col\<close>: a column without a description keeps
  the value of the column before it.
\<close>

fun row_fields ::
  "mysql_lib \<Rightarrow> MysqlMeta \<Rightarrow> MysqlField \<Rightarrow> (string \<times> string option) list \<Rightarrow> fault + MysqlField list" where
  "row_fields l meta col [] = Inr []"
| "row_fields l meta col ((name, val) # rest) =
     bindE (SetFieldValue l meta (col\<lparr>fd_name := name\<rparr>) val) (\<lambda>(_, col').
       bindE (row_fields l meta col' rest) (\<lambda>cs. Inr (col' # cs)))"

definition empty_field :: MysqlField where
  "empty_field = \<lparr>fd_name = [], fd_type = 0, u_data = 0, buffer = []\<rparr>"

text \<open>
  Fetching the first row of the result.  The row goes into the response member \<open>rsp.data\<close>, which
  keeps its content when there is no result to fetch.
\<close>

definition fetch_row :: "'db mysql_api \<Rightarrow> MysqlMeta \<Rightarrow> 'db MysqlProxy \<Rightarrow> fault + int \<times> 'db MysqlProxy" where
  "fetch_row a meta p =
     (case conn p of
        None \<Rightarrow> Inl NullDeref
      | Some db \<Rightarrow>
          (case mysql_store_result a db of
             None \<Rightarrow> Inr (MYSQL_RESULT_STORE_RESULT_ERR, p)
           | Some (names, None) \<Rightarrow> Inr (MYSQL_RESULT_NO_DATA, p\<lparr>rsp := (rsp p)\<lparr>rs_data := []\<rparr>\<rparr>)
           | Some (names, Some row) \<Rightarrow>
               bindE (row_fields (mysql_lib_of a) meta empty_field (zip names row)) (\<lambda>fs.
                 Inr (MYSQL_RESULT_OK, p\<lparr>rsp := (rsp p)\<lparr>rs_data := fs\<rparr>\<rparr>))))"

definition MysqlProxy_Select ::
  "'db mysql_api \<Rightarrow> string \<Rightarrow> string \<Rightarrow> string list \<Rightarrow> 'db MysqlProxy \<Rightarrow> fault + int \<times> 'db MysqlProxy" where
  "MysqlProxy_Select a tbl whr selCols p =
     (case GetTableMeta tbl p of
        None \<Rightarrow> Inr (MYSQL_RESULT_NO_META, p)
      | Some meta \<Rightarrow>
          if length whr \<le> 0 then Inr (MYSQL_RESULT_GET_NO_PK, p)
          else
            bindE (ExecuteSQL a (GetSelectTableSQL meta whr selCols) p) (\<lambda>(r, p1).
              if r \<noteq> 0 then Inr (MYSQL_RESULT_SQL_EXE_ERR, p1) else fetch_row a meta p1))"

definition MysqlProxy_Insert ::
  "'db mysql_api \<Rightarrow> string \<Rightarrow> MysqlField list \<Rightarrow> 'db MysqlProxy \<Rightarrow> fault + int \<times> 'db MysqlProxy" where
  "MysqlProxy_Insert a tbl data p =
     (case GetTableMeta tbl p of
        None \<Rightarrow> Inr (MYSQL_RESULT_NO_META, p)
      | Some meta \<Rightarrow>
          bindE (GetInsertTableSQL (mysql_lib_of a) (conn p \<noteq> None) meta data) (\<lambda>sql.
            bindE (ExecuteSQL a sql p) (\<lambda>(r, p1).
              if r \<noteq> 0 then
                Inr (if GetLastErrNo a p1 = ER_DUP_ENTRY a then MYSQL_RESULT_ALREADY_EXIST
                     else MYSQL_RESULT_SQL_EXE_ERR + GetLastErrNo a p1, p1)
              else Inr (MYSQL_RESULT_OK, p1))))"

definition MysqlProxy_Update ::
  "'db mysql_api \<Rightarrow> string \<Rightarrow> string \<Rightarrow> MysqlField list \<Rightarrow> 'db MysqlProxy \<Rightarrow> fault + int \<times> 'db MysqlProxy" where
  "MysqlProxy_Update a tbl whr data p =
     (case GetTableMeta tbl p of
        None \<Rightarrow> Inr (MYSQL_RESULT_NO_META, p)
      | Some meta \<Rightarrow>
          bindE (GetUpdateTableSQL (mysql_lib_of a) (conn p \<noteq> None) meta whr data) (\<lambda>sql.
            bindE (ExecuteSQL a sql p) (\<lambda>(r, p1).
              Inr (if r \<noteq> 0 then MYSQL_RESULT_SQL_EXE_ERR else MYSQL_RESULT_OK, p1))))"

definition MysqlProxy_Delete ::
  "'db mysql_api \<Rightarrow> string \<Rightarrow> string \<Rightarrow> 'db MysqlProxy \<Rightarrow> fault + int \<times> 'db MysqlProxy" where
  "MysqlProxy_Delete a tbl whr p =
     (case GetTableMeta tbl p of
        None \<Rightarrow> Inr (MYSQL_RESULT_NO_META, p)
      | Some meta \<Rightarrow>
          bindE (ExecuteSQL a (GetDeleteTableSQL meta whr) p) (\<lambda>(r, p1).
            Inr (if r \<noteq> 0 then MYSQL_RESULT_SQL_EXE_ERR else MYSQL_RESULT_OK, p1)))"

text \<open>The statement of a request, with its result code.\<close>

definition run_request ::
  "'db mysql_api \<Rightarrow> MysqlRequest \<Rightarrow> 'db MysqlProxy \<Rightarrow> fault + int \<times> 'db MysqlProxy" where
  "run_request a req p =
     (if rq_op req = MYSQL_REQ_SELECT then
        MysqlProxy_Select a (rq_tblname req) (rq_where req) (rq_fields req) p
      else if rq_op req = MYSQL_REQ_INSERT then MysqlProxy_Insert a (rq_tblname req) (rq_data req) p
      else if rq_op req = MYSQL_REQ_UPDATE then
        MysqlProxy_Update a (rq_tblname req) (rq_where req) (rq_data req) p
      else if rq_op req = MYSQL_REQ_DELETE then MysqlProxy_Delete a (rq_tblname req) (rq_where req) p
      else if rq_op req = MYSQL_REQ_CREATE_TB then
        (case GetTableMeta (rq_tblname req) p of
           None \<Rightarrow> Inr (MYSQL_RESULT_UNKOWN, p)
         | Some meta \<Rightarrow> CreateTable a meta p)
      else Inl AssertFail)"

text \<open>\<open>DispatchReq\<close>; the response it returns is the one passed to \<open>agent->Response(rsp)\<close>.\<close>

definition DispatchReq ::
  "'db mysql_api \<Rightarrow> MysqlRequest \<Rightarrow> 'db MysqlProxy \<Rightarrow> fault + MysqlResponse \<times> 'db MysqlProxy" where
  "DispatchReq a req p =
     (let p1 = p\<lparr>rsp := (rsp p)\<lparr>rs_tblname := rq_tblname req, rs_op := rq_op req, rs_cb := rq_cb req,
                              rs_ret := MYSQL_RESULT_UNKOWN\<rparr>\<rparr> in
      bindE (run_request a req p1) (\<lambda>(r, p2).
        let out = (rsp p2)\<lparr>rs_ret := r\<rparr> in Inr (out, p2\<lparr>rsp := out\<rparr>)))"

section \<open>A response answers its request\<close>

text \<open>Running a statement touches neither the tables nor the addressing of the response.\<close>

definition framed :: "'db MysqlProxy \<Rightarrow> 'db MysqlProxy \<Rightarrow> bool" where
  "framed p p' \<longleftrightarrow> tableMetas p' = tableMetas p \<and> (conn p' = None \<longleftrightarrow> conn p = None)
     \<and> rs_tblname (rsp p') = rs_tblname (rsp p) \<and> rs_op (rsp p') = rs_op (rsp p) \<and> rs_cb (rsp p') = rs_cb (rsp p)"

lemma framed_refl [simp]: "framed p p"
  by (simp add: framed_def)

lemma framed_data [simp]: "framed p (p1\<lparr>rsp := (rsp p1)\<lparr>rs_data := d\<rparr>\<rparr>) \<longleftrightarrow> framed p p1"
  by (simp add: framed_def)

lemma ExecuteSQL_frame: "ExecuteSQL a sql p = Inr (r, p') \<Longrightarrow> framed p p'"
  by (auto simp: ExecuteSQL_def framed_def split: option.splits prod.splits)

lemma framed_trans: "framed p q \<Longrightarrow> framed q r \<Longrightarrow> framed p r"
  by (simp add: framed_def)

lemma fetch_row_frame: "fetch_row a m p = Inr (r, p') \<Longrightarrow> framed p p'"
  by (auto simp: fetch_row_def bindE_Inr split: option.splits)

lemma Select_frame: "MysqlProxy_Select a tbl whr cs p = Inr (r, p') \<Longrightarrow> framed p p'"
  by (auto simp: MysqlProxy_Select_def bindE_Inr split: option.splits if_splits
        dest!: ExecuteSQL_frame fetch_row_frame intro: framed_trans)

lemma Insert_frame: "MysqlProxy_Insert a tbl d p = Inr (r, p') \<Longrightarrow> framed p p'"
  by (auto simp: MysqlProxy_Insert_def bindE_Inr split: option.splits if_splits dest!: ExecuteSQL_frame)

lemma Update_frame: "MysqlProxy_Update a tbl whr d p = Inr (r, p') \<Longrightarrow> framed p p'"
  by (auto simp: MysqlProxy_Update_def bindE_Inr split: option.splits dest!: ExecuteSQL_frame)

lemma Delete_frame: "MysqlProxy_Delete a tbl whr p = Inr (r, p') \<Longrightarrow> framed p p'"
  by (auto simp: MysqlProxy_Delete_def bindE_Inr split: option.splits dest!: ExecuteSQL_frame)

lemma CreateTable_frame: "CreateTable a m p = Inr (r, p') \<Longrightarrow> framed p p'"
  by (auto simp: CreateTable_def bindE_Inr dest!: ExecuteSQL_frame)

lemma run_request_frame: "run_request a req p = Inr (r, p') \<Longrightarrow> framed p p'"
  unfolding run_request_def
  by (auto split: if_splits option.splits
        dest: Select_frame Insert_frame Update_frame Delete_frame CreateTable_frame)

lemma DispatchReq_answers:
  assumes "DispatchReq a req p = Inr (out, p')"
  shows "rs_tblname out = rq_tblname req \<and> rs_op out = rq_op req \<and> rs_cb out = rq_cb req
    \<and> tableMetas p' = tableMetas p \<and> (conn p' = None \<longleftrightarrow> conn p = None)"
  using assms by (auto simp: DispatchReq_def Let_def bindE_Inr framed_def dest!: run_request_frame)

end
