(* ===== verification/AppCtx.thy ===== *)
theory AppCtx
  imports Config MysqlProxy TimerMgr
begin

text \<open>
  The contexts of the servers: \<open>app/AppContext.h/.cpp\<close> with the settings that every server reads, the
  resolution of channel names through the configuration centre, and the default configuration;
  \<open>gate/GateServerContext.h/.cpp\<close> and the context of \<open>rgtd/zone/AgentApp.h/.cpp\<close> with what the gate and the
  agent server add.

  The parameters are those of theory \<open>Config\<close>; \<open>reach ip port\<close> says whether the configuration centre can
  be reached, \<open>sp s\<close> is the list of numbers that \<open>StringUtil::SplitNum\<close> finds in \<open>s\<close>.  A virtual method is an
  argument.
\<close>

section \<open>The common context\<close>

record ChannelConfig =
  cc_name :: string
  channelAddr :: string

record 'd AppContext =
  parser :: "'d IniConfigParser"
  channelName :: string
  localChannelName :: string
  localChannelAddr :: string
  channels :: "ChannelConfig list"
  tickCountUs :: int
  tickPollCount :: int
  curTime :: timeval
  uniq_process :: int
  lockFilePath :: string
  hook_coredump :: int
  daemon :: int
  closing :: int
  runTime :: timeval
  cc_ip :: string
  cc_port :: int
  cc_dbidx :: int

text \<open>\<open>s.find(suf) == npos\<close>: append the suffix.\<close>

definition with_suffix :: "string \<Rightarrow> string \<Rightarrow> string" where
  "with_suffix suf s = (if contains suf s then s else s @ suf)"

definition default_kv :: "string \<Rightarrow> string \<Rightarrow> (string \<times> string) list" where
  "default_kv sLogFile sLockFile =
     [(''log_file'', sLogFile), (''log_file_size'', ''10240''), (''log_max_file_num'', ''20''),
      (''log_min_level'', ''2''), (''daemon'', ''0''), (''hook_coredump'', ''0''), (''tick_count_us'', ''10000''),
      (''tick_poll_num'', ''1''), (''uniq_process'', ''1''), (''file_lock_path'', sLockFile),
      (''console:ip'', ''127.0.0.1''), (''console:port'', ''51000''), (''channel:name'', ''ch''),
      (''channel:local:addr'', ''tcp://127.0.0.1:51010''), (''channel:local:name'', ''gate:1''),
      (''channel:num'', ''1''), (''channel:info#1:addr'', ''tcp://127.0.0.1:52010''),
      (''channel:info#1:name'', ''agent:1''), (''configcenter:ip'', ''127.0.0.1''),
      (''configcenter:port'', ''6379''), (''configcenter:dbidx'', ''0'')]"

definition create_all :: "'d ini \<Rightarrow> (string \<times> string) list \<Rightarrow> 'd IniConfigParser \<Rightarrow> 'd IniConfigParser" where
  "create_all I kvs p = foldl (\<lambda>p (k, v). snd (CreateConfig I (ConfigValue k v []) p)) p kvs"

text \<open>The result is the parser and the name of the file it is dumped to.\<close>

definition GenerateDefaultConfig ::
  "'d ini \<Rightarrow> ('d IniConfigParser \<Rightarrow> 'd IniConfigParser) \<Rightarrow> string \<Rightarrow> 'd IniConfigParser
     \<Rightarrow> fault + string \<times> 'd IniConfigParser" where
  "GenerateDefaultConfig I onGenerate file p =
     (let sConfFile = with_suffix ''.conf'' file @ ''.default'';
          sLogFile = with_suffix ''.log'' file; sLockFile = with_suffix ''.lock'' file in
      bindE (Ini_Create I None p) (\<lambda>(r, p).
        Inr (sConfFile, onGenerate (create_all I (default_kv sLogFile sLockFile) p))))"

definition info_key :: "int \<Rightarrow> string \<Rightarrow> string" where
  "info_key i field = ''channel:info#'' @ show_int i @ '':'' @ field"

text \<open>The loop over the channels: whether all were found, and those read.\<close>

fun read_channels ::
  "'d ini \<Rightarrow> 's redis_server \<Rightarrow> (nat \<Rightarrow> string \<Rightarrow> string) \<Rightarrow> 'd IniConfigParser \<Rightarrow> int \<Rightarrow> nat \<Rightarrow> 's
     \<Rightarrow> fault + bool \<times> ChannelConfig list \<times> 's" where
  "read_channels I srv sc p i 0 s = Inr (True, [], s)"
| "read_channels I srv sc p i (Suc k) s =
     (let name = GetConfigString I p (info_key (i + 1) ''name'') None in
      bindE (CC_GetConfig srv sc name [] s) (\<lambda>(pszChName, s).
        case pszChName of
          None \<Rightarrow> Inr (False, [], s)
        | Some addr \<Rightarrow>
            bindE (read_channels I srv sc p (i + 1) k s) (\<lambda>(ok, chs, s).
              Inr (ok, \<lparr>cc_name = name, channelAddr = addr\<rparr> # chs, s))))"

text \<open>The own address is entered in the configuration centre, or must be the one found there.\<close>

definition register_local ::
  "'s redis_server \<Rightarrow> (nat \<Rightarrow> string \<Rightarrow> string) \<Rightarrow> string \<Rightarrow> string \<Rightarrow> 's \<Rightarrow> fault + bool \<times> 's" where
  "register_local srv sc name addr s =
     bindE (CC_GetConfig srv sc name [] s) (\<lambda>(found, s).
       case found of
         None \<Rightarrow>
           if 0 < length addr then bindE (CC_SetConfig srv name addr [] s) (\<lambda>(r, s). Inr (True, s))
           else Inr (False, s)
       | Some a \<Rightarrow> Inr (addr = a, s))"

definition read_common :: "'d ini \<Rightarrow> ('d, 'z) AppContext_scheme \<Rightarrow> ('d, 'z) AppContext_scheme" where
  "read_common I ctx =
     (let p = parser ctx in
      ctx\<lparr>tickCountUs := GetConfigInt I p ''tick_count_us'' 100,
          tickPollCount := GetConfigInt I p ''tick_poll_num'' 1,
          uniq_process := GetConfigInt I p ''uniq_process'' 0,
          lockFilePath := GetConfigString I p ''file_lock_path'' (Some ''./lock.file''),
          daemon := GetConfigInt I p ''daemon'' 0,
          hook_coredump := GetConfigInt I p ''hook_coredump'' 0,
          channels := [],
          channelName := GetConfigString I p ''channel:name'' None,
          localChannelName := GetConfigString I p ''channel:local:name'' None,
          localChannelAddr := GetConfigString I p ''channel:local:addr'' None\<rparr>)"

definition AppContext_Init ::
  "nat \<Rightarrow> 'd ini \<Rightarrow> 's redis_server \<Rightarrow> (nat \<Rightarrow> string \<Rightarrow> string) \<Rightarrow> (string \<Rightarrow> int \<Rightarrow> bool)
     \<Rightarrow> (('d, 'z) AppContext_scheme \<Rightarrow> fault + int \<times> ('d, 'z) AppContext_scheme) \<Rightarrow> string option
     \<Rightarrow> ('d, 'z) AppContext_scheme \<Rightarrow> 's \<Rightarrow> fault + int \<times> ('d, 'z) AppContext_scheme \<times> 's" where
  "AppContext_Init n I srv sc reach onInit file ctx s =
     (case file of
        None \<Rightarrow> Inr (-1, ctx, s)
      | Some f \<Rightarrow>
          bindE (ReadConfigFile n I f (parser ctx)) (\<lambda>(r, p).
            let ctx = ctx\<lparr>parser := p\<rparr> in
            if r \<noteq> 0 then Inr (-2, ctx, s)
            else
              let ctx = ctx\<lparr>cc_ip := GetConfigString I p ''configcenter:ip'' None,
                            cc_port := GetConfigInt I p ''configcenter:port'' 0,
                            cc_dbidx := GetConfigInt I p ''configcenter:dbidx'' 0\<rparr> in
              bindE (CC_Init srv (reach (cc_ip ctx) (cc_port ctx)) (cc_dbidx ctx) s) (\<lambda>(r, s).
                if r \<noteq> 0 then Inr (-1, ctx, s)
                else
                  let ichnlNum = GetConfigInt I p ''channel:num'' (-1); ctx = read_common I ctx in
                  bindE (register_local srv sc (localChannelName ctx) (localChannelAddr ctx) s) (\<lambda>(ok, s).
                    if \<not> ok then Inr (-1, ctx, s)
                    else
                      bindE (read_channels I srv sc p 0 (nat ichnlNum) s) (\<lambda>(ok, chs, s).
                        let ctx = ctx\<lparr>channels := chs\<rparr> in
                        if \<not> ok then Inr (-1, ctx, s)
                        else
                          bindE (onInit (ctx\<lparr>closing := 0, runTime := \<lparr>tv_sec = 0, tv_usec = 0\<rparr>\<rparr>)) (\<lambda>(ret, ctx). Inr (ret, ctx, s)))))))"

section \<open>The context of the gate\<close>

record 'd GateServerContext = "'d AppContext" +
  iTestMode :: int
  iNeedAuth :: int
  mpAreaID2ChannelID :: "u32 \<rightharpoonup> u32"
  vecAgentIDS :: "int list"
  iIdleCheckPeriod :: int

definition gate_default_kv :: "(string \<times> string) list" where
  "gate_default_kv =
     [(''gate:ip'', ''127.0.0.1''), (''gate:port'', ''52100''), (''gate:max_clients'', ''50000''),
      (''gate:test_mode'', ''1''), (''gate:need_auth'', ''0''), (''gate:agent:num'', ''1''),
      (''gate:agent#1:channel'', ''1 ''), (''gate:agent#1:areas'', ''1 2 3 4 5''), (''gate:connx_idle'', ''600''),
      (''console:port'', ''52000''), (''channel:num'', ''1''), (''channel:local:addr'', ''tcp://127.0.0.1:52010''),
      (''channel:local:name'', ''name://gate:1''), (''channel:info#1:name'', ''agent:1''),
      (''channel:info#1:addr'', ''name://agent:1'')]"

definition GateContext_OnGenerateDefaultConfig :: "'d ini \<Rightarrow> 'd IniConfigParser \<Rightarrow> 'd IniConfigParser" where
  "GateContext_OnGenerateDefaultConfig I p = create_all I gate_default_kv p"

fun add_areas :: "int \<Rightarrow> int list \<Rightarrow> (u32 \<rightharpoonup> u32) \<Rightarrow> bool \<times> (u32 \<rightharpoonup> u32)" where
  "add_areas chId [] m = (True, m)"
| "add_areas chId (a # as) m =
     (if m (word_of_int a) \<noteq> None then (False, m)
      else add_areas chId as (m(word_of_int a \<mapsto> word_of_int chId)))"

definition agent_key :: "int \<Rightarrow> string \<Rightarrow> string" where
  "agent_key i field = ''gate:agent#'' @ show_int i @ '':'' @ field"

definition agent_channel :: "'d ini \<Rightarrow> 'd IniConfigParser \<Rightarrow> int \<Rightarrow> int" where
  "agent_channel I p i = GetConfigInt I p (agent_key i ''channel'') 0"

text \<open>\<open>SplitNum\<close> fills an array of 128 numbers.\<close>

definition agent_areas :: "'d ini \<Rightarrow> (string \<Rightarrow> int list) \<Rightarrow> 'd IniConfigParser \<Rightarrow> int \<Rightarrow> int list" where
  "agent_areas I sp p i = take 128 (sp (GetConfigString I p (agent_key i ''areas'') None))"

fun agents_loop ::
  "'d ini \<Rightarrow> (string \<Rightarrow> int list) \<Rightarrow> 'd IniConfigParser \<Rightarrow> int \<Rightarrow> nat \<Rightarrow> int set \<Rightarrow> (u32 \<rightharpoonup> u32) \<Rightarrow> int list
     \<Rightarrow> int \<times> (u32 \<rightharpoonup> u32) \<times> int list" where
  "agents_loop I sp p i 0 chkUniq m vec = (0, m, vec)"
| "agents_loop I sp p i (Suc k) chkUniq m vec =
     (let chId = agent_channel I p (i + 1) in
      if chId \<in> chkUniq then (-1, m, vec)
      else
        case add_areas chId (agent_areas I sp p (i + 1)) m of (ok, m') \<Rightarrow>
          if \<not> ok then (-1, m', vec)
          else agents_loop I sp p (i + 1) k (insert chId chkUniq) m' (vec @ [chId]))"

definition GateContext_OnInit ::
  "'d ini \<Rightarrow> (string \<Rightarrow> int list) \<Rightarrow> 'd GateServerContext \<Rightarrow> int \<times> 'd GateServerContext" where
  "GateContext_OnInit I sp ctx =
     (let p = parser ctx;
          ctx = ctx\<lparr>iTestMode := GetConfigInt I p ''gate:test_mode'' 0,
                    iNeedAuth := GetConfigInt I p ''gate:need_auth'' 0,
                    iIdleCheckPeriod := GetConfigInt I p ''gate:connx_idle'' 0\<rparr> in
      case agents_loop I sp p 0 (nat (GetConfigInt I p ''gate:agent:num'' 0)) {} Map.empty (vecAgentIDS ctx) of
        (ret, m, vec) \<Rightarrow> (ret, ctx\<lparr>mpAreaID2ChannelID := m, vecAgentIDS := vec\<rparr>))"

section \<open>The context of the agent server\<close>

record 'd AgentContext = "'d AppContext" +
  dbs :: "MysqlProxyOption list"
  caches :: "RedisAddr list"
  areas :: "u32 set"
  gates :: "u32 set"

definition agent_default_kv :: "(string \<times> string) list" where
  "agent_default_kv =
     [(''agent:gate:num'', ''1''), (''agent:gate#1:channel'', ''1''), (''agent:db:num'', ''1''),
      (''agent:db#1:ip'', ''127.0.0.1''), (''agent:db#1:port'', ''3306''), (''agent:db#1:user'', ''root''),
      (''agent:db#1:passwd'', ''123456''), (''agent:db#1:dbname'', ''rgtd''), (''agent:cache:num'', ''1''),
      (''agent:cache#1:ip'', ''127.0.0.1''), (''agent:cache#1:port'', ''6379''), (''agent:cache#1:dbidx'', ''0''),
      (''agent:area:num'', ''5''), (''agent:area:ids'', ''1 2 3 4 5''), (''console:port'', ''51000''),
      (''channel:num'', ''1''), (''channel:local:addr'', ''tcp://127.0.0.1:51010''),
      (''channel:local:name'', ''agent:1''), (''channel:info#1:addr'', ''-''), (''channel:info#1:name'', ''gate:1'')]"

definition AgentContext_OnGenerateDefaultConfig :: "'d ini \<Rightarrow> 'd IniConfigParser \<Rightarrow> 'd IniConfigParser" where
  "AgentContext_OnGenerateDefaultConfig I p = create_all I agent_default_kv p"

definition numbered_key :: "string \<Rightarrow> int \<Rightarrow> string \<Rightarrow> string" where
  "numbered_key sect i field = sect @ ''#'' @ show_int i @ '':'' @ field"

text \<open>
  One round of the loop over the databases; the local \<open>mpo\<close> keeps the fields that are not read.  The
  loop over the caches reads the address of a cache and then appends \<open>mpo\<close> to the databases.
\<close>

definition read_db :: "'d ini \<Rightarrow> 'd IniConfigParser \<Rightarrow> int \<Rightarrow> MysqlProxyOption \<Rightarrow> MysqlProxyOption" where
  "read_db I p i mpo =
     mpo\<lparr>opt_ip := GetConfigString I p (numbered_key ''agent:db'' i ''ip'') None,
         opt_port := GetConfigInt I p (numbered_key ''agent:db'' i ''port'') 0,
         opt_uname := GetConfigString I p (numbered_key ''agent:db'' i ''user'') None,
         opt_passwd := GetConfigString I p (numbered_key ''agent:db'' i ''passwd'') None,
         opt_dbname := GetConfigString I p (numbered_key ''agent:db'' i ''dbname'') None\<rparr>"

fun read_dbs :: "'d ini \<Rightarrow> 'd IniConfigParser \<Rightarrow> int \<Rightarrow> nat \<Rightarrow> MysqlProxyOption \<Rightarrow> MysqlProxyOption list \<times> MysqlProxyOption" where
  "read_dbs I p i 0 mpo = ([], mpo)"
| "read_dbs I p i (Suc k) mpo =
     (let mpo = read_db I p (i + 1) mpo in case read_dbs I p (i + 1) k mpo of (l, m) \<Rightarrow> (mpo # l, m))"

text \<open>
  \<open>areas.insert(area_num[i])\<close> for \<open>i < n\<close>: the array has 128 elements, of which the first ones are set.
\<close>

definition read_areas :: "int \<Rightarrow> int list \<Rightarrow> fault + u32 set" where
  "read_areas n nums =
     (if int (length nums) < n then Inl (if length nums < 128 then Uninitialised else OutOfBounds)
      else Inr (set (map word_of_int (take (nat n) nums))))"

fun read_gates :: "'d ini \<Rightarrow> 'd IniConfigParser \<Rightarrow> int \<Rightarrow> nat \<Rightarrow> u32 set \<Rightarrow> int \<times> u32 set" where
  "read_gates I p i 0 gs = (0, gs)"
| "read_gates I p i (Suc k) gs =
     (let chid = GetConfigInt I p (numbered_key ''agent:gate'' (i + 1) ''channel'') 0 in
      if chid = 0 then (-1, gs) else read_gates I p (i + 1) k (insert (word_of_int chid) gs))"

definition AgentContext_OnInit ::
  "'d ini \<Rightarrow> (string \<Rightarrow> int list) \<Rightarrow> 'd AgentContext \<Rightarrow> fault + int \<times> 'd AgentContext" where
  "AgentContext_OnInit I sp ctx =
     (let p = parser ctx; n = nat (GetConfigInt I p ''agent:gate:num'' 0);
          nCache = nat (GetConfigInt I p ''agent:cache:num'' 0);
          nArea = GetConfigInt I p ''agent:area:num'' 0;
          nums = take 128 (sp (GetConfigString I p ''agent:area:ids'' None)) in
      case read_dbs I p 0 n MysqlProxyOption_new of (l, mpo) \<Rightarrow>
        let ctx = ctx\<lparr>dbs := dbs ctx @ l @ replicate nCache mpo\<rparr> in
        bindE (read_areas nArea nums) (\<lambda>as.
          let ctx = ctx\<lparr>areas := as\<rparr> in
          if as = {} then Inr (-1, ctx)
          else
            case read_gates I p 0 n {} of (ret, gs) \<Rightarrow> Inr (ret, ctx\<lparr>gates := gs\<rparr>)))"

section \<open>Default configurations\<close>

lemma create_all_eq:
  "create_all I kvs p = p\<lparr>ini_dic := insert_all I (root_key p) kvs (ini_dic p)\<rparr>"
proof (induction kvs arbitrary: p)
  case Nil
  then show ?case by (simp add: create_all_def insert_all_def)
next
  case (Cons kv kvs)
  obtain k v where kv: "kv = (k, v)" by fastforce
  have "create_all I (kv # kvs) p = create_all I kvs (snd (CreateConfig I (ConfigValue k v []) p))"
    by (simp add: create_all_def kv)
  also have "\<dots> = p\<lparr>ini_dic := insert_all I (root_key p) (kv # kvs) (ini_dic p)\<rparr>"
    using Cons.IH [of "snd (CreateConfig I (ConfigValue k v []) p)"]
    by (simp add: CreateConfig_def case_prod_beta kv insert_all_def)
  finally show ?case .
qed

text \<open>What a server reads from the default configuration: the last entry for the key in both lists.\<close>

definition default_value :: "(string \<times> string) list \<Rightarrow> string \<Rightarrow> string \<Rightarrow> string option" where
  "default_value kvs file key = map_of (rev (map (\<lambda>(k, v). (stored_key ''root'' k, v))
     (default_kv (with_suffix ''.log'' file) (with_suffix ''.lock'' file) @ kvs))) (stored_key ''root'' key)"

lemma default_config_reads:
  assumes I: "ini_laws I" "ini_new I = Some d"
    and gen: "GenerateDefaultConfig I (create_all I kvs) file (IniConfigParser_new) = Inr (f, p)"
    and low: "\<forall>(k, v)\<in>set kvs. lower_case k" and key: "lower_case key" "key \<noteq> ''root''"
  shows "default_value kvs file key = Some v \<longrightarrow> GetConfigString I p key dflt = v"
    and "default_value kvs file key = Some (show_int n @ replicate m (CHR '' '')) \<longrightarrow> GetConfigInt I p key i = n"
proof -
  let ?kvs = "default_kv (with_suffix ''.log'' file) (with_suffix ''.lock'' file) @ kvs"
  let ?p = "IniConfigParser_new\<lparr>ini_dic := Some d, rootValue := ConfigValue ''root'' [] []\<rparr>"
  have p: "p = ?p\<lparr>ini_dic := insert_all I ''root'' ?kvs (Some d)\<rparr>"
    using gen I(2)
    by (simp add: GenerateDefaultConfig_def Let_def Ini_Create_def IniConfigParser_new_def SetRootName_def create_all_eq
        insert_all_append)
  have r: "lower_case ''root''" "CHR '':'' \<notin> set ''root''" "root_key ?p = ''root''" "ini_dic ?p = Some d"
    by (simp_all add: lower_case_def)
  have "\<forall>(k, v)\<in>set (default_kv a b). lower_case k" for a b by (simp add: default_kv_def lower_case_def)
  then have "\<forall>(k, v)\<in>set ?kvs. lower_case k" using low unfolding set_append ball_Un by blast
  from created_entries [OF I(1) r this key, of dflt i]
  obtain d' where d': "insert_all I ''root'' ?kvs (Some d) = Some d'"
      "GetConfigString I (?p\<lparr>ini_dic := Some d'\<rparr>) key dflt
        = (case default_value kvs file key of Some v \<Rightarrow> v | None \<Rightarrow> GetConfigString I ?p key dflt)"
      "\<And>n m. default_value kvs file key = Some (show_int n @ replicate m (CHR '' ''))
        \<Longrightarrow> GetConfigInt I (?p\<lparr>ini_dic := Some d'\<rparr>) key i = n"
    unfolding default_value_def by blast
  have "p = ?p\<lparr>ini_dic := Some d'\<rparr>" unfolding p d'(1) by simp
  then show "default_value kvs file key = Some v \<longrightarrow> GetConfigString I p key dflt = v"
      "default_value kvs file key = Some (show_int n @ replicate m (CHR '' '')) \<longrightarrow> GetConfigInt I p key i = n"
    using d'(2,3) by simp_all
qed

section \<open>The areas of the gate\<close>

text \<open>The agents that a configuration names, with the areas of each.\<close>

definition agents :: "'d ini \<Rightarrow> (string \<Rightarrow> int list) \<Rightarrow> 'd IniConfigParser \<Rightarrow> int \<Rightarrow> int \<Rightarrow> (int \<times> int list) list" where
  "agents I sp p i n = map (\<lambda>j. (agent_channel I p j, agent_areas I sp p j)) [i + 1..i + n]"

definition area_entries :: "(int \<times> int list) list \<Rightarrow> (u32 \<times> u32) list" where
  "area_entries ags = concat (map (\<lambda>(c, as). map (\<lambda>a. (word_of_int a, word_of_int c)) as) ags)"

lemma agents_step: "agents I sp p i (int (Suc k)) = (agent_channel I p (i + 1), agent_areas I sp p (i + 1)) # agents I sp p (i + 1) (int k)"
proof -
  have "[i + 1..i + int (Suc k)] = (i + 1) # [i + 1 + 1..i + 1 + int k]" by (simp add: upto_rec1 add.assoc)
  then show ?thesis by (simp add: agents_def)
qed

lemma area_entries_Cons: "area_entries ((c, as) # ags) = map (\<lambda>a. (word_of_int a, word_of_int c)) as @ area_entries ags"
  by (simp add: area_entries_def)

lemma add_areas_ok:
  "(fst (add_areas c as m) \<longleftrightarrow> distinct (map (\<lambda>a. word_of_int a :: u32) as) \<and> (\<forall>a\<in>set as. m (word_of_int a) = None))
   \<and> (fst (add_areas c as m) \<longrightarrow> snd (add_areas c as m) = m ++ map_of (map (\<lambda>a. (word_of_int a, word_of_int c)) as))"
proof (induction as arbitrary: m)
  case (Cons a as)
  let ?m = "m(word_of_int a \<mapsto> word_of_int c)"
  show ?case
  proof (cases "m (word_of_int a)")
    case None
    have step: "add_areas c (a # as) m = add_areas c as ?m" using None by simp
    have d: "(\<forall>b\<in>set as. ?m (word_of_int b) = None)
        \<longleftrightarrow> word_of_int a \<notin> (\<lambda>b. word_of_int b :: u32) ` set as \<and> (\<forall>b\<in>set as. m (word_of_int b) = None)"
      by (auto simp: image_iff split: if_splits)
    have m: "?m ++ map_of (map (\<lambda>b. (word_of_int b, word_of_int c)) as)
        = m ++ map_of (map (\<lambda>b. (word_of_int b, word_of_int c)) (a # as))"
      if "word_of_int a \<notin> (\<lambda>b. word_of_int b :: u32) ` set as"
    proof -
      have "map_of (map (\<lambda>b. (word_of_int b :: u32, word_of_int c :: u32)) as) (word_of_int a) = None"
        using that by (auto simp: map_of_eq_None_iff)
      then show ?thesis by (auto simp: fun_eq_iff map_add_def split: option.split)
    qed
    have f: "fst (add_areas c as ?m) \<longleftrightarrow> distinct (map (\<lambda>a. word_of_int a :: u32) (a # as)) \<and> (\<forall>b\<in>set (a # as). m (word_of_int b) = None)"
      using Cons.IH [of ?m] None unfolding d by (simp del: fun_upd_apply) blast
    have "fst (add_areas c as ?m) \<longrightarrow> snd (add_areas c as ?m) = m ++ map_of (map (\<lambda>b. (word_of_int b, word_of_int c)) (a # as))"
    proof
      assume ok: "fst (add_areas c as ?m)"
      then have "word_of_int a \<notin> (\<lambda>b. word_of_int b :: u32) ` set as" using f by simp
      note m [OF this]
      moreover have "snd (add_areas c as ?m) = ?m ++ map_of (map (\<lambda>b. (word_of_int b, word_of_int c)) as)"
        using Cons.IH [of ?m] ok by (rule conjunct2 [THEN mp])
      ultimately show "snd (add_areas c as ?m) = m ++ map_of (map (\<lambda>b. (word_of_int b, word_of_int c)) (a # as))" by (rule trans [rotated])
    qed
    with f show ?thesis unfolding step by blast
  qed simp
qed simp

text \<open>An area that is entered is never overwritten.\<close>

lemma agents_loop_ok:
  "(fst (agents_loop I sp p i k us m vec) = 0 \<longleftrightarrow>
      distinct (map fst (agents I sp p i (int k))) \<and> us \<inter> set (map fst (agents I sp p i (int k))) = {}
      \<and> distinct (map fst (area_entries (agents I sp p i (int k))))
      \<and> (\<forall>a\<in>set (map fst (area_entries (agents I sp p i (int k)))). m a = None))
   \<and> (fst (agents_loop I sp p i k us m vec) = 0 \<longrightarrow>
      snd (agents_loop I sp p i k us m vec)
        = (m ++ map_of (area_entries (agents I sp p i (int k))), vec @ map fst (agents I sp p i (int k))))"
proof (induction k arbitrary: i us m vec)
  case 0
  then show ?case by (simp add: agents_def area_entries_def)
next
  case (Suc k)
  define c where "c = agent_channel I p (i + 1)"
  define as where "as = agent_areas I sp p (i + 1)"
  define ags where "ags = agents I sp p (i + 1) (int k)"
  define new where "new = map (\<lambda>a. (word_of_int a :: u32, word_of_int c :: u32)) as"
  have l: "agents I sp p i (int (Suc k)) = (c, as) # ags" unfolding agents_step c_def as_def ags_def ..
  have e: "area_entries ((c, as) # ags) = new @ area_entries ags" unfolding area_entries_Cons new_def ..
  have loop: "agents_loop I sp p i (Suc k) us m vec
      = (if c \<in> us then (-1, m, vec)
         else if \<not> fst (add_areas c as m) then (-1, snd (add_areas c as m), vec)
         else agents_loop I sp p (i + 1) k (insert c us) (snd (add_areas c as m)) (vec @ [c]))"
    by (simp add: Let_def case_prod_beta c_def as_def)
  have add: "fst (add_areas c as m) \<longleftrightarrow> distinct (map fst new) \<and> (\<forall>x\<in>fst ` set new. m x = None)"
      "fst (add_areas c as m) \<Longrightarrow> snd (add_areas c as m) = m ++ map_of new"
    using add_areas_ok [of c as m] by (auto simp: new_def comp_def)
  show ?case
  proof (cases "c \<in> us \<or> \<not> fst (add_areas c as m)")
    case True
    then have "fst (agents_loop I sp p i (Suc k) us m vec) = -1" unfolding loop by auto
    then show ?thesis using True add(1) unfolding l e by auto
  next
    case False
    have lp: "agents_loop I sp p i (Suc k) us m vec = agents_loop I sp p (i + 1) k (insert c us) (m ++ map_of new) (vec @ [c])"
      using False add(2) unfolding loop by simp
    have n: "(\<forall>x\<in>X. (m ++ map_of new) x = None) \<longleftrightarrow> X \<inter> fst ` set new = {} \<and> (\<forall>x\<in>X. m x = None)" for X
      by (auto simp: map_of_eq_None_iff)
    have ok: "distinct (map fst new)" "\<forall>x\<in>fst ` set new. m x = None" "c \<notin> us" using False add(1) by auto
    note IH0 = Suc.IH [of "i + 1" "insert c us" "m ++ map_of new" "vec @ [c]", folded lp ags_def, unfolded set_map n]
    note IH1 = IH0 [THEN conjunct1] and IH2 = IH0 [THEN conjunct2, THEN mp]
    have c1: "distinct (map fst ((c, as) # ags)) \<and> us \<inter> set (map fst ((c, as) # ags)) = {}
        \<and> distinct (map fst (new @ area_entries ags)) \<and> (\<forall>a\<in>set (map fst (new @ area_entries ags)). m a = None)
        \<longleftrightarrow> fst (agents_loop I sp p i (Suc k) us m vec) = 0"
      using ok unfolding IH1 by (auto simp: disjoint_iff image_iff)
    have "m ++ map_of new ++ map_of (area_entries ags) = m ++ map_of (new @ area_entries ags)"
      if "fst (agents_loop I sp p i (Suc k) us m vec) = 0"
    proof -
      have "fst ` set (area_entries ags) \<inter> fst ` set new = {}" using that unfolding IH1 by blast
      then have "map_of new ++ map_of (area_entries ags) = map_of (area_entries ags) ++ map_of new"
        by (intro map_add_comm) (simp add: dom_map_of_conv_image_fst Int_commute)
      then show ?thesis by (metis map_add_assoc map_of_append)
    qed
    with c1 IH2 show ?thesis unfolding l e by simp
  qed
qed

lemma area_entries_lookup:
  assumes "distinct (map fst (area_entries ags))"
  shows "map_of (area_entries ags) area = Some ch \<longleftrightarrow> (\<exists>(c, as)\<in>set ags. ch = word_of_int c \<and> area \<in> word_of_int ` set as)"
proof -
  have "(area, ch) \<in> set (area_entries ags) \<longleftrightarrow> (\<exists>(c, as)\<in>set ags. ch = word_of_int c \<and> area \<in> word_of_int ` set as)"
    by (induction ags) (auto simp: area_entries_Cons area_entries_def)
  then show ?thesis using assms by (simp add: map_of_eq_Some_iff)
qed

text \<open>
  C21.  The gate accepts its configuration exactly when no channel and no area is named twice, and
  then its table sends every configured area to the channel of the agent that has it, and nothing
  else; the list of agents gets all channels in order.
\<close>

theorem gate_areas_correct:
  assumes ctx: "GateContext_OnInit I sp ctx = (ret, ctx')" "vecAgentIDS ctx = []"
    and ags: "ags = agents I sp (parser ctx) 0 (int (nat (GetConfigInt I (parser ctx) ''gate:agent:num'' 0)))"
  shows "(ret = 0 \<longleftrightarrow> distinct (map fst ags) \<and> distinct (map fst (area_entries ags)))
    \<and> (ret = 0 \<longrightarrow> vecAgentIDS ctx' = map fst ags
        \<and> (\<forall>area ch. mpAreaID2ChannelID ctx' area = Some ch \<longleftrightarrow>
             (\<exists>(c, as)\<in>set ags. ch = word_of_int c \<and> area \<in> word_of_int ` set as)))"
proof -
  define k where "k = nat (GetConfigInt I (parser ctx) ''gate:agent:num'' 0)"
  define l where "l = agents_loop I sp (parser ctx) 0 k {} Map.empty []"
  have r: "ret = fst l" "mpAreaID2ChannelID ctx' = fst (snd l)" "vecAgentIDS ctx' = snd (snd l)"
    using ctx by (auto simp: GateContext_OnInit_def Let_def l_def k_def split: prod.splits)
  have ok: "fst l = 0 \<longleftrightarrow> distinct (map fst ags) \<and> distinct (map fst (area_entries ags))"
      "fst l = 0 \<longrightarrow> snd l = (map_of (area_entries ags), map fst ags)"
    using agents_loop_ok [of I sp "parser ctx" 0 k "{}" Map.empty "[]"] unfolding ags k_def [symmetric] l_def [symmetric] by simp_all
  have "map_of (area_entries ags) area = Some ch \<longleftrightarrow> (\<exists>(c, as)\<in>set ags. ch = word_of_int c \<and> area \<in> word_of_int ` set as)"
    if "fst l = 0" for area ch
    using that area_entries_lookup unfolding ok(1) by blast
  then show ?thesis using ok unfolding r by simp
qed

lemma default_value_own:
  assumes "map_of (rev (map (\<lambda>(k, v). (stored_key ''root'' k, v)) kvs)) (stored_key ''root'' key) = Some v"
  shows "default_value kvs file key = Some v"
  using assms by (simp add: default_value_def)

lemma default_gate_ints:
  assumes "ini_laws I" "ini_new I = Some d"
    "GenerateDefaultConfig I (GateContext_OnGenerateDefaultConfig I) file IniConfigParser_new = Inr (f, p)"
  shows "GetConfigInt I p ''gate:test_mode'' i = 1" "GetConfigInt I p ''gate:need_auth'' i = 0"
    "GetConfigInt I p ''gate:connx_idle'' i = 600" "GetConfigInt I p ''gate:agent:num'' i = 1"
    "GetConfigInt I p (agent_key 1 ''channel'') i = 1"
    "GetConfigString I p (agent_key 1 ''areas'') dflt = ''1 2 3 4 5''"
    "GetConfigString I p ''channel:local:name'' dflt = ''name://gate:1''"
proof -
  let ?m = "map_of (rev (map (\<lambda>(k, v). (stored_key ''root'' k, v)) gate_default_kv))"
  have gen: "GenerateDefaultConfig I (create_all I gate_default_kv) file IniConfigParser_new = Inr (f, p)"
    using assms(3) unfolding GateContext_OnGenerateDefaultConfig_def .
  have low: "\<forall>(k, v)\<in>set gate_default_kv. lower_case k" by code_simp
  note r = default_config_reads [OF assms(1,2) gen low]
  have int: "lower_case key \<and> key \<noteq> ''root'' \<and> ?m (stored_key ''root'' key) = Some (show_int n @ replicate m (CHR '' ''))
      \<Longrightarrow> GetConfigInt I p key i = n" for key n m
    using r(2) [of key n m i] default_value_own by blast
  have str: "lower_case key \<and> key \<noteq> ''root'' \<and> ?m (stored_key ''root'' key) = Some v \<Longrightarrow> GetConfigString I p key dflt = v" for key v
    using r(1) [of key v dflt] default_value_own by blast
  show "GetConfigInt I p ''gate:test_mode'' i = 1" by (rule int [where m = 0]) code_simp
  show "GetConfigInt I p ''gate:need_auth'' i = 0" by (rule int [where m = 0]) code_simp
  show "GetConfigInt I p ''gate:connx_idle'' i = 600" by (rule int [where m = 0]) code_simp
  show "GetConfigInt I p ''gate:agent:num'' i = 1" by (rule int [where m = 0]) code_simp
  show "GetConfigInt I p (agent_key 1 ''channel'') i = 1" by (rule int [where m = 1]) code_simp
  show "GetConfigString I p (agent_key 1 ''areas'') dflt = ''1 2 3 4 5''" by (rule str) code_simp
  show "GetConfigString I p ''channel:local:name'' dflt = ''name://gate:1''" by (rule str) code_simp
qed



definition two_agents :: "(string \<times> string) list GateServerContext" where
  "two_agents = \<lparr>parser = \<lparr>rootValue = ConfigValue ''root'' [] [],
       ini_dic = Some [(''gate:agent:num'', ''2''), (''gate:agent#1:channel'', ''7''), (''gate:agent#1:areas'', ''1 2''),
         (''gate:agent#2:channel'', ''8''), (''gate:agent#2:areas'', ''3'')]\<rparr>,
     channelName = [], localChannelName = [], localChannelAddr = [], channels = [],
     tickCountUs = 0, tickPollCount = 0, curTime = \<lparr>tv_sec = 0, tv_usec = 0\<rparr>, uniq_process = 0, lockFilePath = [], hook_coredump = 0, daemon = 0,
     closing = 0, runTime = \<lparr>tv_sec = 0, tv_usec = 0\<rparr>, cc_ip = [], cc_port = 0, cc_dbidx = 0, iTestMode = 0, iNeedAuth = 0,
     mpAreaID2ChannelID = Map.empty, vecAgentIDS = [], iIdleCheckPeriod = 0\<rparr>"

theorem gate_areas_correct_witness:
  "let sp = (\<lambda>s. if s = ''1 2'' then [1, 2] else [3]); r = GateContext_OnInit demo_ini sp two_agents in
   fst r = 0 \<and> vecAgentIDS (snd r) = [7, 8] \<and> mpAreaID2ChannelID (snd r) 3 = Some 8"
proof -
  let ?sp = "\<lambda>s. if s = ''1 2'' then [1, 2] else [3]" and ?p = "parser two_agents"
  have a: "agents demo_ini ?sp ?p 0 (int (nat (GetConfigInt demo_ini ?p ''gate:agent:num'' 0))) = [(7, [1, 2]), (8, [3])]"
    by code_simp
  have "vecAgentIDS two_agents = []" by (simp add: two_agents_def)
  from gate_areas_correct [OF prod.collapse [symmetric] this a [symmetric]]
  show ?thesis by (simp add: area_entries_def)
qed

section \<open>Names of channels\<close>

lemma register_local_kv:
  assumes "server_laws srv kv"
  obtains ok s' where "register_local srv sc name addr s = Inr (ok, s')"
    "case kv s (cc_key [] name) of
       None \<Rightarrow> ok = (addr \<noteq> []) \<and> kv s' = (if addr = [] then kv s else (kv s)(cc_key [] name \<mapsto> addr))
     | Some a \<Rightarrow> ok = (addr = sc (1024 * 1024) (c_str a)) \<and> kv s' = kv s"
proof -
  obtain s1 where g: "CC_GetConfig srv sc name [] s
      = Inr (map_option (\<lambda>v. sc (1024 * 1024) (c_str v)) (kv s (cc_key [] name)), s1)" "kv s1 = kv s"
    using CC_GetConfig_kv [OF assms] by blast
  obtain s2 where t: "CC_SetConfig srv name addr [] s1 = Inr (0, s2)" "kv s2 = (kv s1)(cc_key [] name \<mapsto> addr)"
    using CC_SetConfig_kv [OF assms] by blast
  show thesis
  proof (cases "kv s (cc_key [] name)")
    case None
    then show thesis using that g t by (cases "addr = []") (auto simp: register_local_def)
  next
    case (Some a)
    then show thesis using that g by (auto simp: register_local_def)
  qed
qed

text \<open>The names of the channels \<open>i + 1\<close> to \<open>i + k\<close> of a configuration.\<close>

definition peers :: "'d ini \<Rightarrow> 'd IniConfigParser \<Rightarrow> int \<Rightarrow> int \<Rightarrow> string list" where
  "peers I p i k = map (\<lambda>j. GetConfigString I p (info_key j ''name'') None) [i + 1..i + k]"

lemma peers_step: "peers I p i (int (Suc k)) = GetConfigString I p (info_key (i + 1) ''name'') None # peers I p (i + 1) (int k)"
proof -
  have "[i + 1..i + int (Suc k)] = (i + 1) # [i + 1 + 1..i + 1 + int k]" by (simp add: upto_rec1 add.assoc)
  then show ?thesis by (simp add: peers_def)
qed

definition resolved :: "(nat \<Rightarrow> string \<Rightarrow> string) \<Rightarrow> (string \<rightharpoonup> string) \<Rightarrow> string \<Rightarrow> ChannelConfig" where
  "resolved sc m name = \<lparr>cc_name = name, channelAddr = sc (1024 * 1024) (c_str (the (m (cc_key [] name))))\<rparr>"

lemma read_channels_kv:
  assumes "server_laws srv kv"
  shows "\<exists>ok chs s'. read_channels I srv sc p i k s = Inr (ok, chs, s') \<and> kv s' = kv s
    \<and> (ok \<longleftrightarrow> (\<forall>name\<in>set (peers I p i (int k)). kv s (cc_key [] name) \<noteq> None))
    \<and> (ok \<longrightarrow> chs = map (resolved sc (kv s)) (peers I p i (int k)))"
proof (induction k arbitrary: i s)
  case 0
  show ?case by (rule exI [of _ True]) (simp add: peers_def)
next
  case (Suc k)
  define name where "name = GetConfigString I p (info_key (i + 1) ''name'') None"
  obtain s1 where g: "CC_GetConfig srv sc name [] s
      = Inr (map_option (\<lambda>v. sc (1024 * 1024) (c_str v)) (kv s (cc_key [] name)), s1)" "kv s1 = kv s"
    using CC_GetConfig_kv [OF assms] by blast
  have p: "peers I p i (int (Suc k)) = name # peers I p (i + 1) (int k)" by (simp only: peers_step name_def)
  show ?case
  proof (cases "kv s (cc_key [] name)")
    case None
    then have "read_channels I srv sc p i (Suc k) s = Inr (False, [], s1)" using g by (simp add: Let_def flip: name_def)
    then show ?thesis using None g(2) unfolding p by (intro exI [of _ False]) simp
  next
    case (Some a)
    obtain ok chs s' where r: "read_channels I srv sc p (i + 1) k s1 = Inr (ok, chs, s')" "kv s' = kv s"
        "ok \<longleftrightarrow> (\<forall>name\<in>set (peers I p (i + 1) (int k)). kv s (cc_key [] name) \<noteq> None)"
        "ok \<longrightarrow> chs = map (resolved sc (kv s)) (peers I p (i + 1) (int k))"
      using Suc.IH [of "i + 1" s1] unfolding g(2) by blast
    have "read_channels I srv sc p i (Suc k) s = Inr (ok, resolved sc (kv s) name # chs, s')"
      using Some g(1) r(1) by (simp add: Let_def resolved_def flip: name_def)
    then show ?thesis using r Some unfolding p by simp
  qed
qed

text \<open>The store after a server has entered its name, and when it may go on.\<close>

definition registered :: "(string \<rightharpoonup> string) \<Rightarrow> string \<Rightarrow> string \<Rightarrow> string \<rightharpoonup> string" where
  "registered m name addr = (if m (cc_key [] name) = None then m(cc_key [] name \<mapsto> addr) else m)"

definition may_start :: "(nat \<Rightarrow> string \<Rightarrow> string) \<Rightarrow> (string \<rightharpoonup> string) \<Rightarrow> string \<Rightarrow> string \<Rightarrow> string list \<Rightarrow> bool" where
  "may_start sc m name addr names \<longleftrightarrow>
     (case m (cc_key [] name) of None \<Rightarrow> True | Some a \<Rightarrow> sc (1024 * 1024) (c_str a) = addr)
     \<and> (\<forall>q\<in>set names. registered m name addr (cc_key [] q) \<noteq> None)"

text \<open>
  C22.  Servers find each other by name.  When a server starts it enters its own address in the configuration
  centre unless the name is there already.  It goes on exactly when the address found for
  its own name is its own and every channel it is configured with is registered, and then it knows the
  registered address of every channel; otherwise \<open>Init\<close> returns \<open>-1\<close>.  The registration stays even
  then, so servers that name each other can be started one after the other and the failed ones again.
\<close>

theorem channel_names_resolve:
  assumes srv: "server_laws srv kv"
    and conf: "ReadConfigFile n I f (parser ctx) = Inr (0, p)"
      "reach (GetConfigString I p ''configcenter:ip'' None) (GetConfigInt I p ''configcenter:port'' 0)"
    and own: "name = GetConfigString I p ''channel:local:name'' None"
      "addr = GetConfigString I p ''channel:local:addr'' None" "addr \<noteq> []"
    and chs: "names = peers I p 0 (int (nat (GetConfigInt I p ''channel:num'' (-1))))"
    and store: "store = registered (kv s) name addr"
  shows "\<exists>ctx' s'. kv s' = store
    \<and> (if may_start sc (kv s) name addr names
       then AppContext_Init n I srv sc reach onInit (Some f) ctx s = bindE (onInit ctx') (\<lambda>(ret, c). Inr (ret, c, s'))
         \<and> channels ctx' = map (resolved sc store) names \<and> localChannelName ctx' = name \<and> localChannelAddr ctx' = addr
       else AppContext_Init n I srv sc reach onInit (Some f) ctx s = Inr (-1, ctx', s'))"
proof -
  define c1 where "c1 = read_common I (ctx\<lparr>parser := p, cc_ip := GetConfigString I p ''configcenter:ip'' None,
    cc_port := GetConfigInt I p ''configcenter:port'' 0, cc_dbidx := GetConfigInt I p ''configcenter:dbidx'' 0\<rparr>)"
  have l: "localChannelName c1 = name" "localChannelAddr c1 = addr" by (simp_all add: c1_def read_common_def Let_def own)
  obtain s1 where s1: "CC_Init srv True (GetConfigInt I p ''configcenter:dbidx'' 0) s = Inr (0, s1)" "kv s1 = kv s"
    using CC_Init_kv [OF srv] by blast
  obtain ok s2 where s2: "register_local srv sc name addr s1 = Inr (ok, s2)"
      "case kv s1 (cc_key [] name) of
       None \<Rightarrow> ok = (addr \<noteq> []) \<and> kv s2 = (if addr = [] then kv s1 else (kv s1)(cc_key [] name \<mapsto> addr))
     | Some a \<Rightarrow> ok = (addr = sc (1024 * 1024) (c_str a)) \<and> kv s2 = kv s1"
    by (rule register_local_kv [OF srv])
  then have ok: "ok \<longleftrightarrow> (case kv s (cc_key [] name) of None \<Rightarrow> True | Some a \<Rightarrow> sc (1024 * 1024) (c_str a) = addr)" "kv s2 = store"
    using own(3) s1(2) by (auto simp: store registered_def split: option.splits)
  obtain ok' chl s3 where s3: "read_channels I srv sc p 0 (nat (GetConfigInt I p ''channel:num'' (-1))) s2 = Inr (ok', chl, s3)"
      "kv s3 = store" "ok' \<longleftrightarrow> (\<forall>q\<in>set names. store (cc_key [] q) \<noteq> None)" "ok' \<longrightarrow> chl = map (resolved sc store) names"
    using read_channels_kv [OF srv, of I sc p 0 "nat (GetConfigInt I p ''channel:num'' (-1))" s2] unfolding ok(2) chs [symmetric]
    by (elim exE conjE) (rule that)
  have init: "AppContext_Init n I srv sc reach onInit (Some f) ctx s
      = (if \<not> ok then Inr (-1, c1, s2) else if \<not> ok' then Inr (-1, c1\<lparr>channels := chl\<rparr>, s3)
         else bindE (onInit (c1\<lparr>channels := chl, closing := 0, runTime := \<lparr>tv_sec = 0, tv_usec = 0\<rparr>\<rparr>)) (\<lambda>(ret, c). Inr (ret, c, s3)))"
    using conf s1(1) s2(1) s3(1) l by (simp add: AppContext_Init_def Let_def c1_def [symmetric])
  have m: "may_start sc (kv s) name addr names \<longleftrightarrow> ok \<and> ok'" unfolding may_start_def ok(1) s3(3) store ..
  consider "ok \<and> ok'" | "\<not> ok" | "ok \<and> \<not> ok'" by blast
  then show ?thesis
  proof cases
    case 1
    then show ?thesis unfolding m init using s3(2,4) l
      by (intro exI [of _ "c1\<lparr>channels := chl, closing := 0, runTime := \<lparr>tv_sec = 0, tv_usec = 0\<rparr>\<rparr>"] exI [of _ s3]) simp
  next
    case 2
    then show ?thesis unfolding m init using ok(2) by (intro exI [of _ c1] exI [of _ s2]) simp
  next
    case 3
    then show ?thesis unfolding m init using s3(2) by (intro exI [of _ "c1\<lparr>channels := chl\<rparr>"] exI [of _ s3]) simp
  qed
qed

text \<open>A redis server as a map.\<close>

definition demo_reply :: "int \<Rightarrow> string \<Rightarrow> redisReply" where
  "demo_reply t v = \<lparr>rp_type = t, rp_integer = 0, rp_str = v\<rparr>"

fun demo_server :: "(string \<rightharpoonup> string) redis_server" where
  "demo_server (CCGet k) m =
     (Some (case m k of None \<Rightarrow> demo_reply REDIS_REPLY_NIL [] | Some v \<Rightarrow> demo_reply REDIS_REPLY_STRING v), m)"
| "demo_server (CCSet k v) m = (Some (demo_reply REDIS_REPLY_STATUS ''OK''), m(k \<mapsto> v))"
| "demo_server (CCDel k) m = (Some (demo_reply REDIS_REPLY_STATUS ''OK''), m(k := None))"
| "demo_server (CCSelect i) m = (Some (demo_reply REDIS_REPLY_STATUS ''OK''), m)"
| "demo_server CCPing m = (Some (demo_reply REDIS_REPLY_STATUS ''PONG''), m)"

lemma demo_server_laws: "server_laws demo_server (\<lambda>m. m)"
  by (auto simp: server_laws_def demo_reply_def reply_types split: option.split)

definition demo_file :: "(string \<times> string) list" where
  "demo_file = [(''channel:local:name'', ''gate:1''), (''channel:local:addr'', ''tcp://1''), (''channel:num'', ''1''),
     (''channel:info#1:name'', ''agent:1'')]"

theorem channel_names_resolve_witness:
  "let I = demo_ini\<lparr>ini_load := (\<lambda>_. Some demo_file)\<rparr>; sc = (\<lambda>n. take (n - 1));
       start = (\<lambda>m. AppContext_Init 2 I demo_server sc (\<lambda>_ _. True) (\<lambda>c. Inr (0, c)) (Some ''f'') two_agents m) in
   (\<exists>c. start Map.empty = Inr (-1, c, ['':gate:1'' \<mapsto> ''tcp://1'']))
   \<and> (\<exists>c m. start ['':agent:1'' \<mapsto> ''tcp://2''] = Inr (0, c, m) \<and> m '':gate:1'' = Some ''tcp://1''
        \<and> channels c = [\<lparr>cc_name = ''agent:1'', channelAddr = ''tcp://2''\<rparr>])"
proof -
  define I where "I = demo_ini\<lparr>ini_load := (\<lambda>_. Some demo_file)\<rparr>"
  define sc :: "nat \<Rightarrow> string \<Rightarrow> string" where "sc = (\<lambda>n. take (n - 1))"
  define p where "p = \<lparr>rootValue = ConfigValue ''root'' [] [], ini_dic = Some demo_file\<rparr>"
  have r: "ReadConfigFile 2 I ''f'' (parser two_agents) = Inr (0, p)" unfolding I_def p_def by code_simp
  have n: "''gate:1'' = GetConfigString I p ''channel:local:name'' None" unfolding I_def p_def by code_simp
  have a: "''tcp://1'' = GetConfigString I p ''channel:local:addr'' None" unfolding I_def p_def by code_simp
  have q: "[''agent:1''] = peers I p 0 (int (nat (GetConfigInt I p ''channel:num'' (-1))))" unfolding I_def p_def by code_simp
  have k: "cc_key [] ''gate:1'' = '':gate:1''" "cc_key [] ''agent:1'' = '':agent:1''" by (simp_all add: cc_key_def)
  note t = channel_names_resolve [OF demo_server_laws r _ n a _ q refl, of "\<lambda>_ _. True", simplified]
  show ?thesis
    using t [where s = Map.empty and sc = sc and onInit = "\<lambda>c. Inr (0, c)"]
      t [where s = "['':agent:1'' \<mapsto> ''tcp://2'']" and sc = sc and onInit = "\<lambda>c. Inr (0, c)"]
    unfolding Let_def I_def [symmetric] sc_def [symmetric]
    by (auto simp: may_start_def registered_def resolved_def k sc_def c_str_def)
qed

end
