(* ===== verification/AppMain.thy ===== *)
theory AppMain
  imports AppCtx
begin

text \<open>
  The frame of every server: \<open>app/App.hpp\<close> and \<open>app/App.cpp\<close> with the console, the signals, the lock file,
  start and end, and the main loop; the second copy of the console handler in
  \<open>gate/GateConsoleHandler.cpp\<close>.

  The virtual methods and the parts that a server is made of are a record of functions on its own
  state of type \<open>'x\<close>.  What happens from outside during one round of the main loop, the signals and
  the datagrams on the console, is a value of type \<open>round\<close>.
\<close>

section \<open>Command lines\<close>

text \<open>\<open>line.find(deli, start)\<close> for a delimiter of one character.\<close>

definition str_find :: "char \<Rightarrow> string \<Rightarrow> nat \<Rightarrow> nat option" where
  "str_find c line start =
     (let e = start + length (takeWhile (\<lambda>x. x \<noteq> c) (drop start line)) in if e < length line then Some e else None)"

lemma str_find_bounds: "str_find c line start = Some e \<Longrightarrow> start \<le> e \<and> e < length line"
  by (auto simp: str_find_def Let_def split: if_splits)

function split_from :: "char \<Rightarrow> string \<Rightarrow> nat \<Rightarrow> string list" where
  "split_from c line start =
     (case str_find c line start of
        None \<Rightarrow> []
      | Some e \<Rightarrow>
          if start < length line then
            let seg = take (e - start) (drop start line) in
            (if c_str seg \<noteq> [c] \<and> start < e then [seg] else []) @ split_from c line (e + 1)
          else [])"
  by pat_completeness auto
termination
  by (relation "measure (\<lambda>(c, line, start). length line - start)") (auto dest: str_find_bounds)

declare split_from.simps [simp del]

definition SplitCMDLine :: "char \<Rightarrow> string \<Rightarrow> string list" where
  "SplitCMDLine c line = split_from c (line @ [c]) 0"

text \<open>The line that \<open>OnDataRecv\<close> makes of a datagram; the zero is written behind the bytes received.\<close>

definition console_line :: "nat \<Rightarrow> string \<Rightarrow> fault + string" where
  "console_line cap data = (if length data < cap then Inr (c_str data) else Inl OutOfBounds)"

definition GateConsole_OnCMD :: "string list \<Rightarrow> string" where
  "GateConsole_OnCMD cmdLine =
     (if cmdLine = [] then ''not comannds !''
      else take 31 (''echo:'' @ show_int (int (length cmdLine)) @ [CHR 0x0A])
        @ concat (map (\<lambda>w. ''['' @ w @ ''] '') cmdLine))"

definition GateConsole_OnDataRecv :: "nat \<Rightarrow> string \<Rightarrow> fault + string" where
  "GateConsole_OnDataRecv cap data =
     bindE (console_line cap data) (\<lambda>line. Inr (c_str (GateConsole_OnCMD (SplitCMDLine (CHR '' '') line))))"

text \<open>The text between the delimiters.\<close>

fun cmd_fields :: "char \<Rightarrow> string \<Rightarrow> string list" where
  "cmd_fields c [] = [[]]"
| "cmd_fields c (x # xs) =
     (if x = c then [] # cmd_fields c xs else (x # hd (cmd_fields c xs)) # tl (cmd_fields c xs))"

lemma cmd_fields_unfold:
  "cmd_fields c s = takeWhile (\<lambda>x. x \<noteq> c) s
     # (case dropWhile (\<lambda>x. x \<noteq> c) s of [] \<Rightarrow> [] | x # xs \<Rightarrow> cmd_fields c xs)"
  by (induction s) auto

lemma cmd_fields_no_delimiter: "w \<in> set (cmd_fields c s) \<Longrightarrow> c \<notin> set w"
proof (induction s arbitrary: w)
  case (Cons x xs)
  have "cmd_fields c xs \<noteq> []" by (cases xs) auto
  then show ?case using Cons by (cases "cmd_fields c xs") (auto split: if_splits)
qed simp

lemma split_from_fields:
  "start \<le> length line \<Longrightarrow> split_from c (line @ [c]) start = filter (\<lambda>w. w \<noteq> []) (cmd_fields c (drop start line))"
proof (induction "length line - start" arbitrary: start rule: less_induct)
  case less
  define s where "s = drop start line"
  define w where "w = takeWhile (\<lambda>x. x \<noteq> c) s"
  have d: "drop start (line @ [c]) = s @ [c]" using less.prems by (simp add: s_def)
  have tw: "takeWhile (\<lambda>x. x \<noteq> c) (s @ [c]) = w" unfolding w_def by (induction s) auto
  have lw: "start + length w \<le> length line" using less.prems by (simp add: w_def s_def) (metis add_le_imp_le_diff length_drop length_takeWhile_le le_diff_conv2 add.commute)
  have f: "str_find c (line @ [c]) start = Some (start + length w)" using lw unfolding str_find_def d tw by simp
  have tk: "take (length w) (drop start (line @ [c])) = w"
    unfolding d using takeWhile_eq_take [of "\<lambda>x. x \<noteq> c" "s @ [c]"] by (simp only: tw)
  have "c \<notin> set w" by (auto simp: w_def dest: set_takeWhileD)
  then have "c_str w \<noteq> [c]" by (metis c_str_def list.set_intros(1) set_takeWhileD)
  then have step: "split_from c (line @ [c]) start
      = (if w \<noteq> [] then [w] else []) @ split_from c (line @ [c]) (start + length w + 1)"
    using lw by (subst split_from.simps) (auto simp: f tk Let_def simp del: drop_append take_append)
  have dr: "dropWhile (\<lambda>x. x \<noteq> c) s = drop (start + length w) line"
    by (simp add: s_def w_def dropWhile_eq_drop add.commute)
  show ?case
  proof (cases "start + length w = length line")
    case True
    have e: "split_from c (line @ [c]) (length line + 1) = []" by (subst split_from.simps) (simp add: str_find_def)
    have "cmd_fields c s = [w]" using True by (subst cmd_fields_unfold) (simp add: dr flip: w_def)
    then show ?thesis unfolding step s_def [symmetric] using True e by simp
  next
    case False
    then have lt: "start + length w < length line" using lw by simp
    obtain x xs where x: "drop (start + length w) line = x # xs" using lt by (metis Cons_nth_drop_Suc)
    have xs: "xs = drop (start + length w + 1) line" using x by (metis Suc_eq_plus1 drop_Suc list.sel(3) tl_drop)
    have "cmd_fields c s = w # cmd_fields c xs" by (subst cmd_fields_unfold) (simp add: dr x flip: w_def)
    moreover have "split_from c (line @ [c]) (start + length w + 1) = filter (\<lambda>w. w \<noteq> []) (cmd_fields c xs)"
      unfolding xs using less.hyps [of "start + length w + 1"] lt by simp
    ultimately show ?thesis unfolding step s_def [symmetric] by simp
  qed
qed

section \<open>The application\<close>

definition APP_CTRL_CLOSING_EXCEPTION :: int where "APP_CTRL_CLOSING_EXCEPTION = 0"
definition APP_CTRL_CLOSING_RESTART :: int where "APP_CTRL_CLOSING_RESTART = 1"
definition APP_CTRL_CLOSING_STOP :: int where "APP_CTRL_CLOSING_STOP = 2"
definition APP_CTRL_CLOSING_COREDUMP :: int where "APP_CTRL_CLOSING_COREDUMP = 3"

lemmas closing_reasons =
  APP_CTRL_CLOSING_EXCEPTION_def APP_CTRL_CLOSING_RESTART_def APP_CTRL_CLOSING_STOP_def APP_CTRL_CLOSING_COREDUMP_def

definition SIGUSR1 :: int where "SIGUSR1 = 10"
definition SIGUSR2 :: int where "SIGUSR2 = 12"

text \<open>
  The object \<open>App\<close>: what \<open>m_pAppCtx\<close> points to, the lock file that is open, and the parts of the server.  In
  \<open>AppMethods\<close> the fields \<open>vm_\<close> are the virtual methods; \<open>ap_proxy_Init\<close>, \<open>ap_timer_Init\<close> and \<open>ap_Destroy\<close> are
  the calls on the channel proxy and the timer manager (the last one on all parts), \<open>ap_console\<close> says
  whether the console socket can be bound, \<open>ap_recv_cap\<close> is the size of its buffer, \<open>ap_usappend\<close> and
  \<open>ap_time_text\<close> are functions of \<open>base/DateTime.h\<close>.
\<close>

record ('c, 'x) App =
  m_pAppCtx :: "'c option"
  m_lockFile :: "string option"
  parts :: 'x

record ('c, 'x) AppMethods =
  vm_OnInit :: "'c \<Rightarrow> 'x \<Rightarrow> fault + int \<times> 'c \<times> 'x"
  vm_OnStart :: "'c \<Rightarrow> 'x \<Rightarrow> fault + int \<times> 'c \<times> 'x"
  vm_OnCtrl :: "string list \<Rightarrow> 'c \<Rightarrow> 'x \<Rightarrow> fault + string \<times> 'c \<times> 'x"
  vm_OnTick :: "int \<Rightarrow> 'c \<Rightarrow> 'x \<Rightarrow> fault + int \<times> 'c \<times> 'x"
  vm_OnPoll :: "int \<Rightarrow> 'c \<Rightarrow> 'x \<Rightarrow> fault + int \<times> 'c \<times> 'x"
  vm_OnClosing :: "int \<Rightarrow> 'c \<Rightarrow> 'x \<Rightarrow> fault + int \<times> 'c \<times> 'x"
  vm_OnDestroy :: "'x \<Rightarrow> fault + int \<times> 'x"
  ap_proxy_Init :: "'c \<Rightarrow> 'x \<Rightarrow> fault + int \<times> 'x"
  ap_timer_Init :: "int \<Rightarrow> 'x \<Rightarrow> int \<times> timeval \<times> 'x"
  ap_Destroy :: "'x \<Rightarrow> 'x"
  ap_console :: "string \<Rightarrow> int \<Rightarrow> bool"
  ap_recv_cap :: nat
  ap_usappend :: "timeval \<Rightarrow> int \<Rightarrow> timeval"
  ap_time_text :: "timeval \<Rightarrow> string"

text \<open>A virtual method on the context and the parts.\<close>

definition call_method :: "('c \<Rightarrow> 'x \<Rightarrow> fault + 'r \<times> 'c \<times> 'x) \<Rightarrow> ('c, 'x) App \<Rightarrow> fault + 'r \<times> ('c, 'x) App" where
  "call_method f app =
     (case m_pAppCtx app of
        None \<Rightarrow> Inl NullDeref
      | Some c \<Rightarrow> bindE (f c (parts app)) (\<lambda>(r, c, x). Inr (r, app\<lparr>m_pAppCtx := Some c, parts := x\<rparr>)))"

definition Shutdown :: "int \<Rightarrow> (('d, 'e) AppContext_scheme, 'x) App \<Rightarrow> fault + int \<times> (('d, 'e) AppContext_scheme, 'x) App" where
  "Shutdown reason = call_method (\<lambda>c x. if closing c = 0 then Inr (0, c\<lparr>closing := reason\<rparr>, x) else Inr (-1, c, x))"

definition OnSignal :: "int \<Rightarrow> (('d, 'e) AppContext_scheme, 'x) App \<Rightarrow> fault + (('d, 'e) AppContext_scheme, 'x) App" where
  "OnSignal signo app =
     (if signo = SIGUSR1 then bindE (Shutdown APP_CTRL_CLOSING_RESTART app) (\<lambda>(r, app). Inr app)
      else if signo = SIGUSR2 then bindE (Shutdown APP_CTRL_CLOSING_STOP app) (\<lambda>(r, app). Inr app)
      else Inr app)"

fun OnSignals :: "int list \<Rightarrow> (('d, 'e) AppContext_scheme, 'x) App \<Rightarrow> fault + (('d, 'e) AppContext_scheme, 'x) App" where
  "OnSignals [] app = Inr app"
| "OnSignals (s # ss) app = bindE (OnSignal s app) (OnSignals ss)"

definition App_Tick ::
  "(('d, 'e) AppContext_scheme, 'x) AppMethods \<Rightarrow> int \<Rightarrow> (('d, 'e) AppContext_scheme, 'x) App
     \<Rightarrow> fault + int \<times> (('d, 'e) AppContext_scheme, 'x) App" where
  "App_Tick M us = call_method (\<lambda>c. vm_OnTick M us (c\<lparr>runTime := ap_usappend M (runTime c) us\<rparr>))"

definition App_UpdateTick ::
  "(('d, 'e) AppContext_scheme, 'x) AppMethods \<Rightarrow> timeval \<Rightarrow> int \<Rightarrow> (('d, 'e) AppContext_scheme, 'x) App
     \<Rightarrow> fault + (('d, 'e) AppContext_scheme, 'x) App" where
  "App_UpdateTick M tvNow us app =
     (case m_pAppCtx app of
        None \<Rightarrow> Inr app
      | Some c \<Rightarrow> bindE (App_Tick M us (app\<lparr>m_pAppCtx := Some (c\<lparr>curTime := tvNow\<rparr>)\<rparr>)) (\<lambda>(r, app). Inr app))"

definition rtime_text :: "int \<Rightarrow> string" where
  "rtime_text s = show_int (s sdiv 3600) @ '' hours '' @ show_int ((s smod 3600) sdiv 60) @ '' min ''
     @ show_int (s smod 60) @ '' seconds''"

definition Ctrl ::
  "(('d, 'e) AppContext_scheme, 'x) AppMethods \<Rightarrow> string list \<Rightarrow> (('d, 'e) AppContext_scheme, 'x) App
     \<Rightarrow> fault + string \<times> (('d, 'e) AppContext_scheme, 'x) App" where
  "Ctrl M cmdLine =
     (case cmdLine of
        [] \<Rightarrow> (\<lambda>app. Inl OutOfBounds)
      | mainCMD # args \<Rightarrow>
          if mainCMD = ''quit'' then call_method (\<lambda>c x. Inr (''system is closing ...'', c\<lparr>closing := 1\<rparr>, x))
          else if mainCMD = ''time'' then call_method (\<lambda>c x. Inr (mainCMD @ '':'' @ ap_time_text M (curTime c), c, x))
          else if mainCMD = ''rtime'' then
            call_method (\<lambda>c x. Inr (mainCMD @ '':'' @ take 127 (rtime_text (tv_sec (runTime c))), c, x))
          else call_method (vm_OnCtrl M cmdLine))"

definition App_OnDataRecv ::
  "(('d, 'e) AppContext_scheme, 'x) AppMethods \<Rightarrow> string \<Rightarrow> (('d, 'e) AppContext_scheme, 'x) App
     \<Rightarrow> fault + string \<times> (('d, 'e) AppContext_scheme, 'x) App" where
  "App_OnDataRecv M data app =
     bindE (console_line (ap_recv_cap M) data) (\<lambda>line.
     bindE (Ctrl M (SplitCMDLine (CHR '' '') line) app) (\<lambda>(rsp, app). Inr (c_str rsp, app)))"

text \<open>The datagrams that the console takes in one call of \<open>Loop\<close>; the answers go back to their senders.\<close>

fun console_Loop ::
  "(('d, 'e) AppContext_scheme, 'x) AppMethods \<Rightarrow> string list \<Rightarrow> (('d, 'e) AppContext_scheme, 'x) App
     \<Rightarrow> fault + string list \<times> (('d, 'e) AppContext_scheme, 'x) App" where
  "console_Loop M [] app = Inr ([], app)"
| "console_Loop M (d # ds) app =
     bindE (App_OnDataRecv M d app) (\<lambda>(rsp, app).
     bindE (console_Loop M ds app) (\<lambda>(rsps, app). Inr (rsp # rsps, app)))"

definition App_Poll ::
  "(('d, 'e) AppContext_scheme, 'x) AppMethods \<Rightarrow> string list \<Rightarrow> int \<Rightarrow> (('d, 'e) AppContext_scheme, 'x) App
     \<Rightarrow> fault + int \<times> (('d, 'e) AppContext_scheme, 'x) App" where
  "App_Poll M datagrams num app = bindE (console_Loop M datagrams app) (\<lambda>(rsps, app). call_method (vm_OnPoll M num) app)"

definition Closing ::
  "('c, 'x) AppMethods \<Rightarrow> int \<Rightarrow> ('c, 'x) App \<Rightarrow> fault + int \<times> ('c, 'x) App" where
  "Closing M reason = call_method (vm_OnClosing M reason)"

text \<open>\<open>OnCoreDump\<close> may loop forever; the first argument bounds the number of calls.\<close>

fun OnCoreDump :: "nat \<Rightarrow> ('c, 'x) AppMethods \<Rightarrow> ('c, 'x) App \<Rightarrow> fault + ('c, 'x) App" where
  "OnCoreDump 0 M app = Inl NoReturn"
| "OnCoreDump (Suc n) M app =
     bindE (Closing M APP_CTRL_CLOSING_COREDUMP app) (\<lambda>(r, app). if 0 < r then OnCoreDump n M app else Inr app)"

definition App_Destroy :: "('c, 'x) AppMethods \<Rightarrow> ('c, 'x) App \<Rightarrow> fault + int \<times> ('c, 'x) App" where
  "App_Destroy M app =
     bindE (vm_OnDestroy M (parts app)) (\<lambda>(ret, x).
       Inr (ret, app\<lparr>m_pAppCtx := None, m_lockFile := None, parts := ap_Destroy M x\<rparr>))"

section \<open>Start\<close>

text \<open>
  The lock file.  The file system maps paths to contents; \<open>le_open\<close> says whether \<open>Open\<close> succeeds for
  a mode, \<open>le_getline\<close> what the buffer of 64 bytes holds after \<open>GetLine\<close> on a content, \<open>le_pid\<close> is the own
  process.  The result has the path of the file that stays open and the signals sent.
\<close>

type_synonym fsys = "string \<rightharpoonup> string"

record lock_env =
  le_open :: "string \<Rightarrow> string \<Rightarrow> bool"
  le_getline :: "string \<Rightarrow> string"
  le_pid :: int

definition overwrite :: "string \<Rightarrow> string \<Rightarrow> string" where
  "overwrite new old = new @ drop (length new) old"

definition touch :: "lock_env \<Rightarrow> string \<Rightarrow> fsys \<Rightarrow> fsys" where
  "touch le path fs = (if fs path = None \<and> le_open le path ''w+'' then fs(path \<mapsto> []) else fs)"

definition write_pid :: "lock_env \<Rightarrow> string \<Rightarrow> fsys \<Rightarrow> fsys" where
  "write_pid le path fs =
     (case fs path of
        None \<Rightarrow> fs
      | Some old \<Rightarrow> fs(path \<mapsto> overwrite (take 63 (show_int (le_pid le)) @ [CHR 0x00]) old))"

definition InitLockFile ::
  "lock_env \<Rightarrow> bool \<Rightarrow> ('d, 'e) AppContext_scheme \<Rightarrow> fsys \<Rightarrow> int \<times> string option \<times> fsys \<times> (int \<times> int) list" where
  "InitLockFile le forStop c fs =
     (let path = lockFilePath c; existFile = fs path \<noteq> None; fs1 = touch le path fs in
      if uniq_process c = 0 then (0, None, fs, [])
      else if \<not> le_open le path ''r+'' \<or> fs1 path = None then (-1, None, fs1, [])
      else if existFile then
        let pidBuffer = le_getline le (the (fs1 path)); pid = strtol pidBuffer in
        if pidBuffer = [] then (-1, None, fs1, [])
        else if \<not> forStop then (0, Some path, write_pid le path fs1, [(SIGUSR1, pid)])
        else (-1, Some path, fs1, [(SIGUSR2, pid)])
      else (0, Some path, write_pid le path fs1, []))"

definition InitConsole :: "('c, 'x) AppMethods \<Rightarrow> 'd ini \<Rightarrow> ('d, 'e) AppContext_scheme \<Rightarrow> int" where
  "InitConsole M I c =
     (if ap_console M (GetConfigString I (parser c) ''console:ip'' None) (GetConfigInt I (parser c) ''console:port'' 0)
      then 0 else -1)"

definition App_Init ::
  "(('d, 'e) AppContext_scheme, 'x) AppMethods \<Rightarrow> 'd ini \<Rightarrow> lock_env \<Rightarrow> bool \<Rightarrow> ('d, 'e) AppContext_scheme
     \<Rightarrow> (('d, 'e) AppContext_scheme, 'x) App \<Rightarrow> fsys
     \<Rightarrow> fault + int \<times> (('d, 'e) AppContext_scheme, 'x) App \<times> fsys \<times> (int \<times> int) list" where
  "App_Init M I le forStop c app fs =
     (case InitLockFile le forStop c fs of (ret, lock, fs, sigs) \<Rightarrow>
        let app = app\<lparr>m_pAppCtx := Some c, m_lockFile := lock\<rparr> in
        if ret \<noteq> 0 then Inr (-1, app, fs, sigs)
        else if InitConsole M I c \<noteq> 0 then Inr (-1, app, fs, sigs)
        else
          bindE (ap_proxy_Init M c (parts app)) (\<lambda>(ret, x).
            let app = app\<lparr>parts := x\<rparr> in
            if ret \<noteq> 0 then Inr (-1, app, fs, sigs)
            else
              case ap_timer_Init M (tickCountUs c) x of (ret, now, x) \<Rightarrow>
                let app = app\<lparr>parts := x\<rparr> in
                if ret \<noteq> 0 then Inr (-1, app, fs, sigs)
                else
                  bindE (call_method (vm_OnInit M) (app\<lparr>m_pAppCtx := Some (c\<lparr>curTime := now\<rparr>)\<rparr>)) (\<lambda>(ret, app).
                    Inr (if ret \<noteq> 0 then -1 else 0, app, fs, sigs))))"

definition App_Start :: "('c, 'x) AppMethods \<Rightarrow> ('c, 'x) App \<Rightarrow> fault + int \<times> ('c, 'x) App" where
  "App_Start M app = bindE (call_method (vm_OnStart M) app) (\<lambda>(ret, app). Inr (if ret \<noteq> 0 then -1 else 0, app))"

section \<open>The main loop\<close>

text \<open>
  One round of the main loop: the signals delivered before \<open>closing\<close> is read and the datagrams that wait
  at the console.  The loop runs until it breaks; \<open>None\<close> means that it still runs after the given rounds.
\<close>

record round =
  rd_signals :: "int list"
  rd_datagrams :: "string list"

fun main_loop ::
  "(('d, 'e) AppContext_scheme, 'x) AppMethods \<Rightarrow> round list \<Rightarrow> (('d, 'e) AppContext_scheme, 'x) App
     \<Rightarrow> fault + bool \<times> (('d, 'e) AppContext_scheme, 'x) App" where
  "main_loop M [] app = Inr (False, app)"
| "main_loop M (r # rs) app =
     bindE (OnSignals (rd_signals r) app) (\<lambda>app.
       case m_pAppCtx app of
         None \<Rightarrow> Inl NullDeref
       | Some c \<Rightarrow>
           if closing c = 0 then
             bindE (App_Poll M (rd_datagrams r) (tickPollCount c) app) (\<lambda>(proc, app). main_loop M rs app)
           else
             bindE (Closing M (closing c) app) (\<lambda>(proc, app).
               if proc \<le> 0 then Inr (True, app) else main_loop M rs app))"

text \<open>\<open>App::main\<close> after the context has been read; the result \<open>None\<close> is a server that still runs.\<close>

definition App_run ::
  "(('d, 'e) AppContext_scheme, 'x) AppMethods \<Rightarrow> 'd ini \<Rightarrow> lock_env \<Rightarrow> bool \<Rightarrow> round list \<Rightarrow> ('d, 'e) AppContext_scheme
     \<Rightarrow> (('d, 'e) AppContext_scheme, 'x) App \<Rightarrow> fsys
     \<Rightarrow> fault + int option \<times> (('d, 'e) AppContext_scheme, 'x) App \<times> fsys \<times> (int \<times> int) list" where
  "App_run M I le forStop rounds c app fs =
     bindE (App_Init M I le forStop c app fs) (\<lambda>(ret, app, fs, sigs).
       if ret \<noteq> 0 then bindE (App_Destroy M app) (\<lambda>(r, app). Inr (Some (-1), app, fs, sigs))
       else
         bindE (App_Start M (app\<lparr>m_pAppCtx := map_option (\<lambda>c. c\<lparr>closing := 0\<rparr>) (m_pAppCtx app)\<rparr>)) (\<lambda>(ret, app).
         bindE (if ret = 0 then main_loop M rounds app else Inr (True, app)) (\<lambda>(done, app).
           if \<not> done then Inr (None, app, fs, sigs)
           else bindE (App_Destroy M app) (\<lambda>(ret, app). Inr (Some ret, app, fs, sigs)))))"

text \<open>The command line: \<open>gen\<close> writes the default configuration, \<open>init\<close> reads the context from a file.\<close>

definition App_main ::
  "(('d, 'e) AppContext_scheme, 'x) AppMethods \<Rightarrow> 'd ini \<Rightarrow> lock_env \<Rightarrow> (string \<Rightarrow> fsys \<Rightarrow> fault + fsys)
     \<Rightarrow> (string \<Rightarrow> fault + int \<times> ('d, 'e) AppContext_scheme) \<Rightarrow> string list \<Rightarrow> round list
     \<Rightarrow> (('d, 'e) AppContext_scheme, 'x) App \<Rightarrow> fsys
     \<Rightarrow> fault + int option \<times> (('d, 'e) AppContext_scheme, 'x) App \<times> fsys \<times> (int \<times> int) list" where
  "App_main M I le gen init argv rounds app fs =
     (case argv of
        [] \<Rightarrow> Inl OutOfBounds
      | [prog] \<Rightarrow> bindE (gen prog fs) (\<lambda>fs. Inr (Some (-1), app, fs, []))
      | prog # conf # opts \<Rightarrow>
          if opts \<noteq> [] \<and> hd opts \<noteq> ''stop'' \<and> hd opts \<noteq> ''restart'' then Inr (Some (-1), app, fs, [])
          else
            bindE (init conf) (\<lambda>(ret, c).
              if ret \<noteq> 0 then Inr (Some (-1), app, fs, [])
              else App_run M I le (opts \<noteq> []) rounds c app fs))"

section \<open>Commands\<close>

text \<open>
  The words of a command line are the non-empty texts between the delimiters, in order: the loop over
  positions agrees with the structural definition of the fields of a line.
\<close>

lemma SplitCMDLine_eq: "SplitCMDLine c line = filter (\<lambda>w. w \<noteq> []) (cmd_fields c line)"
  using split_from_fields [of 0 line c] by (simp add: SplitCMDLine_def)

lemma SplitCMDLine_Nil: "SplitCMDLine c line = [] \<longleftrightarrow> set line \<subseteq> {c}"
proof -
  have "filter (\<lambda>w. w \<noteq> []) (cmd_fields c line) = [] \<longleftrightarrow> set line \<subseteq> {c}"
    by (induction line) (auto split: if_splits)
  then show ?thesis by (simp only: SplitCMDLine_eq)
qed

lemma Shutdown_simps:
  assumes "m_pAppCtx app = Some c"
  shows "Shutdown reason app = Inr (if closing c = 0 then 0 else -1,
    app\<lparr>m_pAppCtx := Some (if closing c = 0 then c\<lparr>closing := reason\<rparr> else c)\<rparr>)"
  using assms by (cases app) (auto simp: Shutdown_def call_method_def)

lemma Ctrl_no_null:
  assumes "m_pAppCtx app = Some c" "ws \<noteq> []" "\<exists>r. vm_OnCtrl M ws c (parts app) = Inr r"
  shows "\<exists>rsp app'. Ctrl M ws app = Inr (rsp, app')"
  using assms by (cases ws) (auto simp: Ctrl_def call_method_def)

text \<open>
  C37.  A datagram at the console is answered unless it holds nothing but blanks: then \<open>Ctrl\<close> reads the
  first word of an empty list.  (The handler in \<open>GateConsoleHandler\<close> tests for the empty list.)
\<close>

theorem blank_datagram_faults:
  assumes ctx: "m_pAppCtx app = Some c" and cap: "length data < ap_recv_cap M"
    and ctrl: "\<forall>ws. ws \<noteq> [] \<longrightarrow> (\<exists>r. vm_OnCtrl M ws c (parts app) = Inr r)"
  shows "if set (c_str data) \<subseteq> {CHR '' ''} then App_OnDataRecv M data app = Inl OutOfBounds
    else \<exists>rsp app'. App_OnDataRecv M data app = Inr (rsp, app')"
proof -
  let ?ws = "SplitCMDLine (CHR '' '') (c_str data)"
  have r: "App_OnDataRecv M data app = bindE (Ctrl M ?ws app) (\<lambda>(rsp, app). Inr (c_str rsp, app))"
    using cap by (simp add: App_OnDataRecv_def console_line_def)
  show ?thesis
  proof (cases "set (c_str data) \<subseteq> {CHR '' ''}")
    case True
    then have "?ws = []" by (simp only: SplitCMDLine_Nil)
    then show ?thesis using True by (simp add: r Ctrl_def)
  next
    case False
    then have w: "?ws \<noteq> []" by (simp only: SplitCMDLine_Nil not_False_eq_True)
    then have "\<exists>r. vm_OnCtrl M ?ws c (parts app) = Inr r" by (rule ctrl [rule_format])
    from Ctrl_no_null [OF ctx w this] obtain rsp app' where "Ctrl M ?ws app = Inr (rsp, app')" by blast
    then show ?thesis unfolding r if_not_P [OF False] by simp
  qed
qed

section \<open>Shutdown\<close>

text \<open>The reason of the first signal that asks for the end.\<close>

fun first_reason :: "int list \<Rightarrow> int" where
  "first_reason [] = 0"
| "first_reason (s # ss) =
     (if s = SIGUSR1 then APP_CTRL_CLOSING_RESTART else if s = SIGUSR2 then APP_CTRL_CLOSING_STOP else first_reason ss)"

lemma OnSignals_first:
  assumes "m_pAppCtx app = Some c"
  shows "OnSignals ss app = Inr (app\<lparr>m_pAppCtx := Some (if closing c = 0 then c\<lparr>closing := first_reason ss\<rparr> else c)\<rparr>)"
  using assms
proof (induction ss arbitrary: app c)
  case Nil
  then show ?case by (cases app) auto
next
  case (Cons s ss)
  then show ?case
    by (auto simp: OnSignal_def Shutdown_simps [OF Cons.prems] Cons.IH closing_reasons)
qed

lemma main_loop_closing:
  assumes "m_pAppCtx app = Some c" "closing c \<noteq> 0"
  shows "main_loop M (r # rs) app
    = bindE (Closing M (closing c) app) (\<lambda>(proc, app). if proc \<le> 0 then Inr (True, app) else main_loop M rs app)"
  using assms by (cases app) (simp add: OnSignals_first)

text \<open>
  C29.  A signal ends the server.  The first of the signals decides the reason, later ones change
  nothing, and in the same round \<open>OnClosing\<close> is called with that reason; the main loop ends in this round
  exactly when \<open>OnClosing\<close> answers zero or less, without another poll.
\<close>

theorem signal_ends_loop:
  assumes ctx: "m_pAppCtx app = Some c" "closing c = 0"
    and sig: "reason = first_reason (rd_signals r)" "reason \<noteq> 0"
    and cls: "vm_OnClosing M reason (c\<lparr>closing := reason\<rparr>) (parts app) = Inr (proc, c', x')"
  shows "main_loop M (r # rs) app
    = (if proc \<le> 0 then Inr (True, app\<lparr>m_pAppCtx := Some c', parts := x'\<rparr>)
       else main_loop M rs (app\<lparr>m_pAppCtx := Some c', parts := x'\<rparr>))"
  using ctx cls sig(2) OnSignals_first [OF ctx(1), of "rd_signals r"]
  by (cases app) (simp add: sig(1) [symmetric] Closing_def call_method_def)

lemma signal_after_destroy:
  assumes "App_Destroy M app = Inr (ret, app')"
  shows "OnSignal SIGUSR1 app' = Inl NullDeref" "OnSignal SIGUSR2 app' = Inl NullDeref"
  using assms by (auto simp: App_Destroy_def bindE_Inr OnSignal_def Shutdown_def call_method_def SIGUSR1_def SIGUSR2_def)

section \<open>The lock file\<close>

lemma write_pid_content:
  assumes "fs path \<noteq> None" "0 \<le> le_pid le" "le_pid le < 2147483648"
  shows "\<exists>t. write_pid le path fs path = Some (show_int (le_pid le) @ CHR 0x00 # t)"
proof -
  have "length (show_int (le_pid le)) \<le> 21" by (rule show_int_short) (use assms in simp)
  then show ?thesis using assms(1) by (auto simp: write_pid_def overwrite_def)
qed

lemma InitLockFile_writes:
  assumes "InitLockFile le forStop c fs = (0, lock, fs1, sigs)" "uniq_process c \<noteq> 0"
  shows "\<exists>fs0. fs1 = write_pid le (lockFilePath c) fs0 \<and> fs0 (lockFilePath c) \<noteq> None"
  using assms by (auto simp: InitLockFile_def Let_def split: if_splits)

text \<open>
  C31.  The lock file leads to the running process.  After a process has started, \<open>stop\<close> sends
  \<open>SIGUSR2\<close> to exactly that process and does not start; a plain start sends it \<open>SIGUSR1\<close> and takes the lock file over.
\<close>

theorem lock_file_finds_process:
  assumes first: "InitLockFile le forStop c fs = (0, lock, fs1, sigs)" "uniq_process c \<noteq> 0"
      "0 \<le> le_pid le" "le_pid le < 2147483648"
    and second: "uniq_process c' \<noteq> 0" "lockFilePath c' = lockFilePath c" "le_open le' (lockFilePath c) ''r+''"
    and getline: "\<forall>s t. CHR 0x00 \<notin> set s \<and> CHR 0x0A \<notin> set s \<and> length s < 63 \<longrightarrow> le_getline le' (s @ CHR 0x00 # t) = s"
  shows "InitLockFile le' True c' fs1 = (-1, Some (lockFilePath c), fs1, [(SIGUSR2, le_pid le)])
    \<and> InitLockFile le' False c' fs1
        = (0, Some (lockFilePath c), write_pid le' (lockFilePath c) fs1, [(SIGUSR1, le_pid le)])"
proof -
  let ?path = "lockFilePath c"
  obtain t where t: "fs1 ?path = Some (show_int (le_pid le) @ CHR 0x00 # t)"
    using InitLockFile_writes [OF first(1,2)] write_pid_content [OF _ first(3,4)] by blast
  have "length (show_int (le_pid le)) \<le> 21" by (rule show_int_short) (use first(3,4) in simp)
  moreover have "CHR 0x0A \<notin> set (show_int (le_pid le))"
    using show_int_chars [of "CHR 0x0A" "le_pid le"] by (auto simp: is_digit_def)
  ultimately have g: "le_getline le' (show_int (le_pid le) @ CHR 0x00 # t) = show_int (le_pid le)"
    using getline by simp
  have "touch le' ?path fs1 = fs1" using t by (simp add: touch_def)
  then show ?thesis using t g second by (simp add: InitLockFile_def Let_def)
qed

section \<open>Ends of a run\<close>

lemma App_Destroy_clears:
  "App_Destroy M app = Inr (ret, app') \<Longrightarrow> m_pAppCtx app' = None \<and> m_lockFile app' = None"
  by (auto simp: App_Destroy_def bindE_Inr)

text \<open>A run that ends has destroyed the application, whichever way it took.\<close>

lemma App_run_ends:
  assumes "App_run M I le forStop rounds c app fs = Inr (Some ret, app', fs', sigs)"
  shows "m_pAppCtx app' = None \<and> m_lockFile app' = None"
  using assms by (auto simp: App_run_def bindE_Inr split: if_splits dest: App_Destroy_clears)

text \<open>The options \<open>stop\<close> and \<open>restart\<close> do the same: neither starts a server when another one runs.\<close>

lemma restart_only_stops:
  "App_main M I le gen init [prog, conf, ''restart''] rounds app fs = App_main M I le gen init [prog, conf, ''stop''] rounds app fs"
  by (simp add: App_main_def cong del: if_weak_cong)

end
