(* ===== verification/GateInv.thy ===== *)
theory GateInv
  imports Gate
begin

text \<open>
  The tables of the gate stay consistent: the invariant between the connection vector and the map
  of descriptors, kept by every handler, and with it the safety of the code that cuts the client's
  bytes into frames.  Inputs from the network are arbitrary.
\<close>

section \<open>What the invariant sees of a gate\<close>

definition conn_core :: "Connection \<Rightarrow> int \<times> int \<times> int \<times> int \<times> bool \<times> int \<times> int" where
  "conn_core c = (sk_fd (cx_cliSocket c), cx_bState c, cx_iUsed c, cx_iMsgLen c, cx_pBuffer c \<noteq> None,
     cx_iArea c, cx_iDstChannel c)"

text \<open>The gate up to statistics, logs, buffer contents and the two managers.\<close>

definition same_core :: "Gate \<Rightarrow> Gate \<Rightarrow> bool" where
  "same_core g g' \<longleftrightarrow> map conn_core (m_vecConnections g') = map conn_core (m_vecConnections g)
     \<and> m_mpConnections g' = m_mpConnections g"

text \<open>
  One connection is well formed: a known state, an empty carry-over, a message length of 16 bits, a
  buffer while it is in use, and, once authorised, the channel of its area.
\<close>

definition conn_ok :: "GateEnv \<Rightarrow> Connection \<Rightarrow> bool" where
  "conn_ok E c \<longleftrightarrow> cx_bState c \<in> {STATE_INVALID, STATE_CONNECTED, STATE_AUTHING, STATE_AUTHORIZED}
     \<and> cx_iUsed c = 0 \<and> 0 \<le> cx_iMsgLen c \<and> cx_iMsgLen c \<le> 65535
     \<and> (cx_bState c \<noteq> STATE_INVALID \<longrightarrow> cx_pBuffer c \<noteq> None)
     \<and> (cx_bState c = STATE_AUTHORIZED \<longrightarrow>
          map_option sint (mpAreaID2ChannelID E (word_of_int (cx_iArea c))) = Some (cx_iDstChannel c)
          \<and> iNeedAuth E = 0)"

definition gate_inv :: "GateEnv \<Rightarrow> Gate \<Rightarrow> bool" where
  "gate_inv E g \<longleftrightarrow> (\<forall>i<length (m_vecConnections g). conn_ok E (conn g i))
     \<and> (0 < length (m_vecConnections g) \<longrightarrow> cx_bState (conn g 0) = STATE_INVALID)
     \<and> (\<forall>fd idx. m_mpConnections g fd = Some idx \<longrightarrow> idx \<noteq> 0 \<longrightarrow>
          0 < idx \<and> idx < int (length (m_vecConnections g))
          \<and> cx_bState (conn g (nat idx)) \<noteq> STATE_INVALID \<and> conn_fd g (nat idx) = fd)
     \<and> (\<forall>i<length (m_vecConnections g). cx_bState (conn g i) \<noteq> STATE_INVALID \<longrightarrow>
          m_mpConnections g (conn_fd g i) = Some (int i))"

lemma same_core_refl [simp]: "same_core g g"
  by (simp add: same_core_def)

lemma same_core_trans: "same_core g g' \<Longrightarrow> same_core g' g'' \<Longrightarrow> same_core g g''"
  by (simp add: same_core_def)

lemma same_core_length: "same_core g g' \<Longrightarrow> length (m_vecConnections g') = length (m_vecConnections g)"
  unfolding same_core_def by (metis length_map)

lemma same_core_conn:
  assumes "same_core g g'" and "i < length (m_vecConnections g)"
  shows "conn_core (conn g' i) = conn_core (conn g i)"
  using assms same_core_length [OF assms(1)] unfolding same_core_def by (metis nth_map)

lemma conn_ok_core: "conn_core c' = conn_core c \<Longrightarrow> conn_ok E c' = conn_ok E c"
  by (simp add: conn_core_def conn_ok_def)

lemma gate_inv_map:
  assumes "gate_inv E g" and "m_mpConnections g fd = Some idx" and "idx \<noteq> 0"
  shows "0 < idx \<and> idx < int (length (m_vecConnections g))
    \<and> cx_bState (conn g (nat idx)) \<noteq> STATE_INVALID \<and> conn_fd g (nat idx) = fd"
  using assms unfolding gate_inv_def by blast

lemma gate_inv_live:
  assumes "gate_inv E g" and "i < length (m_vecConnections g)" and "cx_bState (conn g i) \<noteq> STATE_INVALID"
  shows "m_mpConnections g (conn_fd g i) = Some (int i) \<and> 0 < i"
  using assms unfolding gate_inv_def by (metis gr_zeroI)

lemma gate_inv_conn: "gate_inv E g \<Longrightarrow> i < length (m_vecConnections g) \<Longrightarrow> conn_ok E (conn g i)"
  by (simp add: gate_inv_def)

lemma gate_inv_same_core:
  assumes "same_core g g'" and "gate_inv E g"
  shows "gate_inv E g'"
proof -
  have len: "length (m_vecConnections g') = length (m_vecConnections g)" by (rule same_core_length [OF assms(1)])
  have m: "m_mpConnections g' = m_mpConnections g" using assms(1) by (simp add: same_core_def)
  have c: "conn_ok E (conn g' i) = conn_ok E (conn g i) \<and> cx_bState (conn g' i) = cx_bState (conn g i)
      \<and> conn_fd g' i = conn_fd g i" if "i < length (m_vecConnections g)" for i
    using same_core_conn [OF assms(1) that] conn_ok_core [OF same_core_conn [OF assms(1) that], of E]
    by (simp add: conn_core_def)
  have r: "nat idx < length (m_vecConnections g)"
    if "m_mpConnections g fd = Some idx" "idx \<noteq> 0" for fd idx
    using gate_inv_map [OF assms(2) that] by linarith
  show ?thesis
    unfolding gate_inv_def len m
  proof (intro conjI allI impI)
    fix i assume "i < length (m_vecConnections g)"
    then show "conn_ok E (conn g' i)" using c assms(2) by (simp add: gate_inv_def)
  next
    assume "0 < length (m_vecConnections g)"
    then show "cx_bState (conn g' 0) = STATE_INVALID" using c assms(2) by (simp add: gate_inv_def)
  next
    fix fd idx assume a: "m_mpConnections g fd = Some idx" "idx \<noteq> 0"
    show "0 < idx" "idx < int (length (m_vecConnections g))" using assms(2) a by (simp_all add: gate_inv_def)
    show "cx_bState (conn g' (nat idx)) \<noteq> STATE_INVALID" "conn_fd g' (nat idx) = fd"
      using assms(2) a c [OF r [OF a]] by (simp_all add: gate_inv_def)
  next
    fix i assume a: "i < length (m_vecConnections g)" "cx_bState (conn g' i) \<noteq> STATE_INVALID"
    then show "m_mpConnections g (conn_fd g' i) = Some (int i)"
      using assms(2) c [OF a(1)] by (simp add: gate_inv_def)
  qed
qed

lemma upd_conn_simps [simp]:
  "length (m_vecConnections (upd_conn i f g)) = length (m_vecConnections g)"
  "m_mpConnections (upd_conn i f g) = m_mpConnections g"
  "g_timers (upd_conn i f g) = g_timers g"
  "g_channels (upd_conn i f g) = g_channels g"
  "g_out (upd_conn i f g) = g_out g"
  "m_closing (upd_conn i f g) = m_closing g"
  by (simp_all add: upd_conn_def)

lemma conn_upd_conn:
  "i < length (m_vecConnections g) \<Longrightarrow> conn (upd_conn i f g) j = (if j = i then f (conn g i) else conn g j)"
  by (auto simp: upd_conn_def nth_list_update)

lemma upd_conn_same_core:
  assumes "\<And>c. conn_core (f c) = conn_core c"
  shows "same_core g (upd_conn i f g)"
proof (cases "i < length (m_vecConnections g)")
  case True
  then have "map conn_core ((m_vecConnections g)[i := f (conn g i)]) = map conn_core (m_vecConnections g)"
    by (intro nth_equalityI) (auto simp: nth_list_update assms)
  then show ?thesis by (simp add: same_core_def upd_conn_def)
next
  case False
  then show ?thesis by (simp add: same_core_def upd_conn_def list_update_beyond)
qed

lemma UpdateStat_core [simp]: "conn_core (UpdateStat E r c) = conn_core c"
  by (simp add: UpdateStat_def conn_core_def Let_def)

lemma same_core_fields:
  "m_vecConnections g' = m_vecConnections g \<Longrightarrow> m_mpConnections g' = m_mpConnections g \<Longrightarrow> same_core g g'"
  by (simp add: same_core_def)

section \<open>Effects of the helpers\<close>

lemma SendFrameToClient_core: "same_core g (snd (SendFrameToClient E i frame g))"
proof -
  have "same_core g (upd_conn i (UpdateStat E False) g)" by (rule upd_conn_same_core) simp
  moreover have "same_core (upd_conn i (UpdateStat E False) g) (snd (SendFrameToClient E i frame g))"
    by (rule same_core_fields) (simp_all add: SendFrameToClient_def Let_def)
  ultimately show ?thesis by (rule same_core_trans)
qed

text \<open>The protocol messages of the gate itself are small; then no assertion on them fails.\<close>

definition small_messages :: "GateEnv \<Rightarrow> bool" where
  "small_messages E \<longleftrightarrow> (\<forall>ga. length (ge_ser_cs E ga) < MAX_GATE_FRAME_SIZE)"

lemma SendToClient_core:
  assumes "small_messages E"
  obtains r g' where "SendToClient E i ga g = Inr (r, g')" and "same_core g g'"
proof (cases "ge_alloc E")
  case True
  obtain r g' where s: "SendFrameToClient E i (GateFrame (ge_ser_cs E ga)) g = (r, g')" by fastforce
  then have "same_core g g'" using SendFrameToClient_core by (metis snd_conv)
  then show thesis using that assms True s by (simp add: SendToClient_def small_messages_def)
next
  case False
  then show thesis using that [of "-1" g] assms by (simp add: SendToClient_def small_messages_def)
qed

lemma ReportEvent_result:
  assumes "ev \<in> {EVENT_CONNECTED, EVENT_CLOSE, EVENT_DATA}"
  obtains g' where "ReportEvent E i ev p d g = Inr g'"
    and "m_vecConnections g' = m_vecConnections g"
    and "m_mpConnections g' = (m_mpConnections g)(conn_fd g i \<mapsto>
           (case m_mpConnections g (conn_fd g i) of Some x \<Rightarrow> x | None \<Rightarrow> 0))"
    and "g_timers g' = g_timers g" and "g_out g' = g_out g" and "g_shut g' = g_shut g"
  using assms by (simp add: ReportEvent_def Let_def case_prod_beta)

lemma ReportEvent_core:
  assumes "ev \<in> {EVENT_CONNECTED, EVENT_CLOSE, EVENT_DATA}" and "m_mpConnections g (conn_fd g i) \<noteq> None"
  obtains g' where "ReportEvent E i ev p d g = Inr g'" and "same_core g g'"
proof (rule ReportEvent_result [OF assms(1), where E = E and i = i and p = p and d = d and g = g])
  fix g'
  assume "ReportEvent E i ev p d g = Inr g'" "m_vecConnections g' = m_vecConnections g"
    "m_mpConnections g' = (m_mpConnections g)(conn_fd g i \<mapsto>
           (case m_mpConnections g (conn_fd g i) of Some x \<Rightarrow> x | None \<Rightarrow> 0))"
  then show thesis using that assms(2) same_core_fields [of g' g] by (auto simp: fun_upd_idem)
qed

section \<open>Changing one connection\<close>

lemma gate_inv_upd:
  assumes inv: "gate_inv E g" and i: "i < length (m_vecConnections g)" and ok: "conn_ok E (f (conn g i))"
    and fd: "sk_fd (cx_cliSocket (f (conn g i))) = conn_fd g i"
    and st: "cx_bState (f (conn g i)) = STATE_INVALID \<longleftrightarrow> cx_bState (conn g i) = STATE_INVALID"
  shows "gate_inv E (upd_conn i f g)"
proof -
  have c: "conn_ok E (conn (upd_conn i f g) j)
      \<and> (cx_bState (conn (upd_conn i f g) j) = STATE_INVALID \<longleftrightarrow> cx_bState (conn g j) = STATE_INVALID)
      \<and> conn_fd (upd_conn i f g) j = conn_fd g j" if "j < length (m_vecConnections g)" for j
    using that assms gate_inv_conn [OF inv that] by (simp add: conn_upd_conn)
  show ?thesis
    unfolding gate_inv_def upd_conn_simps
  proof (intro conjI allI impI)
    fix j assume "j < length (m_vecConnections g)"
    then show "conn_ok E (conn (upd_conn i f g) j)" using c by blast
  next
    assume z: "0 < length (m_vecConnections g)"
    then show "cx_bState (conn (upd_conn i f g) 0) = STATE_INVALID"
      using c [OF z] inv by (simp add: gate_inv_def)
  next
    fix fd' idx assume a: "m_mpConnections g fd' = Some idx" "idx \<noteq> 0"
    note m = gate_inv_map [OF inv a]
    then have n: "nat idx < length (m_vecConnections g)" by linarith
    show "0 < idx" "idx < int (length (m_vecConnections g))" using m by simp_all
    show "cx_bState (conn (upd_conn i f g) (nat idx)) \<noteq> STATE_INVALID"
      "conn_fd (upd_conn i f g) (nat idx) = fd'" using m c [OF n] by simp_all
  next
    fix j assume j: "j < length (m_vecConnections g)" "cx_bState (conn (upd_conn i f g) j) \<noteq> STATE_INVALID"
    then show "m_mpConnections g (conn_fd (upd_conn i f g) j) = Some (int j)"
      using c [OF j(1)] gate_inv_live [OF inv j(1)] by simp
  qed
qed

lemma gate_inv_remove:
  assumes inv: "gate_inv E g" and i: "i < length (m_vecConnections g)"
    and live: "cx_bState (conn g i) \<noteq> STATE_INVALID"
    and vec: "m_vecConnections g' = (m_vecConnections g)[i := (conn g i)\<lparr>cx_bState := STATE_INVALID, cx_iIdx := -1\<rparr>]"
    and map: "m_mpConnections g' = (m_mpConnections g)(conn_fd g i \<mapsto> 0)"
  shows "gate_inv E g'"
proof -
  have own: "m_mpConnections g (conn_fd g i) = Some (int i)" using gate_inv_live [OF inv i live] by simp
  have len: "length (m_vecConnections g') = length (m_vecConnections g)" by (simp add: vec)
  have c: "conn g' j = (if j = i then (conn g i)\<lparr>cx_bState := STATE_INVALID, cx_iIdx := -1\<rparr> else conn g j)" for j
    using i by (simp add: vec nth_list_update)
  have ok: "conn_ok E ((conn g i)\<lparr>cx_bState := STATE_INVALID, cx_iIdx := -1\<rparr>)"
    using gate_inv_conn [OF inv i] by (simp add: conn_ok_def gate_state_defs)
  show ?thesis
    unfolding gate_inv_def len
  proof (intro conjI allI impI)
    fix j assume "j < length (m_vecConnections g)"
    then show "conn_ok E (conn g' j)" using ok gate_inv_conn [OF inv] by (simp add: c)
  next
    assume z: "0 < length (m_vecConnections g)"
    then show "cx_bState (conn g' 0) = STATE_INVALID" using inv by (simp add: gate_inv_def c)
  next
    fix fd' idx assume a: "m_mpConnections g' fd' = Some idx" "idx \<noteq> 0"
    then have f: "fd' \<noteq> conn_fd g i" "m_mpConnections g fd' = Some idx" by (auto simp: map split: if_splits)
    note m = gate_inv_map [OF inv f(2) a(2)]
    have "nat idx \<noteq> i" using m f(1) by auto
    then show "0 < idx" "idx < int (length (m_vecConnections g))"
      "cx_bState (conn g' (nat idx)) \<noteq> STATE_INVALID" "conn_fd g' (nat idx) = fd'"
      using m by (simp_all add: c)
  next
    fix j assume j: "j < length (m_vecConnections g)" "cx_bState (conn g' j) \<noteq> STATE_INVALID"
    then have "j \<noteq> i" by (auto simp: c)
    then have l: "m_mpConnections g (conn_fd g j) = Some (int j)"
      using j gate_inv_live [OF inv j(1)] by (simp add: c)
    then have "conn_fd g j \<noteq> conn_fd g i" using own \<open>j \<noteq> i\<close> by auto
    then show "m_mpConnections g' (conn_fd g' j) = Some (int j)"
      using l \<open>j \<noteq> i\<close> by (simp add: c map)
  qed
qed

lemma RemoveConnection_result:
  assumes "i < length (m_vecConnections g)"
  obtains g' where "RemoveConnection E i reason g = Inr g'"
    and "m_vecConnections g' = (m_vecConnections g)[i := (conn g i)\<lparr>cx_bState := STATE_INVALID, cx_iIdx := -1\<rparr>]"
    and "m_mpConnections g' = (m_mpConnections g)(conn_fd g i \<mapsto> 0)"
    and "g_timers g' = CancelTimer (cx_dwTimerID (conn g i)) (g_timers g)"
proof -
  let ?g = "g\<lparr>m_mpConnections := (m_mpConnections g)(conn_fd g i := None)\<rparr>"
  show thesis
  proof (rule ReportEvent_result [of EVENT_CLOSE E i reason None ?g])
    fix h
    assume r: "ReportEvent E i EVENT_CLOSE reason None ?g = Inr h"
      "m_vecConnections h = m_vecConnections ?g"
      "m_mpConnections h = (m_mpConnections ?g)(conn_fd ?g i \<mapsto>
           (case m_mpConnections ?g (conn_fd ?g i) of Some x \<Rightarrow> x | None \<Rightarrow> 0))"
      "g_timers h = g_timers ?g"
    let ?h = "h\<lparr>g_timers := CancelTimer (cx_dwTimerID (conn h i)) (g_timers h)\<rparr>"
    have "RemoveConnection E i reason g = Inr (Connection_Close i ?h)"
      using r(1) by (simp add: RemoveConnection_def Let_def)
    from that [OF this] show thesis
      using r(2,3,4) assms by (simp add: Connection_Close_def upd_conn_def Let_def)
  qed simp
qed

lemma RemoveConnection_inv:
  assumes "gate_inv E g" and "i < length (m_vecConnections g)" and "cx_bState (conn g i) \<noteq> STATE_INVALID"
  obtains g' where "RemoveConnection E i reason g = Inr g'" and "gate_inv E g'"
    and "length (m_vecConnections g') = length (m_vecConnections g)"
    and "\<forall>j. cx_iMsgLen (conn g' j) = cx_iMsgLen (conn g j)"
proof (rule RemoveConnection_result [OF assms(2), of E reason])
  fix g'
  assume r: "RemoveConnection E i reason g = Inr g'"
    "m_vecConnections g' = (m_vecConnections g)[i := (conn g i)\<lparr>cx_bState := STATE_INVALID, cx_iIdx := -1\<rparr>]"
    "m_mpConnections g' = (m_mpConnections g)(conn_fd g i \<mapsto> 0)"
  have "gate_inv E g'" by (rule gate_inv_remove [OF assms r(2,3)])
  then show thesis using r(1,2) assms(2) by (intro that [OF r(1)]) (auto simp: nth_list_update)
qed

section \<open>Messages of a client\<close>

lemma same_core_live:
  assumes "same_core g g'" and "i < length (m_vecConnections g)"
  shows "i < length (m_vecConnections g')" and "cx_bState (conn g' i) = cx_bState (conn g i)"
    and "conn_fd g' i = conn_fd g i" and "cx_iArea (conn g' i) = cx_iArea (conn g i)"
    and "cx_iDstChannel (conn g' i) = cx_iDstChannel (conn g i)"
  using assms same_core_length [OF assms(1)] same_core_conn [OF assms] by (simp_all add: conn_core_def)

lemma ForwardData_core:
  assumes "gate_inv E g" and "i < length (m_vecConnections g)" and "cx_bState (conn g i) \<noteq> STATE_INVALID"
  obtains g' where "ForwardData E i b g = Inr g'" and "same_core g g'"
proof -
  let ?g = "g\<lparr>reqpkgs := reqpkgs g + 1\<rparr>"
  have "m_mpConnections ?g (conn_fd ?g i) \<noteq> None" using gate_inv_live [OF assms] by simp
  then obtain h where h: "ReportEvent E i EVENT_DATA 0 (Some b) ?g = Inr h" "same_core ?g h"
    by (rule ReportEvent_core [of EVENT_DATA, rotated]) simp_all
  have gh: "same_core g h" using h(2) by (simp add: same_core_def)
  show thesis
  proof (cases "iTestMode E = 0")
    case True
    then show thesis using that [of h] h(1) gh by (simp add: ForwardData_def Let_def)
  next
    case False
    have "same_core g (snd (SendFrameToClient E i (GateFrame (ge_test_data E)) h))"
      using gh SendFrameToClient_core same_core_trans by blast
    then show thesis using that h(1) False by (simp add: ForwardData_def Let_def)
  qed
qed

lemma authorised_inv:
  assumes inv: "gate_inv E g" and small: "small_messages E" and i: "i < length (m_vecConnections g)"
    and live: "cx_bState (conn g i) \<noteq> STATE_INVALID"
    and ch: "map_option sint (mpAreaID2ChannelID E (word_of_int (cx_iArea (conn g i)))) = Some (cx_iDstChannel (conn g i))"
    and na: "iNeedAuth E = 0"
  obtains r h g' where "NotifyAuthResult E i 0 g = Inr (r, h)"
    and "ReportEvent E i EVENT_CONNECTED 0 None (upd_conn i (\<lambda>c. c\<lparr>cx_bState := STATE_AUTHORIZED\<rparr>) h) = Inr g'"
    and "gate_inv E g'" and "length (m_vecConnections g') = length (m_vecConnections g)"
proof -
  obtain r h where h: "NotifyAuthResult E i 0 g = Inr (r, h)" "same_core g h"
    unfolding NotifyAuthResult_def by (rule SendToClient_core [OF small])
  note c = same_core_live [OF h(2) i]
  have ih: "gate_inv E h" using gate_inv_same_core [OF h(2) inv] .
  let ?k = "upd_conn i (\<lambda>c. c\<lparr>cx_bState := STATE_AUTHORIZED\<rparr>) h"
  have "conn_ok E ((conn h i)\<lparr>cx_bState := STATE_AUTHORIZED\<rparr>)"
    using gate_inv_conn [OF ih c(1)] c live ch na by (simp add: conn_ok_def)
  then have ik: "gate_inv E ?k"
    using gate_inv_upd [OF ih c(1)] c live by (simp add: gate_state_defs)
  have "m_mpConnections ?k (conn_fd ?k i) \<noteq> None"
    using gate_inv_live [OF ih c(1)] c live by (simp add: conn_upd_conn)
  then obtain g' where g': "ReportEvent E i EVENT_CONNECTED 0 None ?k = Inr g'" "same_core ?k g'"
    by (rule ReportEvent_core [of EVENT_CONNECTED, rotated]) simp_all
  have "length (m_vecConnections g') = length (m_vecConnections g)"
    using same_core_length [OF g'(2)] same_core_length [OF h(2)] by simp
  then show thesis using that [OF h(1) g'(1) gate_inv_same_core [OF g'(2) ik]] by blast
qed

lemma OnClientMessage_inv:
  assumes inv: "gate_inv E g" and small: "small_messages E" and i: "i < length (m_vecConnections g)"
    and live: "cx_bState (conn g i) \<noteq> STATE_INVALID"
  obtains r g' where "OnClientMessage E i msg g = Inr (r, g')" and "gate_inv E g'"
    and "length (m_vecConnections g') = length (m_vecConnections g)"
proof -
  let ?g = "upd_conn i (UpdateStat E True) (g\<lparr>uppkgs := uppkgs g + 1\<rparr>)"
  have sc: "same_core g ?g"
    using same_core_trans [OF same_core_fields upd_conn_same_core] by fastforce
  note c = same_core_live [OF sc i]
  have ig: "gate_inv E ?g" using gate_inv_same_core [OF sc inv] .
  have live': "cx_bState (conn ?g i) \<noteq> STATE_INVALID" using c live by simp
  have len: "length (m_vecConnections ?g) = length (m_vecConnections g)" by simp
  have ok: "conn_ok E (conn ?g i)" by (rule gate_inv_conn [OF ig c(1)])
  obtain rm where rm: "RemoveConnection E i CONNECTION_CLOSE_EXCEPTION ?g = Inr rm" "gate_inv E rm"
    "length (m_vecConnections rm) = length (m_vecConnections g)"
    using RemoveConnection_inv [OF ig c(1) live'] len by metis
  obtain fw where fw: "ForwardData E i msg ?g = Inr fw" "same_core ?g fw"
    by (rule ForwardData_core [OF ig c(1) live'])
  consider (par) "cx_bState (conn ?g i) = STATE_CONNECTED" "ge_parse_cs E msg = None"
    | (auth) ga where "cx_bState (conn ?g i) = STATE_CONNECTED" "ge_parse_cs E msg = Some ga"
    | (authing) "cx_bState (conn ?g i) = STATE_AUTHING"
    | (fwd) "cx_bState (conn ?g i) = STATE_AUTHORIZED"
    using ok live' by (auto simp: conn_ok_def)
  then show thesis
  proof cases
    case par
    then show thesis using that [of "-1" ?g] ig len by (simp add: OnClientMessage_def Let_def)
  next
    case authing
    then show thesis using that [of 0 ?g] ig len
      by (simp add: OnClientMessage_def Let_def gate_state_defs)
  next
    case fwd
    then show thesis
      using that [of 0 fw] fw gate_inv_same_core [OF fw(2) ig] same_core_length [OF fw(2)] len
      by (simp add: OnClientMessage_def Let_def gate_state_defs)
  next
    case auth
    let ?a = "case cs_authreq ga of Some a \<Rightarrow> a | None \<Rightarrow> AuthReq_default"
    show thesis
    proof (cases "mpAreaID2ChannelID E (au_area ?a)")
      case None
      then have "Authorizing E i ?a ?g = (-1, ?g)" by (simp add: Authorizing_def)
      then have "OnClientMessage E i msg g = Inr (-1, rm)"
        using auth rm(1) by (simp add: OnClientMessage_def Let_def)
      then show thesis using that rm by blast
    next
      case (Some ch)
      let ?f = "\<lambda>c. c\<lparr>cx_iArea := sint (au_area ?a), cx_iDstChannel := sint ch, cx_ulUid := au_uid ?a,
        cx_sToken := au_token ?a, cx_tLastActTime := ge_stamp E\<rparr>"
      let ?h = "upd_conn i ?f ?g"
      have "conn_ok E (?f (conn ?g i))" using ok auth(1) by (simp add: conn_ok_def gate_state_defs)
      then have ih: "gate_inv E ?h" using gate_inv_upd [OF ig c(1), of ?f] by simp
      have ci: "conn ?h i = ?f (conn ?g i)" using i by (simp add: conn_upd_conn)
      have hi: "i < length (m_vecConnections ?h)" using i by simp
      have hl: "cx_bState (conn ?h i) \<noteq> STATE_INVALID" using live' ci by simp
      have st: "cx_bState (conn ?h i) = STATE_CONNECTED" using auth(1) ci by simp
      show thesis
      proof (cases "iNeedAuth E = 0")
        case True
        have "map_option sint (mpAreaID2ChannelID E (word_of_int (cx_iArea (conn ?h i)))) = Some (cx_iDstChannel (conn ?h i))"
          using Some by (simp add: ci)
        then obtain r h' g' where n: "NotifyAuthResult E i 0 ?h = Inr (r, h')"
          "ReportEvent E i EVENT_CONNECTED 0 None (upd_conn i (\<lambda>c. c\<lparr>cx_bState := STATE_AUTHORIZED\<rparr>) h') = Inr g'"
          "gate_inv E g'" "length (m_vecConnections g') = length (m_vecConnections ?h)"
          using authorised_inv [OF ih small hi hl _ True] by blast
        have "OnClientMessage E i msg g = Inr (0, g')"
          using auth Some True n(1,2) by (simp add: OnClientMessage_def Authorizing_def Let_def)
        then show thesis using that n(3,4) by simp
      next
        case False
        let ?k = "upd_conn i (\<lambda>c. c\<lparr>cx_bState := STATE_AUTHING\<rparr>) ?h"
        have "conn_ok E ((conn ?h i)\<lparr>cx_bState := STATE_AUTHING\<rparr>)"
          using gate_inv_conn [OF ih hi] st by (simp add: conn_ok_def gate_state_defs)
        then have "gate_inv E ?k"
          using gate_inv_upd [OF ih hi, of "\<lambda>c. c\<lparr>cx_bState := STATE_AUTHING\<rparr>"] st
          by (simp add: gate_state_defs)
        moreover have "OnClientMessage E i msg g = Inr (0, ?k)"
          using auth Some False by (simp add: OnClientMessage_def Authorizing_def Let_def)
        ultimately show thesis using that by simp
      qed
    qed
  qed
qed

section \<open>Cutting the bytes of a client\<close>

lemma buf_write_ok:
  assumes "cx_pBuffer c \<noteq> None" and "length bs \<le> 65539"
  shows "\<exists>b. buf_write 0 bs c = Inr (c\<lparr>cx_pBuffer := Some b\<rparr>)
    \<and> (\<forall>n\<le>length bs. buf_read n (c\<lparr>cx_pBuffer := Some b\<rparr>) = take n bs)"
proof -
  obtain a where a: "cx_pBuffer c = Some a" using assms(1) by blast
  let ?b = "\<lambda>k. if 0 \<le> k \<and> k < length bs then bs ! k else a k"
  have "map ?b [0..<n] = take n bs" if "n \<le> length bs" for n
    using that by (intro nth_equalityI) auto
  moreover have "buf_write 0 bs c = Inr (c\<lparr>cx_pBuffer := Some ?b\<rparr>)"
    using a assms(2)
    by (simp add: buf_write_def CONNECTION_DEFAULT_RECV_BUFF_SIZE_def MAX_GATE_FRAME_SIZE_def cong: if_cong)
  ultimately show ?thesis by (auto simp: buf_read_def)
qed

lemma recv_prefix_cases:
  assumes ok: "conn_ok E c" and buf: "cx_pBuffer c \<noteq> None"
  obtains (wait) c' where "recv_prefix data c = Inr (PrefixReturn 0 c')" and "conn_core c' = conn_core c"
      and "cx_iMsgLen c = 0" and "length data < 2 \<or> get_be16 data = 0"
  | (go) c' n off where "recv_prefix data c = Inr (PrefixGo c' (int off))"
      and "conn_core c' = conn_core (c\<lparr>cx_iMsgLen := int n\<rparr>)" and "0 < n" and "n \<le> 65535"
      and "off \<le> length data"
      and "cx_iMsgLen c \<noteq> 0 \<and> off = 0 \<and> int n = cx_iMsgLen c \<and> c' = c \<or>
           cx_iMsgLen c = 0 \<and> off = 2 \<and> 2 \<le> length data \<and> n = unat (get_be16 data)
           \<and> (\<exists>b. c' = c\<lparr>cx_pBuffer := Some b, cx_iMsgLen := int n, cx_iUsed := 0\<rparr>)"
proof -
  have u: "cx_iUsed c = 0" and l: "0 \<le> cx_iMsgLen c" "cx_iMsgLen c \<le> 65535" using ok by (auto simp: conn_ok_def)
  consider (mid) "cx_iMsgLen c \<noteq> 0" | (short) "cx_iMsgLen c = 0" "length data < 2"
    | (pre) "cx_iMsgLen c = 0" "2 \<le> length data" by linarith
  then show thesis
  proof cases
    case mid
    have "nat (cx_iMsgLen c) \<le> 65535" using l(2) by linarith
    then show thesis
      by (intro go [of c 0 "nat (cx_iMsgLen c)"]) (use mid l in \<open>simp_all add: recv_prefix_def\<close>)
  next
    case short
    obtain b where "buf_write 0 data c = Inr (c\<lparr>cx_pBuffer := Some b\<rparr>)"
      using buf_write_ok [OF buf, of data] short by auto
    then show thesis
      by (intro wait [of "c\<lparr>cx_pBuffer := Some b\<rparr>"])
        (use short u buf in \<open>simp_all add: recv_prefix_def conn_core_def\<close>)
  next
    case pre
    have sl: "src_slice 0 2 data = Inr (take 2 data)" using pre by (simp add: src_slice_def)
    have "length (take 2 data) \<le> 65539" by simp
    then obtain b where b: "buf_write 0 (take 2 data) c = Inr (c\<lparr>cx_pBuffer := Some b\<rparr>)"
      "\<forall>n\<le>length (take 2 data). buf_read n (c\<lparr>cx_pBuffer := Some b\<rparr>) = take n (take 2 data)"
      using buf_write_ok [OF buf] by blast
    then have rd: "buf_read 2 (c\<lparr>cx_pBuffer := Some b\<rparr>) = take 2 data" using pre by simp
    have g: "get_be16 (take 2 data) = get_be16 data"
      using pre by (auto simp: get_be16_def numeral_2_eq_2 split: list.split)
    let ?n = "unat (get_be16 data)"
    let ?c = "c\<lparr>cx_pBuffer := Some b, cx_iMsgLen := int ?n, cx_iUsed := 0\<rparr>"
    show thesis
    proof (cases "?n = 0")
      case True
      then have z: "get_be16 data = 0" by (simp add: unat_eq_zero)
      have "recv_prefix data c = Inr (PrefixReturn 0 ?c)"
        using pre u sl b(1) rd g z by (simp add: recv_prefix_def Let_def)
      then show thesis using wait [of ?c] pre(1) z buf u by (simp add: conn_core_def)
    next
      case False
      then have nz: "uint (get_be16 data) \<noteq> 0" by (metis of_nat_unat of_nat_eq_0_iff)
      have "recv_prefix data c = Inr (PrefixGo ?c (int 2))"
        using pre u sl b(1) rd g nz by (simp add: recv_prefix_def Let_def)
      moreover have "?n \<le> 65535" using unat_u16_less [of "get_be16 data"] by simp
      ultimately show thesis
        using go [of ?c 2 ?n] False pre buf u by (simp add: conn_core_def) blast
    qed
  qed
qed

lemma conn_ok_len: "conn_ok E c \<Longrightarrow> n \<le> 65535 \<Longrightarrow> conn_ok E (c\<lparr>cx_iMsgLen := int n\<rparr>)"
  by (simp add: conn_ok_def)

lemma GetConnectionByFD_live:
  assumes "GetConnectionByFD fd g = Some i"
  shows "0 < i" and "i < length (m_vecConnections g)" and "cx_bState (conn g i) \<noteq> STATE_INVALID"
    and "m_mpConnections g fd = Some (int i)"
  using assms by (auto simp: GetConnectionByFD_def GetConnectionByIdx_def split: option.splits if_splits)

lemma OnClientDataRecv_total:
  assumes "gate_inv E g" and small: "small_messages E"
  shows "\<exists>r g'. OnClientDataRecv E fd data g = Some (Inr (r, g')) \<and> gate_inv E g'"
  using assms(1)
proof (induction "length data" arbitrary: data g rule: less_induct)
  case less
  note inv = less.prems
  show ?case
  proof (cases "GetConnectionByFD fd g")
    case None
    have "gate_inv E (g\<lparr>g_shut := g_shut g @ [fd]\<rparr>)"
      by (rule gate_inv_same_core [OF same_core_fields inv]) simp_all
    then show ?thesis using None by (subst OnClientDataRecv.simps) simp
  next
    case (Some i)
    note L = GetConnectionByFD_live [OF Some]
    let ?g = "g\<lparr>uploadsize := uploadsize g + of_nat (length data)\<rparr>"
    have ig: "gate_inv E ?g" by (rule gate_inv_same_core [OF same_core_fields inv]) simp_all
    have ok: "conn_ok E (conn g i)" by (rule gate_inv_conn [OF inv L(2)])
    then have buf: "cx_pBuffer (conn g i) \<noteq> None" using L(3) by (simp add: conn_ok_def)
    from ok buf show ?thesis
    proof (cases rule: recv_prefix_cases [where data = data])
      case (wait c')
      then have "gate_inv E (upd_conn i (\<lambda>_. c') ?g)"
        using gate_inv_upd [OF ig, of i "\<lambda>_. c'"] L ok conn_ok_core [of c' "conn g i" E]
        by (simp add: conn_core_def)
      then show ?thesis using Some wait(1) by (subst OnClientDataRecv.simps) simp
    next
      case (go c' n off)
      have okc: "conn_ok E c'" using conn_ok_core [OF go(2)] conn_ok_len [OF ok go(4)] by simp
      have cu: "cx_iUsed c' = 0" using okc by (simp add: conn_ok_def)
      have cl: "cx_iMsgLen c' = int n" and cb: "cx_bState c' = cx_bState (conn g i)"
        and cf: "sk_fd (cx_cliSocket c') = conn_fd g i" and cp: "cx_pBuffer c' \<noteq> None"
        using go(2) buf by (simp_all add: conn_core_def)
      have i1: "gate_inv E (upd_conn i (\<lambda>_. c') ?g)"
        using gate_inv_upd [OF ig, of i "\<lambda>_. c'"] L okc cb cf by simp
      show ?thesis
      proof (cases "int (length data) - int off \<ge> int n")
        case False
        then show ?thesis using Some go(1) i1 cu cl by (subst OnClientDataRecv.simps) simp
      next
        case True
        then have fits: "off + n \<le> length data" by linarith
        let ?bs = "take n (drop off data)"
        have sl: "src_slice (int off) (int n) data = Inr ?bs" using fits by (simp add: src_slice_def)
        have "length ?bs \<le> 65539" using go(4) by simp
        then obtain b where b: "buf_write 0 ?bs c' = Inr (c'\<lparr>cx_pBuffer := Some b\<rparr>)"
          using buf_write_ok [OF cp] by blast
        let ?c = "c'\<lparr>cx_pBuffer := Some b\<rparr>" and ?h = "upd_conn i (\<lambda>_. c'\<lparr>cx_pBuffer := Some b\<rparr>) ?g"
        have "conn_ok E ?c" using conn_ok_core [of ?c c' E] okc cp by (simp add: conn_core_def)
        then have ih: "gate_inv E ?h" using gate_inv_upd [OF ig, of i "\<lambda>_. ?c"] L cb cf by simp
        have hi: "i < length (m_vecConnections ?h)" and hl: "cx_bState (conn ?h i) \<noteq> STATE_INVALID"
          using L cb by (simp_all add: conn_upd_conn)
        obtain r k where k: "OnClientMessage E i (buf_read n ?c) ?h = Inr (r, k)" "gate_inv E k"
          "length (m_vecConnections k) = length (m_vecConnections ?h)"
          by (rule OnClientMessage_inv [OF ih small hi hl])
        let ?k = "upd_conn i (\<lambda>c. c\<lparr>cx_iMsgLen := 0, cx_iUsed := 0\<rparr>) k"
        have ki: "i < length (m_vecConnections k)" using k(3) hi by simp
        have ik: "gate_inv E ?k"
          using gate_inv_upd [OF k(2) ki] gate_inv_conn [OF k(2) ki] by (simp add: conn_ok_def)
        have go': "OnClientDataRecv E fd data g =
          (if int (length data) \<le> int off + int n then Some (Inr (if r \<noteq> 0 then 1 else 0, ?k))
           else Option.bind (OnClientDataRecv E fd (drop (off + n) data) ?k)
             (\<lambda>q. Some (case q of Inl e \<Rightarrow> Inl e | Inr (q, g) \<Rightarrow> Inr ((if r \<noteq> 0 then 1 else 0) + q, g))))"
          using Some go(1) True sl b k(1) cu cl
          by (subst OnClientDataRecv.simps) (simp add: Let_def nat_add_distrib)
        have "length (drop (off + n) data) < length data" using fits go(3) by simp
        from less.hyps [OF this ik] show ?thesis using ik by (auto simp: go')
      qed
    qed
  qed
qed

section \<open>New connections\<close>

lemma gate_inv_dead:
  assumes inv: "gate_inv E g" and i: "i < length (m_vecConnections g)"
    and dead: "cx_bState (conn g i) = STATE_INVALID" and c: "conn_ok E c" "cx_bState c = STATE_INVALID"
  shows "gate_inv E (upd_conn i (\<lambda>_. c) g)"
proof -
  have o: "conn (upd_conn i (\<lambda>_. c) g) j = (if j = i then c else conn g j)" for j
    using i by (simp add: conn_upd_conn)
  show ?thesis
    unfolding gate_inv_def upd_conn_simps o
  proof (intro conjI allI impI)
    fix j assume "j < length (m_vecConnections g)"
    then show "conn_ok E (if j = i then c else conn g j)" using c(1) gate_inv_conn [OF inv] by simp
  next
    assume "0 < length (m_vecConnections g)"
    then show "cx_bState (if 0 = i then c else conn g 0) = STATE_INVALID"
      using c(2) inv by (simp add: gate_inv_def)
  next
    fix fd idx assume a: "m_mpConnections g fd = Some idx" "idx \<noteq> 0"
    note m = gate_inv_map [OF inv a]
    have "nat idx \<noteq> i" using m dead by auto
    then show "0 < idx" "idx < int (length (m_vecConnections g))"
      "cx_bState (if nat idx = i then c else conn g (nat idx)) \<noteq> STATE_INVALID"
      "sk_fd (cx_cliSocket (if nat idx = i then c else conn g (nat idx))) = fd"
      using m by simp_all
  next
    fix j assume j: "j < length (m_vecConnections g)"
      "cx_bState (if j = i then c else conn g j) \<noteq> STATE_INVALID"
    then show "m_mpConnections g (sk_fd (cx_cliSocket (if j = i then c else conn g j))) = Some (int j)"
      using c(2) gate_inv_live [OF inv j(1)] by (auto split: if_splits)
  qed
qed

lemma gate_inv_add:
  assumes inv: "gate_inv E g" and i: "i < length (m_vecConnections g)" "0 < i"
    and dead: "cx_bState (conn g i) = STATE_INVALID" and c: "conn_ok E c" "cx_bState c \<noteq> STATE_INVALID"
    and fresh: "m_mpConnections g (sk_fd (cx_cliSocket c)) \<in> {None, Some 0}"
  shows "gate_inv E ((upd_conn i (\<lambda>_. c) g)\<lparr>m_mpConnections :=
    (m_mpConnections g)(sk_fd (cx_cliSocket c) \<mapsto> int i)\<rparr>)"
proof -
  let ?g = "(upd_conn i (\<lambda>_. c) g)\<lparr>m_mpConnections := (m_mpConnections g)(sk_fd (cx_cliSocket c) \<mapsto> int i)\<rparr>"
  have len: "length (m_vecConnections ?g) = length (m_vecConnections g)" by (simp add: upd_conn_def)
  have o: "conn ?g j = (if j = i then c else conn g j)" for j
    using i by (simp add: upd_conn_def nth_list_update)
  have m: "m_mpConnections ?g fd = (if fd = sk_fd (cx_cliSocket c) then Some (int i) else m_mpConnections g fd)" for fd
    by simp
  show ?thesis
    unfolding gate_inv_def len o
  proof (intro conjI allI impI)
    fix j assume "j < length (m_vecConnections g)"
    then show "conn_ok E (if j = i then c else conn g j)" using c(1) gate_inv_conn [OF inv] by simp
  next
    assume "0 < length (m_vecConnections g)"
    then show "cx_bState (if 0 = i then c else conn g 0) = STATE_INVALID"
      using i(2) inv by (simp add: gate_inv_def)
  next
    fix fd idx assume a: "m_mpConnections ?g fd = Some idx" "idx \<noteq> 0"
    have "0 < idx \<and> idx < int (length (m_vecConnections g))
        \<and> cx_bState (if nat idx = i then c else conn g (nat idx)) \<noteq> STATE_INVALID
        \<and> sk_fd (cx_cliSocket (if nat idx = i then c else conn g (nat idx))) = fd"
    proof (cases "fd = sk_fd (cx_cliSocket c)")
      case True
      then have "idx = int i" using a(1) by simp
      then show ?thesis using True c(2) i by simp
    next
      case False
      then have f: "m_mpConnections g fd = Some idx" using a(1) by simp
      note k = gate_inv_map [OF inv f a(2)]
      then have "nat idx \<noteq> i" using dead by auto
      then show ?thesis using k by simp
    qed
    then show "0 < idx" "idx < int (length (m_vecConnections g))"
      "cx_bState (if nat idx = i then c else conn g (nat idx)) \<noteq> STATE_INVALID"
      "sk_fd (cx_cliSocket (if nat idx = i then c else conn g (nat idx))) = fd" by simp_all
  next
    fix j assume j: "j < length (m_vecConnections g)"
      "cx_bState (if j = i then c else conn g j) \<noteq> STATE_INVALID"
    show "m_mpConnections ?g (sk_fd (cx_cliSocket (if j = i then c else conn g j))) = Some (int j)"
    proof (cases "j = i")
      case False
      then have l: "m_mpConnections g (conn_fd g j) = Some (int j)" "0 < j"
        using j gate_inv_live [OF inv j(1)] by simp_all
      then have "conn_fd g j \<noteq> sk_fd (cx_cliSocket c)" using fresh by auto
      then show ?thesis using l(1) False by simp
    qed simp
  qed
qed

lemma GetNextIdx_free:
  assumes "GetNextIdx g = idx" and "0 \<le> idx"
  shows "0 < nat idx" and "nat idx < length (m_vecConnections g)"
    and "cx_bState (conn g (nat idx)) = STATE_INVALID"
proof -
  obtain k where k: "find_idx (\<lambda>c. cx_bState c = 0) (drop 1 (m_vecConnections g)) = Some k" "idx = int k + 1"
    using assms by (auto simp: GetNextIdx_def split: if_splits option.splits)
  from find_idx_SomeD [OF k(1)] show "nat idx < length (m_vecConnections g)"
    and "cx_bState (conn g (nat idx)) = STATE_INVALID"
    by (auto simp: k(2) nat_add_distrib gate_state_defs add.commute)
  show "0 < nat idx" using k(2) by simp
qed

lemma map_core_upd_conn:
  "map conn_core (m_vecConnections (upd_conn i f g))
    = (map conn_core (m_vecConnections g))[i := conn_core (f (conn g i))]"
  by (simp add: upd_conn_def map_update)

text \<open>
  The connection a new client gets, and the two ways \<open>OnNewConnection\<close> leaves the tables: the slot
  stays dead, or it holds the new connection and the descriptor points to it.
\<close>

definition fresh_conn :: "TcpSocket \<Rightarrow> (nat \<Rightarrow> byte) \<Rightarrow> Connection \<Rightarrow> Connection" where
  "fresh_conn client b c = (Connection_Init (c\<lparr>cx_pBuffer := Some b\<rparr>))\<lparr>cx_bState := STATE_CONNECTED,
     cx_cliSocket := client\<rparr>"

lemma fresh_conn_ok: "conn_ok E (fresh_conn client b c)"
  by (simp add: fresh_conn_def conn_ok_def Connection_Init_def gate_state_defs)

lemma OnNewConnection_open_cases:
  assumes small: "small_messages E" and new: "OnNewConnection_open E client i g = Inr (r, g')"
    and len: "i < length (m_vecConnections g)" and buf: "cx_pBuffer (conn g i) = Some b"
  shows "r = -1 \<and> map conn_core (m_vecConnections g')
        = (map conn_core (m_vecConnections g))[i := conn_core ((fresh_conn client b (conn g i))\<lparr>cx_bState := STATE_INVALID\<rparr>)]
      \<and> m_mpConnections g' = m_mpConnections g
    \<or> r = 0 \<and> map conn_core (m_vecConnections g')
        = (map conn_core (m_vecConnections g))[i := conn_core (fresh_conn client b (conn g i))]
      \<and> m_mpConnections g' = (m_mpConnections g)(sk_fd client \<mapsto> int i)"
proof -
  let ?f = "\<lambda>c. (Connection_Init c)\<lparr>cx_bState := STATE_CONNECTED, cx_cliSocket := client\<rparr>"
  let ?F = "fresh_conn client b (conn g i)" and ?v = "map conn_core (m_vecConnections g)"
  have f: "?f (conn g i) = ?F" using buf by (simp add: fresh_conn_def Connection_Init_def)
  obtain r5 g5 where g5: "NotifyNeedAuth E i (upd_conn i ?f g) = Inr (r5, g5)" "same_core (upd_conn i ?f g) g5"
    unfolding NotifyNeedAuth_def by (rule SendToClient_core [OF small])
  have v5: "map conn_core (m_vecConnections g5) = ?v[i := conn_core ?F]"
    using g5(2) f by (simp add: same_core_def map_core_upd_conn)
  have m5: "m_mpConnections g5 = m_mpConnections g" using g5(2) by (simp add: same_core_def)
  have len5: "i < length (m_vecConnections g5)" using v5 len by (metis length_list_update length_map)
  have c5: "conn_core (conn g5 i) = conn_core ?F"
    using v5 len5 len by (metis length_map nth_list_update_eq nth_map)
  show ?thesis
  proof (cases "r5 = 0")
    case False
    then have "r = -1" "g' = Connection_Close i g5"
      using new g5(1) by (simp_all add: OnNewConnection_open_def Let_def)
    moreover have "conn_core ((conn g5 i)\<lparr>cx_bState := STATE_INVALID, cx_iIdx := -1\<rparr>)
        = conn_core (?F\<lparr>cx_bState := STATE_INVALID\<rparr>)" using c5 by (simp add: conn_core_def)
    ultimately show ?thesis using v5 m5 by (simp add: Connection_Close_def Let_def map_core_upd_conn upd_conn_def map_update)
  next
    case True
    let ?g6 = "(upd_conn i (\<lambda>c. c\<lparr>cx_iIdx := int i\<rparr>) g5)\<lparr>m_mpConnections := (m_mpConnections g5)(sk_fd client \<mapsto> int i)\<rparr>"
    have r: "r = 0" and g': "g' = ?g6 \<or> (\<exists>t tm. g' = upd_conn i (\<lambda>c. c\<lparr>cx_dwTimerID := t\<rparr>) (?g6\<lparr>g_timers := tm\<rparr>))"
      using new g5(1) True by (auto simp: OnNewConnection_open_def Let_def split: if_splits option.splits)
    have "conn_core ((conn g5 i)\<lparr>cx_iIdx := int i\<rparr>) = conn_core ?F"
      "conn_core ((conn g5 i)\<lparr>cx_iIdx := int i, cx_dwTimerID := t\<rparr>) = conn_core ?F" for t
      using c5 by (simp_all add: conn_core_def)
    then have "map conn_core (m_vecConnections g') = ?v[i := conn_core ?F]"
      using g' v5 len5 by (auto simp: upd_conn_def map_update)
    moreover have "m_mpConnections g' = (m_mpConnections g)(sk_fd client \<mapsto> int i)"
      using g' m5 by auto
    ultimately show ?thesis using r by blast
  qed
qed

lemma OnNewConnection_inv:
  assumes inv: "gate_inv E g" and small: "small_messages E"
    and fresh: "m_mpConnections g (sk_fd client) \<in> {None, Some 0}"
    and new: "OnNewConnection E client g = Inr (r, g')"
  shows "gate_inv E g'"
proof -
  let ?g = "g\<lparr>m_iAlivedConnections := m_iAlivedConnections g + 1\<rparr>"
  have ig: "gate_inv E ?g" by (rule gate_inv_same_core [OF same_core_fields inv]) simp_all
  have idx: "0 \<le> GetNextIdx ?g" using new by (auto simp: OnNewConnection_def Let_def split: if_splits)
  define i where "i = nat (GetNextIdx ?g)"
  have i: "0 < i" "i < length (m_vecConnections ?g)" "cx_bState (conn ?g i) = STATE_INVALID"
    using GetNextIdx_free [OF refl idx] by (simp_all add: i_def)
  have at: "OnNewConnection_at E client i ?g = Inr (r, g')"
    using new i idx by (simp add: OnNewConnection_def Let_def i_def split: if_splits)
  let ?h = "if cx_pBuffer (conn ?g i) = None then upd_conn i (\<lambda>c. c\<lparr>cx_pBuffer := Some (\<lambda>_. 0)\<rparr>) ?g else ?g"
  have ok: "conn_ok E (conn ?g i)" by (rule gate_inv_conn [OF ig i(2)])
  then have "conn_ok E ((conn ?g i)\<lparr>cx_pBuffer := Some (\<lambda>_. 0)\<rparr>)" by (simp add: conn_ok_def)
  then have ih: "gate_inv E ?h" using gate_inv_upd [OF ig i(2), of "\<lambda>c. c\<lparr>cx_pBuffer := Some (\<lambda>_. 0)\<rparr>"] ig by simp
  have hi: "i < length (m_vecConnections ?h)" "cx_bState (conn ?h i) = STATE_INVALID"
    using i by (simp_all add: conn_upd_conn)
  have hm: "m_mpConnections ?h = m_mpConnections g" by simp
  consider (closed) "same_core ?g g' \<or> same_core ?h g'" | (op) "OnNewConnection_open E client i ?h = Inr (r, g')"
    using at by (auto simp: OnNewConnection_at_def Let_def same_core_def split: if_splits)
  then show ?thesis
  proof cases
    case closed
    then show ?thesis using gate_inv_same_core ig ih by blast
  next
    case op
    obtain b where b: "cx_pBuffer (conn ?h i) = Some b"
      using i(2) by (cases "cx_pBuffer (conn ?g i)") (simp_all add: conn_upd_conn)
    let ?F = "fresh_conn client b (conn ?h i)"
    have fo: "conn_ok E ?F" by (rule fresh_conn_ok)
    have fd: "sk_fd (cx_cliSocket ?F) = sk_fd client" by (simp add: fresh_conn_def)
    from OnNewConnection_open_cases [OF small op hi(1) b] show ?thesis
    proof (elim disjE conjE)
      assume v: "map conn_core (m_vecConnections g')
          = (map conn_core (m_vecConnections ?h))[i := conn_core (?F\<lparr>cx_bState := STATE_INVALID\<rparr>)]"
        and m: "m_mpConnections g' = m_mpConnections ?h"
      have "conn_ok E (?F\<lparr>cx_bState := STATE_INVALID\<rparr>)" using fo by (simp add: conn_ok_def gate_state_defs)
      then have "gate_inv E (upd_conn i (\<lambda>_. ?F\<lparr>cx_bState := STATE_INVALID\<rparr>) ?h)"
        using gate_inv_dead [OF ih hi] by simp
      then show ?thesis
        by (rule gate_inv_same_core [rotated]) (simp add: same_core_def map_core_upd_conn v m del: if_split)
    next
      assume v: "map conn_core (m_vecConnections g') = (map conn_core (m_vecConnections ?h))[i := conn_core ?F]"
        and m: "m_mpConnections g' = (m_mpConnections ?h)(sk_fd client \<mapsto> int i)"
      have "cx_bState ?F \<noteq> STATE_INVALID" by (simp add: fresh_conn_def gate_state_defs)
      then have "gate_inv E ((upd_conn i (\<lambda>_. ?F) ?h)\<lparr>m_mpConnections := (m_mpConnections ?h)(sk_fd client \<mapsto> int i)\<rparr>)"
        using gate_inv_add [OF ih hi(1) i(1) hi(2) fo] fresh hm fd by simp
      then show ?thesis
        by (rule gate_inv_same_core [rotated]) (simp add: same_core_def map_core_upd_conn v m del: if_split)
    qed
  qed
qed

end
