(* ===== verification/GateProps.thy ===== *)
theory GateProps
  imports GateInv
begin

text \<open>
  The properties of the gate server: its tables stay consistent over every sequence of events,
  frames are cut and forwarded as they should when they arrive in whole, and what happens to those
  that do not.
\<close>

section \<open>The remaining handlers keep the invariant\<close>

lemma OnConnectionClosed_inv:
  assumes "gate_inv E g"
  obtains r g' where "OnConnectionClosed E fd g = Inr (r, g')" and "gate_inv E g'"
proof -
  let ?g = "g\<lparr>m_iAlivedConnections := m_iAlivedConnections g - 1\<rparr>"
  have ig: "gate_inv E ?g" by (rule gate_inv_same_core [OF same_core_fields assms]) simp_all
  show thesis
  proof (cases "GetConnectionByFD fd ?g")
    case None
    then show thesis using that [of "-1" ?g] ig by (simp add: OnConnectionClosed_def)
  next
    case (Some i)
    note L = GetConnectionByFD_live [OF Some]
    obtain g' where "RemoveConnection E i CONNECTION_CLOSE_BY_CLIENT ?g = Inr g'" "gate_inv E g'"
      by (rule RemoveConnection_inv [OF ig L(2,3)])
    then show thesis using that [of 0 g'] Some by (simp add: OnConnectionClosed_def)
  qed
qed

lemma GetConnectionByIdx_live:
  assumes "GetConnectionByIdx idx g = Some i"
  shows "0 < i" and "i < length (m_vecConnections g)" and "cx_bState (conn g i) \<noteq> STATE_INVALID" and "idx = int i"
  using assms by (auto simp: GetConnectionByIdx_def split: if_splits)

lemma CheckConnxFree_inv:
  assumes inv: "gate_inv E g" and step: "CheckConnxFree E idx g = Inr g'"
  shows "gate_inv E g'"
proof (cases "GetConnectionByIdx idx g")
  case None
  then show ?thesis using inv step by (simp add: CheckConnxFree_def)
next
  case (Some i)
  note L = GetConnectionByIdx_live [OF Some]
  obtain h where h: "RemoveConnection E i CONNECTION_CLOSE_BY_DEFAULT g = Inr h" "gate_inv E h"
    by (rule RemoveConnection_inv [OF inv L(2,3)])
  have "gate_inv E (upd_conn i (\<lambda>c. c\<lparr>cx_dwTimerID := t, cx_tLastCheckTime := n\<rparr>) (g\<lparr>g_timers := tm\<rparr>))" for t n tm
  proof (rule gate_inv_same_core [OF _ inv], rule same_core_trans)
    show "same_core g (g\<lparr>g_timers := tm\<rparr>)" by (rule same_core_fields) simp_all
    show "same_core (g\<lparr>g_timers := tm\<rparr>)
        (upd_conn i (\<lambda>c. c\<lparr>cx_dwTimerID := t, cx_tLastCheckTime := n\<rparr>) (g\<lparr>g_timers := tm\<rparr>))"
      by (rule upd_conn_same_core) (simp add: conn_core_def)
  qed
  then show ?thesis using step Some h inv
    by (auto simp: CheckConnxFree_def split: if_splits option.splits)
qed

lemma OnClosing_loop_inv:
  "gate_inv E g \<Longrightarrow> \<exists>g'. OnClosing_loop E reason n g = Inr g' \<and> gate_inv E g'"
proof (induction n arbitrary: g)
  case 0
  then show ?case by simp
next
  case (Suc n)
  have step: "\<exists>h. (case GetConnectionByIdx (sint (m_dwLastClosingIdx g)) g of
      None \<Rightarrow> Inr g | Some i \<Rightarrow> RemoveConnection E i reason g) = Inr h \<and> gate_inv E h"
  proof (cases "GetConnectionByIdx (sint (m_dwLastClosingIdx g)) g")
    case None
    then show ?thesis using Suc.prems by simp
  next
    case (Some i)
    note L = GetConnectionByIdx_live [OF Some]
    obtain h where "RemoveConnection E i reason g = Inr h" "gate_inv E h"
      by (rule RemoveConnection_inv [OF Suc.prems L(2,3)])
    then show ?thesis using Some by simp
  qed
  then obtain h where h: "(case GetConnectionByIdx (sint (m_dwLastClosingIdx g)) g of
      None \<Rightarrow> Inr g | Some i \<Rightarrow> RemoveConnection E i reason g) = Inr h" "gate_inv E h" by blast
  have "gate_inv E (h\<lparr>m_dwLastClosingIdx := m_dwLastClosingIdx h + 1\<rparr>)"
    by (rule gate_inv_same_core [OF same_core_fields h(2)]) simp_all
  then show ?case using Suc.IH Suc.prems h(1) by simp
qed

lemma OnClosing_inv:
  assumes "gate_inv E g"
  obtains r g' where "OnClosing E reason n g = Inr (r, g')" and "gate_inv E g'"
proof -
  let ?g = "if m_closing g = 0 then g\<lparr>m_closing := reason\<rparr> else g"
  have "gate_inv E ?g" by (rule gate_inv_same_core [OF same_core_fields assms]) simp_all
  then obtain g' where "OnClosing_loop E reason (nat n) ?g = Inr g'" "gate_inv E g'"
    using OnClosing_loop_inv by blast
  then show thesis by (intro that [of _ g']) (simp_all add: OnClosing_def Let_def del: if_split)
qed

lemma Agent_DispatchMessage_inv:
  assumes inv: "gate_inv E g" and step: "Agent_DispatchMessage E d g = Inr (r, g')"
  shows "gate_inv E g'"
proof -
  have rm: "gate_inv E h" if "RemoveConnection E i reason g = Inr h" "GetConnectionByIdx idx g = Some i" for i reason h idx
    using RemoveConnection_inv [OF inv GetConnectionByIdx_live(2,3) [OF that(2)], of reason] that(1) by auto
  have snd: "gate_inv E (snd (SendFrameToClient E i f (g\<lparr>downpkgs := a, rsppkgs := b\<rparr>)))" for i f a b
  proof (rule gate_inv_same_core [OF _ inv], rule same_core_trans)
    show "same_core g (g\<lparr>downpkgs := a, rsppkgs := b\<rparr>)" by (rule same_core_fields) simp_all
  qed (rule SendFrameToClient_core)
  show ?thesis using step inv
    by (auto simp: Agent_DispatchMessage_def Let_def intro: rm snd split: sum.splits option.splits if_splits prod.splits)
qed

section \<open>The gate as a state machine\<close>

datatype gate_event =
    GeNew TcpSocket
  | GeData int "byte list"
  | GeClosed int
  | GeAgent "byte list"
  | GeIdle int
  | GeClosing int int

text \<open>What one event does; \<open>None\<close> only when the data handler does not return.\<close>

definition gate_handle :: "GateEnv \<Rightarrow> gate_event \<Rightarrow> Gate \<Rightarrow> (fault + Gate) option" where
  "gate_handle E ev g =
     (case ev of
        GeNew s \<Rightarrow> Some (case OnNewConnection E s g of Inl e \<Rightarrow> Inl e | Inr (_, g) \<Rightarrow> Inr g)
      | GeData fd d \<Rightarrow> (case OnClientDataRecv E fd d g of
          None \<Rightarrow> None | Some (Inl e) \<Rightarrow> Some (Inl e) | Some (Inr (_, g)) \<Rightarrow> Some (Inr g))
      | GeClosed fd \<Rightarrow> Some (case OnConnectionClosed E fd g of Inl e \<Rightarrow> Inl e | Inr (_, g) \<Rightarrow> Inr g)
      | GeAgent d \<Rightarrow> Some (case Agent_DispatchMessage E d g of Inl e \<Rightarrow> Inl e | Inr (_, g) \<Rightarrow> Inr g)
      | GeIdle idx \<Rightarrow> Some (CheckConnxFree E idx g)
      | GeClosing reason n \<Rightarrow> Some (case OnClosing E reason n g of Inl e \<Rightarrow> Inl e | Inr (_, g) \<Rightarrow> Inr g))"

text \<open>
  What the process gets from outside may change from event to event; the configuration does not.
  The operating system gives a new client a descriptor that no open connection has.
\<close>

definition same_config :: "GateEnv \<Rightarrow> GateEnv \<Rightarrow> bool" where
  "same_config E E' \<longleftrightarrow> mpAreaID2ChannelID E' = mpAreaID2ChannelID E \<and> iNeedAuth E' = iNeedAuth E
     \<and> small_messages E'"

definition fd_free :: "gate_event \<Rightarrow> Gate \<Rightarrow> bool" where
  "fd_free ev g = (case ev of
     GeNew s \<Rightarrow> list_all (\<lambda>c. cx_bState c = STATE_INVALID \<or> sk_fd (cx_cliSocket c) \<noteq> sk_fd s) (m_vecConnections g)
   | _ \<Rightarrow> True)"

inductive gate_reach :: "GateEnv \<Rightarrow> Gate \<Rightarrow> bool" for E where
  gate_init: "gate_reach E (Gate_new E junk n tm ch)"
| gate_step: "\<lbrakk>gate_reach E g; same_config E E'; fd_free ev g; gate_handle E' ev g = Some (Inr g')\<rbrakk>
    \<Longrightarrow> gate_reach E g'"

lemma gate_inv_config: "same_config E E' \<Longrightarrow> gate_inv E' g = gate_inv E g"
  by (simp add: same_config_def gate_inv_def conn_ok_def)

lemma gate_inv_new: "gate_inv E (Gate_new E junk n tm ch)"
  by (simp add: gate_inv_def Gate_new_def conn_ok_def Connection_Init_def gate_state_defs)

lemma gate_handle_inv:
  assumes inv: "gate_inv E g" and small: "small_messages E" and fd: "fd_free ev g"
    and step: "gate_handle E ev g = Some (Inr g')"
  shows "gate_inv E g'"
proof (cases ev)
  case (GeNew s)
  obtain r where n: "OnNewConnection E s g = Inr (r, g')"
    using step GeNew by (auto simp: gate_handle_def split: sum.splits)
  have "m_mpConnections g (sk_fd s) \<in> {None, Some 0}"
  proof (rule ccontr)
    assume "\<not> ?thesis"
    then obtain idx where a: "m_mpConnections g (sk_fd s) = Some idx" "idx \<noteq> 0" by auto
    note m = gate_inv_map [OF inv a]
    then have "conn g (nat idx) \<in> set (m_vecConnections g)" by auto
    then show False using fd m by (auto simp: fd_free_def GeNew list_all_iff)
  qed
  then show ?thesis using OnNewConnection_inv [OF inv small _ n] by simp
next
  case (GeData f d)
  then show ?thesis using OnClientDataRecv_total [OF inv small, of f d] step by (auto simp: gate_handle_def)
next
  case (GeClosed f)
  then show ?thesis using OnConnectionClosed_inv [OF inv, of f] step
    by (auto simp: gate_handle_def split: sum.splits)
next
  case (GeAgent d)
  then show ?thesis using Agent_DispatchMessage_inv [OF inv] step
    by (auto simp: gate_handle_def split: sum.splits)
next
  case (GeIdle i)
  then show ?thesis using CheckConnxFree_inv [OF inv] step by (simp add: gate_handle_def)
next
  case (GeClosing r n)
  then show ?thesis using OnClosing_inv [OF inv, of r n] step
    by (auto simp: gate_handle_def split: sum.splits)
qed

section \<open>Forwarding\<close>

definition frame :: "byte list \<Rightarrow> byte list" where
  "frame m = put_be16 (of_nat (length m)) @ m"

text \<open>The report the agent gets with the data of a client, and what it does to the channels.\<close>

definition data_report :: "nat \<Rightarrow> Connection \<Rightarrow> GateSSMsg" where
  "data_report i c = \<lparr>ss_event = EVENT_DATA, ss_idx = of_nat i, ss_uid = cx_ulUid c,
     ss_area = word_of_int (cx_iArea c), ss_ip = None, ss_port = None, ss_reason = None\<rparr>"

definition forward :: "GateEnv \<Rightarrow> nat \<Rightarrow> Connection \<Rightarrow> byte list \<Rightarrow> ChannelAgentMgr \<Rightarrow> ChannelAgentMgr" where
  "forward E i c m ch = snd (SendToAgent (ge_post1 E) (ge_post2 E) (cx_iDstChannel c)
     [ge_ser_ss E (data_report i c), m] (int (length (ge_ser_ss E (data_report i c)))) ch)"

text \<open>
  An authorised client of whose next message only the length \<open>n\<close> is known; with the length 0 no
  message is under way.
\<close>

definition awaiting :: "GateEnv \<Rightarrow> int \<Rightarrow> nat \<Rightarrow> nat \<Rightarrow> Gate \<Rightarrow> bool" where
  "awaiting E fd i n g \<longleftrightarrow> GetConnectionByFD fd g = Some i \<and> conn_fd g i = fd \<and> conn_ok E (conn g i)
     \<and> cx_bState (conn g i) = STATE_AUTHORIZED \<and> cx_iMsgLen (conn g i) = int n"

abbreviation ready :: "GateEnv \<Rightarrow> int \<Rightarrow> nat \<Rightarrow> Gate \<Rightarrow> bool" where
  "ready E fd i \<equiv> awaiting E fd i 0"

definition same_client :: "Connection \<Rightarrow> Connection \<Rightarrow> bool" where
  "same_client c c' \<longleftrightarrow> cx_ulUid c' = cx_ulUid c \<and> cx_iArea c' = cx_iArea c \<and> cx_iDstChannel c' = cx_iDstChannel c"

lemma forward_same_client: "same_client c c' \<Longrightarrow> forward E i c' m ch = forward E i c m ch"
  by (simp add: same_client_def forward_def data_report_def)

lemma UpdateStat_fields [simp]:
  "cx_bState (UpdateStat E r c) = cx_bState c" "cx_iMsgLen (UpdateStat E r c) = cx_iMsgLen c"
  "cx_cliSocket (UpdateStat E r c) = cx_cliSocket c" "cx_ulUid (UpdateStat E r c) = cx_ulUid c"
  "cx_iArea (UpdateStat E r c) = cx_iArea c" "cx_iDstChannel (UpdateStat E r c) = cx_iDstChannel c"
  by (simp_all add: UpdateStat_def Let_def)

lemma ReportEvent_data:
  assumes "m_mpConnections g (conn_fd g i) = Some (int i)"
  shows "ReportEvent E i EVENT_DATA 0 (Some m) g
    = Inr (g\<lparr>g_channels := forward E i (conn g i) m (g_channels g)\<rparr>)"
  using assms by (simp add: ReportEvent_def Let_def EVENT_DATA_def EVENT_CONNECTED_def EVENT_CLOSE_def
      forward_def data_report_def case_prod_beta fun_upd_idem)

lemma OnClientMessage_forwards:
  assumes i: "i < length (m_vecConnections g)" and st: "cx_bState (conn g i) = STATE_AUTHORIZED"
    and m: "m_mpConnections g (conn_fd g i) = Some (int i)" and t: "iTestMode E = 0"
  shows "\<exists>g'. OnClientMessage E i msg g = Inr (0, g')
    \<and> g_channels g' = forward E i (conn g i) msg (g_channels g)
    \<and> m_mpConnections g' = m_mpConnections g
    \<and> m_vecConnections g' = (m_vecConnections g)[i := UpdateStat E True (conn g i)]"
proof -
  let ?g = "(upd_conn i (UpdateStat E True) (g\<lparr>uppkgs := uppkgs g + 1\<rparr>))\<lparr>reqpkgs := reqpkgs g + 1\<rparr>"
  have c: "conn ?g i = UpdateStat E True (conn g i)" using i by (simp add: upd_conn_def)
  have "m_mpConnections ?g (conn_fd ?g i) = Some (int i)" using m c by simp
  from ReportEvent_data [OF this, of E msg] have "ForwardData E i msg (upd_conn i (UpdateStat E True) (g\<lparr>uppkgs := uppkgs g + 1\<rparr>))
      = Inr (?g\<lparr>g_channels := forward E i (conn ?g i) msg (g_channels ?g)\<rparr>)"
    using t by (simp add: ForwardData_def upd_conn_def)
  moreover have "forward E i (conn ?g i) msg ch = forward E i (conn g i) msg ch" for ch
    by (rule forward_same_client) (use i in \<open>simp add: upd_conn_def same_client_def\<close>)
  ultimately show ?thesis
    using i st c by (simp add: OnClientMessage_def Let_def gate_state_defs upd_conn_def)
qed

lemma awaitingD:
  assumes "awaiting E fd i n g"
  shows "i < length (m_vecConnections g)" and "cx_pBuffer (conn g i) \<noteq> None" and "cx_iUsed (conn g i) = 0"
    and "m_mpConnections g fd = Some (int i)" and "0 < i"
  using assms GetConnectionByFD_live [of fd g i] by (auto simp: awaiting_def conn_ok_def gate_state_defs)

text \<open>A connection update that keeps what \<open>awaiting\<close> looks at, but for the length.\<close>

lemma awaitingI:
  assumes "awaiting E fd i k g" and "m_mpConnections g' = m_mpConnections g"
    and "length (m_vecConnections g') = length (m_vecConnections g)"
    and core: "conn_core (conn g' i) = conn_core ((conn g i)\<lparr>cx_iMsgLen := int n\<rparr>)" and "n \<le> 65535"
  shows "awaiting E fd i n g'"
proof -
  have c: "cx_bState (conn g' i) = cx_bState (conn g i)" "conn_fd g' i = conn_fd g i"
    "cx_iMsgLen (conn g' i) = int n" using core by (simp_all add: conn_core_def)
  have "GetConnectionByFD fd g' = Some i"
    using assms c by (auto simp: awaiting_def GetConnectionByFD_def GetConnectionByIdx_def split: option.splits if_splits)
  then show ?thesis using assms(1) c conn_ok_core [OF core, of E] conn_ok_len [of E "conn g i" n] \<open>n \<le> 65535\<close>
    by (simp add: awaiting_def)
qed

text \<open>
  The end of the handler, once the \<open>n\<close> bytes of a message are known to be there: the message is
  forwarded, and the connection is ready again.
\<close>

lemma recv_body:
  assumes rdy: "awaiting E fd i k g" and t: "iTestMode E = 0"
    and pre: "recv_prefix data (conn g i) = Inr (PrefixGo c' (int off))"
    and core: "conn_core c' = conn_core ((conn g i)\<lparr>cx_iMsgLen := int n\<rparr>)" and sc: "same_client (conn g i) c'"
    and n: "0 < n" "n \<le> 65535" and fits: "off + n \<le> length data"
  obtains g' where "ready E fd i g'" and "same_client (conn g i) (conn g' i)"
    and "g_channels g' = forward E i (conn g i) (take n (drop off data)) (g_channels g)"
    and "OnClientDataRecv E fd data g = (if length data = off + n then Some (Inr (0, g'))
      else OnClientDataRecv E fd (drop (off + n) data) g')"
proof -
  let ?bs = "take n (drop off data)"
  let ?g = "g\<lparr>uploadsize := uploadsize g + of_nat (length data)\<rparr>"
  note R = awaitingD [OF rdy]
  have fd: "GetConnectionByFD fd g = Some i" "conn_fd g i = fd" using rdy by (simp_all add: awaiting_def)
  have cf: "cx_iUsed c' = 0" "cx_iMsgLen c' = int n" "cx_bState c' = STATE_AUTHORIZED"
    "sk_fd (cx_cliSocket c') = fd" "cx_pBuffer c' \<noteq> None"
    using core R rdy by (simp_all add: conn_core_def awaiting_def)
  have sl: "src_slice (int off) (int n) data = Inr ?bs" using fits by (simp add: src_slice_def)
  have lb: "length ?bs = n" using fits by simp
  obtain b where b: "buf_write 0 ?bs c' = Inr (c'\<lparr>cx_pBuffer := Some b\<rparr>)"
    "buf_read n (c'\<lparr>cx_pBuffer := Some b\<rparr>) = ?bs"
    using buf_write_ok [OF cf(5), of ?bs] n(2) lb by auto
  let ?c = "c'\<lparr>cx_pBuffer := Some b\<rparr>" and ?h = "upd_conn i (\<lambda>_. c'\<lparr>cx_pBuffer := Some b\<rparr>) ?g"
  have hc: "conn ?h i = ?c" using R(1) by (simp add: upd_conn_def)
  obtain h where k: "OnClientMessage E i ?bs ?h = Inr (0, h)"
    "g_channels h = forward E i ?c ?bs (g_channels g)" "m_mpConnections h = m_mpConnections g"
    "m_vecConnections h = (m_vecConnections g)[i := UpdateStat E True ?c]"
    using OnClientMessage_forwards [of i ?h E ?bs] R t cf hc by (auto simp: upd_conn_def)
  let ?k = "upd_conn i (\<lambda>c. c\<lparr>cx_iMsgLen := 0, cx_iUsed := 0\<rparr>) h"
  have kc: "conn ?k i = (UpdateStat E True ?c)\<lparr>cx_iMsgLen := 0, cx_iUsed := 0\<rparr>"
    using R(1) by (simp add: upd_conn_def k(4))
  have "conn_core (UpdateStat E True ?c) = conn_core c'" using cf(5) by (simp add: conn_core_def [of ?c] conn_core_def [of c'])
  then have kcore: "conn_core (conn ?k i) = conn_core ((conn g i)\<lparr>cx_iMsgLen := int 0\<rparr>)"
    using core rdy R(3) by (simp add: kc conn_core_def awaiting_def)
  have "ready E fd i ?k"
    by (rule awaitingI [OF rdy _ _ kcore]) (simp_all add: k(3,4))
  moreover have "same_client (conn g i) (conn ?k i)" using sc by (simp add: kc same_client_def)
  moreover have "forward E i ?c ?bs (g_channels g) = forward E i (conn g i) ?bs (g_channels g)"
    by (rule forward_same_client) (use sc in \<open>simp add: same_client_def\<close>)
  then have "g_channels ?k = forward E i (conn g i) ?bs (g_channels g)" using k(2) by simp
  moreover have "OnClientDataRecv E fd data g = (if length data = off + n then Some (Inr (0, ?k))
      else OnClientDataRecv E fd (drop (off + n) data) ?k)"
  proof -
    have "int (length data) - int off \<ge> int n" using fits by linarith
    then have "OnClientDataRecv E fd data g = (if int (length data) \<le> int off + int n then Some (Inr (0, ?k))
        else Option.bind (OnClientDataRecv E fd (drop (off + n) data) ?k)
          (\<lambda>r. Some (case r of Inl e \<Rightarrow> Inl e | Inr (r, g) \<Rightarrow> Inr (0 + r, g))))"
      using fd(1) pre sl b k(1) cf by (subst OnClientDataRecv.simps) (simp add: Let_def nat_add_distrib)
    moreover have "Option.bind x (\<lambda>r. Some (case r of Inl e \<Rightarrow> Inl e | Inr (r, g) \<Rightarrow> Inr (0 + r, g))) = x"
      for x :: "(fault + int \<times> Gate) option"
      by (cases x) (auto split: sum.split)
    ultimately show ?thesis using fits by auto
  qed
  ultimately show thesis by (rule that)
qed

lemma frame_prefix:
  assumes "length m \<le> 65535"
  shows "get_be16 (frame m @ rest) = of_nat (length m)" and "unat (get_be16 (frame m @ rest)) = length m"
    and "length (frame m @ rest) = 2 + length m + length rest" and "take (length m) (drop 2 (frame m @ rest)) = m"
    and "drop (2 + length m) (frame m @ rest) = rest"
  using assms by (simp_all add: frame_def unat_u16_of_nat)

lemma same_client_trans: "same_client a b \<Longrightarrow> same_client b c \<Longrightarrow> same_client a c"
  by (simp add: same_client_def)

text \<open>The length is read from the first two bytes of the chunk.\<close>

lemma recv_go:
  assumes rdy: "ready E fd i g" and l: "2 \<le> length data" and nz: "0 < unat (get_be16 data)"
  obtains c' where "recv_prefix data (conn g i) = Inr (PrefixGo c' (int 2))"
    and "conn_core c' = conn_core ((conn g i)\<lparr>cx_iMsgLen := int (unat (get_be16 data))\<rparr>)"
    and "same_client (conn g i) c'"
proof -
  have ok: "conn_ok E (conn g i)" and z: "cx_iMsgLen (conn g i) = 0" using rdy by (simp_all add: awaiting_def)
  from ok awaitingD(2) [OF rdy] show thesis
  proof (cases rule: recv_prefix_cases [where data = data])
    case (wait c')
    then show thesis using l nz by auto
  next
    case (go c' n off)
    then have o: "off = 2" "n = unat (get_be16 data)"
      and c': "\<exists>b. c' = (conn g i)\<lparr>cx_pBuffer := Some b, cx_iMsgLen := int n, cx_iUsed := 0\<rparr>"
      using z by auto
    have "same_client (conn g i) c'" using c' by (auto simp: same_client_def)
    then show thesis using that go(1,2) o by simp
  qed
qed

lemma recv_frame:
  assumes rdy: "ready E fd i g" and t: "iTestMode E = 0" and m: "0 < length m" "length m \<le> 65535"
  obtains g' where "ready E fd i g'" and "same_client (conn g i) (conn g' i)"
    and "g_channels g' = forward E i (conn g i) m (g_channels g)"
    and "OnClientDataRecv E fd (frame m @ rest) g = (if rest = [] then Some (Inr (0, g'))
      else OnClientDataRecv E fd rest g')"
proof -
  note F = frame_prefix [OF m(2), of rest]
  have l: "2 \<le> length (frame m @ rest)" and nz: "0 < unat (get_be16 (frame m @ rest))"
    using F(2,3) m(1) by simp_all
  obtain c' where c': "recv_prefix (frame m @ rest) (conn g i) = Inr (PrefixGo c' (int 2))"
    "conn_core c' = conn_core ((conn g i)\<lparr>cx_iMsgLen := int (length m)\<rparr>)" "same_client (conn g i) c'"
    using recv_go [OF rdy l nz] unfolding F(2) by blast
  obtain g' where g': "ready E fd i g'" "same_client (conn g i) (conn g' i)"
    "g_channels g' = forward E i (conn g i) (take (length m) (drop 2 (frame m @ rest))) (g_channels g)"
    "OnClientDataRecv E fd (frame m @ rest) g
      = (if length (frame m @ rest) = 2 + length m then Some (Inr (0, g'))
         else OnClientDataRecv E fd (drop (2 + length m) (frame m @ rest)) g')"
    by (rule recv_body [OF rdy t c' m]) (use F(3) in auto)
  then show thesis using that [OF g'(1,2)] F by (simp add: frame_def)
qed

text \<open>A chunk that ends before or with an empty frame: nothing is taken over.\<close>

lemma recv_wait:
  assumes rdy: "ready E fd i g" and w: "length data < 2 \<or> get_be16 data = 0"
  obtains g' where "OnClientDataRecv E fd data g = Some (Inr (0, g'))" and "ready E fd i g'"
    and "g_channels g' = g_channels g" and "same_client (conn g i) (conn g' i)"
proof -
  have ok: "conn_ok E (conn g i)" and z: "cx_iMsgLen (conn g i) = 0"
    and fd: "GetConnectionByFD fd g = Some i" using rdy by (simp_all add: awaiting_def)
  have ul: "same_client (conn g i) c'" if "recv_prefix data (conn g i) = Inr (PrefixReturn 0 c')" for c'
    using that by (auto simp: recv_prefix_def buf_write_def same_client_def Let_def
        split: if_splits sum.splits option.splits)
  from ok awaitingD(2) [OF rdy] show thesis
  proof (cases rule: recv_prefix_cases [where data = data])
    case (wait c')
    let ?g = "upd_conn i (\<lambda>_. c') (g\<lparr>uploadsize := uploadsize g + of_nat (length data)\<rparr>)"
    have c: "conn ?g i = c'" using awaitingD(1) [OF rdy] by (simp add: upd_conn_def)
    have "OnClientDataRecv E fd data g = Some (Inr (0, ?g))"
      using fd wait(1) by (subst OnClientDataRecv.simps) (simp add: Let_def)
    moreover have "ready E fd i ?g" by (rule awaitingI [OF rdy]) (use c wait(2) z in \<open>simp_all add: conn_core_def\<close>)
    ultimately show thesis using that ul [OF wait(1)] c by simp
  next
    case (go c' n off)
    then show thesis using z w by auto
  qed
qed

lemma recv_frames:
  assumes "ready E fd i g" and "iTestMode E = 0" and "\<forall>m\<in>set ms. 0 < length m \<and> length m \<le> 65535"
  shows "\<exists>g'. OnClientDataRecv E fd (concat (map frame ms)) g = Some (Inr (0, g'))
    \<and> ready E fd i g' \<and> same_client (conn g i) (conn g' i)
    \<and> g_channels g' = fold (forward E i (conn g i)) ms (g_channels g)"
  using assms(1,3)
proof (induction ms arbitrary: g)
  case Nil
  obtain g' where "OnClientDataRecv E fd [] g = Some (Inr (0, g'))" "ready E fd i g'"
    "g_channels g' = g_channels g" "same_client (conn g i) (conn g' i)"
    by (rule recv_wait [OF Nil(1), of "[]"]) auto
  then show ?case by simp
next
  case (Cons m ms)
  have m: "0 < length m" "length m \<le> 65535" using Cons.prems(2) by simp_all
  let ?rest = "concat (map frame ms)"
  obtain h where h: "ready E fd i h" "same_client (conn g i) (conn h i)"
    "g_channels h = forward E i (conn g i) m (g_channels g)"
    "OnClientDataRecv E fd (frame m @ ?rest) g = (if ?rest = [] then Some (Inr (0, h))
      else OnClientDataRecv E fd ?rest h)"
    by (rule recv_frame [OF Cons.prems(1) assms(2) m])
  show ?case
  proof (cases "?rest = []")
    case True
    then have "ms = []" by (cases ms) (auto simp: frame_def put_be16_def)
    then show ?thesis using h by simp
  next
    case False
    have "\<forall>m\<in>set ms. 0 < length m \<and> length m \<le> 65535" using Cons.prems(2) by simp
    from Cons.IH [OF h(1) this] obtain g' where g': "OnClientDataRecv E fd ?rest h = Some (Inr (0, g'))"
      "ready E fd i g'" "same_client (conn h i) (conn g' i)"
      "g_channels g' = fold (forward E i (conn h i)) ms (g_channels h)" by blast
    have "forward E i (conn h i) = forward E i (conn g i)"
      by (intro ext forward_same_client h(2))
    then have "g_channels g' = fold (forward E i (conn g i)) (m # ms) (g_channels g)"
      using g'(4) h(3) by simp
    moreover have "OnClientDataRecv E fd (concat (map frame (m # ms))) g = Some (Inr (0, g'))"
      using h(4) [unfolded if_not_P [OF False]] g'(1) by simp
    ultimately show ?thesis using g'(2) same_client_trans [OF h(2) g'(3)] by blast
  qed
qed

text \<open>A chunk that ends within a message: only the length is remembered.\<close>

lemma recv_partial:
  assumes rdy: "ready E fd i g" and a: "length a < n" "n \<le> 65535"
  obtains g' where "OnClientDataRecv E fd (put_be16 (of_nat n) @ a) g = Some (Inr (0, g'))"
    and "awaiting E fd i n g'" and "g_channels g' = g_channels g" and "same_client (conn g i) (conn g' i)"
proof -
  let ?d = "put_be16 (of_nat n) @ a"
  have w: "unat (get_be16 ?d) = n" "2 \<le> length ?d" using a by (simp_all add: unat_u16_of_nat)
  obtain c' where c': "recv_prefix ?d (conn g i) = Inr (PrefixGo c' (int 2))"
    "conn_core c' = conn_core ((conn g i)\<lparr>cx_iMsgLen := int n\<rparr>)" "same_client (conn g i) c'"
    using recv_go [OF rdy w(2)] a(1) unfolding w(1) by auto
  have cf: "cx_iUsed c' = 0" "cx_iMsgLen c' = int n"
    using c'(2) awaitingD(3) [OF rdy] by (simp_all add: conn_core_def)
  let ?g = "upd_conn i (\<lambda>_. c') (g\<lparr>uploadsize := uploadsize g + of_nat (length ?d)\<rparr>)"
  have c: "conn ?g i = c'" using awaitingD(1) [OF rdy] by (simp add: upd_conn_def)
  have "\<not> int (length ?d) - int 2 \<ge> int n" using a(1) by (simp add: put_be16_def)
  then have "OnClientDataRecv E fd ?d g = Some (Inr (0, ?g))"
    using rdy c'(1) cf by (subst OnClientDataRecv.simps) (simp add: Let_def awaiting_def)
  moreover have "awaiting E fd i n ?g"
    by (rule awaitingI [OF rdy]) (use c c'(2) a(2) in simp_all)
  ultimately show thesis using that c'(3) c by simp
qed

lemma recv_rest:
  assumes aw: "awaiting E fd i n g" and t: "iTestMode E = 0" and d: "0 < n" "n \<le> 65535" "length d = n"
  obtains g' where "OnClientDataRecv E fd d g = Some (Inr (0, g'))" and "ready E fd i g'"
    and "g_channels g' = forward E i (conn g i) d (g_channels g)"
proof -
  have n: "cx_iMsgLen (conn g i) = int n" using aw by (simp add: awaiting_def)
  have p: "recv_prefix d (conn g i) = Inr (PrefixGo (conn g i) (int 0))" using n d(1) by (simp add: recv_prefix_def)
  obtain g' where "ready E fd i g'"
    "g_channels g' = forward E i (conn g i) (take n (drop 0 d)) (g_channels g)"
    "OnClientDataRecv E fd d g = (if length d = 0 + n then Some (Inr (0, g'))
      else OnClientDataRecv E fd (drop (0 + n) d) g')"
    by (rule recv_body [OF aw t p _ _ d(1,2)]) (use n d(3) in \<open>simp_all add: conn_core_def same_client_def\<close>)
  then show thesis using that d(3) by simp
qed

section \<open>A gate with one authorised client\<close>

text \<open>Connection 1 belongs to the client on descriptor 7, user 42 in area 5, whose agent is channel 9.\<close>

definition sock7 :: TcpSocket where
  "sock7 = \<lparr>sk_fd = 7, sk_ip = 2130706433, sk_port = 4000\<rparr>"

definition conn0 :: Connection where
  "conn0 = \<lparr>cx_iIdx = -1, cx_cliSocket = sock7, cx_pBuffer = None, cx_iUsed = 0, cx_iDstChannel = 0,
     cx_iMsgLen = 0, cx_bState = STATE_INVALID, cx_ulUid = 0, cx_sToken = '''', cx_iArea = 0,
     cx_tLastActTime = 0, cx_dwRecvNum = 0, cx_dwSendNum = 0, cx_dwLastPeriodRecvNum = 0,
     cx_dwLastPeriodSendNum = 0, cx_tLastPeriodTime = 0, cx_dwCurrentRecvSpeed = 0,
     cx_dwCurrentSendSpeed = 0, cx_dwTimerID = 0, cx_tLastCheckTime = 0\<rparr>"

definition conn42 :: Connection where
  "conn42 = conn0\<lparr>cx_iIdx := 1, cx_pBuffer := Some (\<lambda>_. 0), cx_bState := STATE_AUTHORIZED,
     cx_ulUid := 42, cx_iArea := 5, cx_iDstChannel := 9\<rparr>"

definition env5 :: GateEnv where
  "env5 = \<lparr>iTestMode = 0, iNeedAuth = 0, mpAreaID2ChannelID = [5 \<mapsto> 9], iIdleCheckPeriod = 0,
     ge_ser_ss = (\<lambda>m. [of_int (ss_event m), ucast (ss_idx m)]),
     ge_parse_ss = (\<lambda>bs. if bs = [3, 1] then Some \<lparr>ss_event = EVENT_DATA, ss_idx = 1, ss_uid = 42,
        ss_area = 5, ss_ip = None, ss_port = None, ss_reason = None\<rparr> else None),
     ge_ser_cs = (\<lambda>m. [ucast (cs_cmd m)]),
     ge_parse_cs = (\<lambda>bs. Some \<lparr>cs_cmd = GATE_AUTH_REQ,
        cs_authreq = Some \<lparr>au_uid = 42, au_auth = 0, au_token = '''', au_area = 5\<rparr>, cs_authrsp = None\<rparr>),
     ge_send = (\<lambda>_ _. 0), ge_alloc = True, ge_post1 = True, ge_post2 = True, ge_now = 0, ge_stamp = 0,
     ge_test_data = []\<rparr>"

definition gate1 :: Gate where
  "gate1 = (Gate_new env5 conn0 2 TimerMgr_new one_channel)
     \<lparr>m_vecConnections := [conn0, conn42], m_mpConnections := [7 \<mapsto> 1], m_iAlivedConnections := 1\<rparr>"

lemma gate1_ready: "ready env5 7 1 gate1"
  by (simp add: awaiting_def gate1_def env5_def conn42_def conn0_def sock7_def conn_ok_def gate_state_defs
      GetConnectionByFD_def GetConnectionByIdx_def)

definition gate0 :: Gate where
  "gate0 = Gate_new env5 conn0 2 TimerMgr_new one_channel"

lemma env5_config: "same_config env5 env5" "small_messages env5"
  by (simp_all add: same_config_def small_messages_def env5_def MAX_GATE_FRAME_SIZE_def)

text \<open>The client on descriptor 7 is accepted into slot 1.\<close>

lemma gate0_accepts: "\<exists>g. OnNewConnection env5 sock7 gate0 = Inr (0, g) \<and> gate_reach env5 g
  \<and> cx_bState (conn g 1) = STATE_CONNECTED \<and> conn_fd g 1 = 7 \<and> length (m_vecConnections g) = 2"
proof -
  have n: "GetNextIdx (gate0\<lparr>m_iAlivedConnections := 1\<rparr>) = 1"
    by (simp add: GetNextIdx_def gate0_def Gate_new_def conn0_def Connection_Init_def gate_state_defs
        numeral_2_eq_2)
  obtain g where g: "OnNewConnection env5 sock7 gate0 = Inr (0, g)" "cx_bState (conn g 1) = STATE_CONNECTED"
    "conn_fd g 1 = 7" "length (m_vecConnections g) = 2"
    using n by (simp add: OnNewConnection_def OnNewConnection_at_def OnNewConnection_open_def NotifyNeedAuth_def
        SendToClient_def SendFrameToClient_def gate0_def Gate_new_def env5_def conn0_def sock7_def
        Connection_Init_def upd_conn_def MAX_GATE_FRAME_SIZE_def numeral_2_eq_2 Let_def
        UpdateStat_def CONNECTION_STAT_PERIOD_TIME_def)
  have "gate_reach env5 gate0" unfolding gate0_def by (rule gate_init)
  moreover have "fd_free (GeNew sock7) gate0"
    by (simp add: fd_free_def gate0_def Gate_new_def Connection_Init_def list_all_iff)
  moreover have "gate_handle env5 (GeNew sock7) gate0 = Some (Inr g)" using g(1) by (simp add: gate_handle_def)
  ultimately show ?thesis using g env5_config(1) by (blast intro: gate_step)
qed

section \<open>Properties\<close>







text \<open>
  A message that arrives in two chunks is lost.  The gate remembers its length \<open>n\<close> but not the
  bytes \<open>a\<close> of it that came with the length: the next \<open>n\<close> bytes \<open>d\<close>, the rest of the message and the
  beginning of the following ones, are forwarded as the message.
\<close>

lemma split_message_lost:
  assumes "ready E fd i g" and "iTestMode E = 0" and "length a < n" and "n \<le> 65535" and "length d = n"
  shows "\<exists>g1 g2. OnClientDataRecv E fd (put_be16 (of_nat n) @ a) g = Some (Inr (0, g1))
    \<and> OnClientDataRecv E fd d g1 = Some (Inr (0, g2)) \<and> ready E fd i g2
    \<and> g_channels g2 = forward E i (conn g i) d (g_channels g)"
proof -
  obtain g1 where g1: "OnClientDataRecv E fd (put_be16 (of_nat n) @ a) g = Some (Inr (0, g1))"
    "awaiting E fd i n g1" "g_channels g1 = g_channels g" "same_client (conn g i) (conn g1 i)"
    by (rule recv_partial [OF assms(1,3,4)])
  obtain g2 where g2: "OnClientDataRecv E fd d g1 = Some (Inr (0, g2))" "ready E fd i g2"
    "g_channels g2 = forward E i (conn g1 i) d (g_channels g1)"
    by (rule recv_rest [OF g1(2) assms(2) _ assms(4,5)]) (use assms(3) in auto)
  show ?thesis using g1(1,3) g2 forward_same_client [OF g1(4), of E i d "g_channels g"] by auto
qed

lemma split_message_lost_witness:
  "\<exists>g1 g2. OnClientDataRecv env5 7 [0, 3, 10] gate1 = Some (Inr (0, g1))
    \<and> OnClientDataRecv env5 7 [20, 30, 0] g1 = Some (Inr (0, g2))
    \<and> g_channels g2 = forward env5 1 (conn gate1 1) [20, 30, 0] (g_channels gate1)"
proof -
  have "iTestMode env5 = 0" by (simp add: env5_def)
  moreover have "put_be16 (of_nat 3) @ [10] = [0, 3, 10]" by (simp add: put_be16_def)
  ultimately show ?thesis
    using split_message_lost [OF gate1_ready, of "[10]" 3 "[20, 30, 0]"] by auto
qed

text \<open>
  C4.  What an agent sends to a client reaches exactly that client: the data of the envelope goes out
  on the descriptor of the addressed slot as one length-prefixed frame, nothing else is sent, and the
  tables and the other connections are unchanged.
\<close>

theorem agent_data_delivered:
  assumes "length h < 65536" and "length d \<le> 65535" and "ge_parse_ss E h = Some m"
    and "ss_event m = EVENT_DATA" and "sint (ss_idx m) = int i" and "GetConnectionByIdx (int i) g = Some i"
    and "\<forall>bs. ge_send E (conn_fd g i) bs = 0"
  shows "\<exists>g'. Agent_DispatchMessage E (seal_message h d) g = Inr (0, g') \<and> same_core g g'
    \<and> (\<exists>a b. g_out g' = g_out g @ [(conn_fd g i, a), (conn_fd g i, b)] \<and> a @ b = frame d)
    \<and> (\<forall>j. j \<noteq> i \<longrightarrow> conn g' j = conn g j)"
proof -
  let ?g = "g\<lparr>downpkgs := downpkgs g + 1, rsppkgs := rsppkgs g + 1\<rparr>"
  let ?s = "snd (SendFrameToClient E i (GateFrame d) ?g)"
  have i: "i < length (m_vecConnections g)" using GetConnectionByIdx_live(2) [OF assms(6)] .
  have gf: "GateFrame d = d" using assms(2) by (simp add: GateFrame_def unat_u16_of_nat)
  have "Agent_DispatchMessage E (seal_message h d) g = Inr (0, ?s)"
    using assms(3-6) proxy_env.unseal_seal [OF assms(1), of d]
    by (simp add: Agent_DispatchMessage_def Let_def EVENT_DATA_def EVENT_CLOSE_def)
  moreover have "same_core g ?s"
    using same_core_fields [of ?g g] SendFrameToClient_core by (rule same_core_trans) simp_all
  moreover have "g_out ?s = g_out g @ [(conn_fd g i, put_be16 (of_nat (length d))), (conn_fd g i, d)]"
    using assms(7) i by (simp add: SendFrameToClient_def Let_def gf upd_conn_def)
  moreover have "conn ?s j = conn g j" if "j \<noteq> i" for j
    using that i by (simp add: SendFrameToClient_def Let_def upd_conn_def)
  ultimately show ?thesis by (auto simp: frame_def)
qed

theorem agent_data_delivered_witness:
  "\<exists>g'. Agent_DispatchMessage env5 (seal_message [3, 1] [65, 66]) gate1 = Inr (0, g')
    \<and> (\<exists>a b. g_out g' = [(7, a), (7, b)] \<and> a @ b = [0, 2, 65, 66])"
proof -
  have "GetConnectionByIdx (int 1) gate1 = Some 1" "conn_fd gate1 1 = 7" "g_out gate1 = []"
    by (simp_all add: GetConnectionByIdx_def gate1_def Gate_new_def conn42_def conn0_def sock7_def gate_state_defs)
  moreover have "frame [65, 66] = [0, 2, 65, 66]" by (simp add: frame_def put_be16_def)
  moreover have "\<exists>m. ge_parse_ss env5 [3, 1] = Some m \<and> ss_event m = EVENT_DATA \<and> sint (ss_idx m) = int 1"
    by (simp add: env5_def)
  moreover have "ge_send env5 fd bs = 0" for fd bs by (simp add: env5_def)
  ultimately show ?thesis using agent_data_delivered [of "[3, 1]" "[65, 66]" env5 _ 1 gate1] by auto
qed

text \<open>
  Closing a connection frees its slot, cancels its idle timer and tells the agent, but the slot
  in that report is always 0: the descriptor is erased from the map before the report looks it up, and
  the lookup enters it again.  The reports of data, by contrast, carry the slot.
\<close>

lemma close_reports_slot_zero:
  assumes "i < length (m_vecConnections g)"
  shows "\<exists>g' m. RemoveConnection E i reason g = Inr g' \<and> cx_bState (conn g' i) = STATE_INVALID
    \<and> g_timers g' = CancelTimer (cx_dwTimerID (conn g i)) (g_timers g)
    \<and> m_mpConnections g' (conn_fd g i) = Some 0
    \<and> ss_event m = EVENT_CLOSE \<and> ss_idx m = 0 \<and> ss_uid m = cx_ulUid (conn g i)
    \<and> g_channels g' = snd (SendToAgent (ge_post1 E) (ge_post2 E) (cx_iDstChannel (conn g i))
        [ge_ser_ss E m] (int (length (ge_ser_ss E m))) (g_channels g))
    \<and> ss_idx (data_report i (conn g i)) = of_nat i"
proof -
  let ?c = "conn g i"
  let ?m = "\<lparr>ss_event = EVENT_CLOSE, ss_idx = 0, ss_uid = cx_ulUid ?c, ss_area = word_of_int (cx_iArea ?c),
     ss_ip = None, ss_port = None, ss_reason = Some (word_of_int reason)\<rparr>"
  obtain g' where g': "RemoveConnection E i reason g = Inr g'"
    "m_vecConnections g' = (m_vecConnections g)[i := ?c\<lparr>cx_bState := STATE_INVALID, cx_iIdx := -1\<rparr>]"
    "m_mpConnections g' = (m_mpConnections g)(conn_fd g i \<mapsto> 0)"
    "g_timers g' = CancelTimer (cx_dwTimerID ?c) (g_timers g)"
    by (rule RemoveConnection_result [OF assms, of E reason])
  have "g_channels g' = snd (SendToAgent (ge_post1 E) (ge_post2 E) (cx_iDstChannel ?c)
      [ge_ser_ss E ?m] (int (length (ge_ser_ss E ?m))) (g_channels g))"
    using g'(1) by (auto simp: RemoveConnection_def ReportEvent_def Connection_Close_def upd_conn_def
        EVENT_CLOSE_def EVENT_CONNECTED_def Let_def case_prod_beta)
  then show ?thesis
    using g' assms by (intro exI [of _ g'] exI [of _ ?m]) (simp add: data_report_def)
qed

lemma close_reports_slot_zero_witness:
  "\<exists>g'. RemoveConnection env5 1 CONNECTION_CLOSE_BY_CLIENT gate1 = Inr g'
    \<and> m_mpConnections g' 7 = Some 0 \<and> cx_bState (conn g' 1) = STATE_INVALID"
proof -
  have "1 < length (m_vecConnections gate1)" "conn_fd gate1 1 = 7"
    by (simp_all add: gate1_def conn42_def conn0_def sock7_def)
  then show ?thesis using close_reports_slot_zero [of 1 gate1 env5 CONNECTION_CLOSE_BY_CLIENT] by auto
qed

text \<open>
  The gate has no check for being full: the client that would bring the number of connections to
  the configured maximum makes the handler index the connection vector with -1.
\<close>

lemma full_gate_out_of_bounds:
  assumes "m_iMaxConnection g \<le> m_iAlivedConnections g + 1"
  shows "OnNewConnection E client g = Inl OutOfBounds"
  using assms by (simp add: OnNewConnection_def GetNextIdx_def Let_def)

lemma full_gate_out_of_bounds_witness: "OnNewConnection env5 sock7 gate1 = Inl OutOfBounds"
  by (rule full_gate_out_of_bounds) (simp add: gate1_def Gate_new_def)

end
