(* ===== verification/GateServer.thy ===== *)
theory GateServer
  imports AppMain GateProps
begin

text \<open>
  The gate as a whole: \<open>gate/GateServer.cpp\<close> joins the frame of the application with the gate handler, the
  channel proxy and the timer manager.  The properties here span these components.

  The record \<open>GateServerEnv\<close> holds what the TCP server, ZeroMQ, the clock and the formatting of floating
  point numbers answer.  In \<open>gs_input\<close> is what the sockets will deliver: for every call of \<open>OnPoll\<close> the events of
  the TCP server with the number it reports, and the arrivals at the channels.
\<close>

section \<open>State\<close>

record gate_input =
  gi_tcp :: "gate_event list"
  gi_tcp_ret :: int
  gi_poll_ret :: int
  gi_eintr :: bool
  gi_arrived :: "zmq_arrival list"

record GateParts =
  ptrHandler :: "Gate option"
  gs_proxy :: "unit ChannelMsgProxy"
  gs_channels :: ChannelAgentMgr
  gs_timers :: "unit TimerMgr"
  gs_input :: "gate_input list"

record GateServerEnv =
  gs_env :: GateEnv
  tcp_Init :: "string \<Rightarrow> int \<Rightarrow> bool \<Rightarrow> int \<Rightarrow> int"
  tcp_Start :: int
  gs_junk :: Connection
  gs_alloc :: bool
  gs_ctx_ok :: bool
  gs_zmq :: "int \<Rightarrow> zmq_open"
  gs_split :: "string \<Rightarrow> string \<Rightarrow> string list"
  gs_now1 :: timeval
  gs_now2 :: timeval
  gs_old_sa :: "bool option"
  gs_timer_ret :: int
  gs_f6 :: "int \<Rightarrow> int \<Rightarrow> string"
  gs_console :: "string \<Rightarrow> int \<Rightarrow> bool"
  gs_recv_cap :: nat
  gs_usappend :: "timeval \<Rightarrow> int \<Rightarrow> timeval"
  gs_time_text :: "timeval \<Rightarrow> string"

text \<open>The handler reads its settings from the context.\<close>

definition gate_env :: "GateServerEnv \<Rightarrow> 'd GateServerContext \<Rightarrow> GateEnv" where
  "gate_env S c = (gs_env S)\<lparr>GateEnv.iTestMode := GateServerContext.iTestMode c,
     GateEnv.iNeedAuth := GateServerContext.iNeedAuth c,
     GateEnv.mpAreaID2ChannelID := GateServerContext.mpAreaID2ChannelID c,
     GateEnv.iIdleCheckPeriod := GateServerContext.iIdleCheckPeriod c\<rparr>"

section \<open>The virtual methods\<close>

definition GateServer_OnInit ::
  "GateServerEnv \<Rightarrow> 'd ini \<Rightarrow> 'd GateServerContext \<Rightarrow> GateParts \<Rightarrow> fault + int \<times> 'd GateServerContext \<times> GateParts" where
  "GateServer_OnInit S I c x =
     (let p = parser c; sGateListenIP = GetConfigString I p ''gate:ip'' None; port = GetConfigInt I p ''gate:port'' 0;
          iMaxClient = GetConfigInt I p ''gate:max_clients'' 0; bUseNagle = (0 < GetConfigInt I p ''gate:use_nagle'' 0) in
      if tcp_Init S sGateListenIP port bUseNagle iMaxClient \<noteq> 0 then Inr (-1, c, x)
      else
        let x = x\<lparr>ptrHandler := Some (Gate_new (gate_env S c) (gs_junk S) iMaxClient (gs_timers x) (gs_channels x))\<rparr> in
        bindE (SubscribeScatterMsg (vecAgentIDS c) () (gs_proxy x)) (\<lambda>pr. Inr (0, c, x\<lparr>gs_proxy := pr\<rparr>)))"

definition GateServer_OnStart ::
  "GateServerEnv \<Rightarrow> 'd GateServerContext \<Rightarrow> GateParts \<Rightarrow> fault + int \<times> 'd GateServerContext \<times> GateParts" where
  "GateServer_OnStart S c x = Inr (if tcp_Start S \<noteq> 0 then -1 else 0, c, x)"

definition with_handler :: "(Gate \<Rightarrow> fault + 'r \<times> Gate) \<Rightarrow> 'c \<Rightarrow> GateParts \<Rightarrow> fault + 'r \<times> 'c \<times> GateParts" where
  "with_handler f c x =
     (case ptrHandler x of
        None \<Rightarrow> Inl NullDeref
      | Some g \<Rightarrow> bindE (f g) (\<lambda>(r, g). Inr (r, c, x\<lparr>ptrHandler := Some g\<rparr>)))"

text \<open>\<open>gs_f6 n d\<close> is the text of the floating point number \<open>n * 1.0 / d\<close>.\<close>

definition ctrl_text :: "GateServerEnv \<Rightarrow> string \<Rightarrow> int \<Rightarrow> (Gate \<Rightarrow> string) option" where
  "ctrl_text S cmd rseconds =
     (if cmd = ''downspeed'' then Some (\<lambda>h. gs_f6 S (uint (downloadsize h div 1024)) rseconds @ '' KB/s'')
      else if cmd = ''upspeed'' then Some (\<lambda>h. gs_f6 S (uint (uploadsize h div 1024)) rseconds @ '' KB/s'')
      else if cmd = ''downsize'' then Some (\<lambda>h. gs_f6 S (uint (downloadsize h)) (1024 * 1024) @ '' MB'')
      else if cmd = ''upsize'' then Some (\<lambda>h. gs_f6 S (uint (uploadsize h)) (1024 * 1024) @ '' MB'')
      else if cmd = ''downpkg'' then Some (\<lambda>h. gs_f6 S (uint (downpkgs h)) rseconds @ '' MB'')
      else if cmd = ''uppkg'' then Some (\<lambda>h. gs_f6 S (uint (uppkgs h)) rseconds @ '' MB'')
      else if cmd = ''qps'' then Some (\<lambda>h. gs_f6 S (uint (reqpkgs h)) rseconds @ '' MB'')
      else if cmd = ''tps'' then Some (\<lambda>h. gs_f6 S (uint (rsppkgs h)) rseconds @ '' MB'')
      else None)"

definition GateServer_OnCtrl ::
  "GateServerEnv \<Rightarrow> string list \<Rightarrow> 'd GateServerContext \<Rightarrow> GateParts \<Rightarrow> fault + string \<times> 'd GateServerContext \<times> GateParts" where
  "GateServer_OnCtrl S cmdLine c x =
     (case cmdLine of
        [] \<Rightarrow> Inl OutOfBounds
      | cmd # args \<Rightarrow>
          let s = tv_sec (runTime c); rseconds = (if s = 0 then 1 else s) in
          (case ctrl_text S cmd rseconds of
             None \<Rightarrow> Inr (cmd @ '':'' @ ''not supported !'', c, x)
           | Some t \<Rightarrow> with_handler (\<lambda>h. Inr (cmd @ '':'' @ take 127 (t h), h)) c x))"

fun tcp_Loop :: "GateEnv \<Rightarrow> gate_event list \<Rightarrow> Gate \<Rightarrow> fault + Gate" where
  "tcp_Loop E [] g = Inr g"
| "tcp_Loop E (ev # evs) g =
     (case gate_handle E ev g of None \<Rightarrow> Inl NoReturn | Some r \<Rightarrow> bindE r (tcp_Loop E evs))"

text \<open>A message from a channel goes through the proxy to the handler of the agents.\<close>

definition agent_message :: "GateEnv \<Rightarrow> unit ChannelMsgProxy \<Rightarrow> ChannelMessage \<Rightarrow> fault + Gate \<Rightarrow> fault + Gate" where
  "agent_message E pr msg st =
     bindE st (\<lambda>g. snd (Proxy_DispatchMessage
       (\<lambda>h a m st. bindE st (\<lambda>g. bindE (Agent_DispatchMessage E (pData m) g) (\<lambda>(r, g). Inr g))) pr (g_channels g) msg (Inr g)))"

unbundle bit_operations_syntax

definition GateServer_OnPoll ::
  "GateServerEnv \<Rightarrow> int \<Rightarrow> 'd GateServerContext \<Rightarrow> GateParts \<Rightarrow> fault + int \<times> 'd GateServerContext \<times> GateParts" where
  "GateServer_OnPoll S num c x =
     (case gs_input x of
        [] \<Rightarrow> Inr (0, c, x)
      | inp # rest \<Rightarrow>
          with_handler (\<lambda>g.
            let E = gate_env S c in
            bindE (tcp_Loop E (gi_tcp inp) g) (\<lambda>g.
              if channels c = [] then Inr (gi_tcp_ret inp, g)
              else
                bindE (Polling (gs_split S) (agent_message E (gs_proxy x)) (gi_poll_ret inp) (gi_eintr inp) (gi_arrived inp)
                    (g_channels g) (Inr g)) (\<lambda>(n, st).
                  bindE st (\<lambda>g. Inr (gi_tcp_ret inp OR n, g)))))
            c (x\<lparr>gs_input := rest\<rparr>))"

definition GateServer_OnClosing ::
  "GateServerEnv \<Rightarrow> int \<Rightarrow> 'd GateServerContext \<Rightarrow> GateParts \<Rightarrow> fault + int \<times> 'd GateServerContext \<times> GateParts" where
  "GateServer_OnClosing S reason c x = with_handler (OnClosing (gate_env S c) reason 200) c x"

section \<open>The application\<close>

definition gate_proxy_Init :: "GateServerEnv \<Rightarrow> 'd GateServerContext \<Rightarrow> GateParts \<Rightarrow> fault + int \<times> GateParts" where
  "gate_proxy_Init S c x =
     bindE (Proxy_Init (gs_alloc S) (gs_ctx_ok S) (gs_zmq S) (channelName c) (localChannelAddr c) (localChannelName c)
         (map cc_name (channels c)) (gs_channels x))
       (\<lambda>(r, m). Inr (r, x\<lparr>gs_channels := m\<rparr>))"

definition gate_timer_Init :: "GateServerEnv \<Rightarrow> int \<Rightarrow> GateParts \<Rightarrow> int \<times> timeval \<times> GateParts" where
  "gate_timer_Init S us x =
     (case TimerMgr_Init (gs_now1 S) (gs_now2 S) (gs_old_sa S) (gs_timer_ret S) us (Some ()) (gs_timers x) of
        (r, m) \<Rightarrow> (r, m_curTime m, x\<lparr>gs_timers := m\<rparr>))"

text \<open>The timer manager is the one that the handler uses, once there is a handler.\<close>

definition gate_Destroy :: "GateParts \<Rightarrow> GateParts" where
  "gate_Destroy x = x\<lparr>gs_timers := TimerMgr_Destroy (gs_timers x),
     ptrHandler := map_option (\<lambda>g. g\<lparr>g_timers := TimerMgr_Destroy (g_timers g)\<rparr>) (ptrHandler x)\<rparr>"

definition gate_methods :: "GateServerEnv \<Rightarrow> 'd ini \<Rightarrow> ('d GateServerContext, GateParts) AppMethods" where
  "gate_methods S I = \<lparr>vm_OnInit = GateServer_OnInit S I, vm_OnStart = GateServer_OnStart S,
     vm_OnCtrl = GateServer_OnCtrl S, vm_OnTick = (\<lambda>us c x. Inr (0, c, x)), vm_OnPoll = GateServer_OnPoll S,
     vm_OnClosing = GateServer_OnClosing S, vm_OnDestroy = (\<lambda>x. Inr (0, x)),
     ap_proxy_Init = gate_proxy_Init S, ap_timer_Init = gate_timer_Init S,
     ap_Destroy = gate_Destroy, ap_console = gs_console S,
     ap_recv_cap = gs_recv_cap S, ap_usappend = gs_usappend S, ap_time_text = gs_time_text S\<rparr>"

section \<open>Shutdown of the gate\<close>

lemma RemoveConnection_visit:
  assumes "i < length (m_vecConnections g)"
  obtains g' where "RemoveConnection E i reason g = Inr g'"
    "m_vecConnections g' = (m_vecConnections g)[i := (conn g i)\<lparr>cx_bState := STATE_INVALID, cx_iIdx := -1\<rparr>]"
    "m_dwLastClosingIdx g' = m_dwLastClosingIdx g"
proof (rule RemoveConnection_result [OF assms, of E reason])
  fix g'
  assume r: "RemoveConnection E i reason g = Inr g'"
    "m_vecConnections g' = (m_vecConnections g)[i := (conn g i)\<lparr>cx_bState := STATE_INVALID, cx_iIdx := -1\<rparr>]"
  have "m_dwLastClosingIdx g' = m_dwLastClosingIdx g"
    using r(1) by (auto simp: RemoveConnection_def ReportEvent_def Connection_Close_def upd_conn_def Let_def
        split: if_splits prod.splits)
  then show thesis using that r by blast
qed

text \<open>One visit: the slot under the index is closed, the index goes on by one.\<close>

lemma OnClosing_visit:
  assumes idx: "unat (m_dwLastClosingIdx g) < length (m_vecConnections g)" and len: "length (m_vecConnections g) < 2147483648"
  obtains g' where "OnClosing_loop E reason (Suc n) g = OnClosing_loop E reason n g'"
    "length (m_vecConnections g') = length (m_vecConnections g)"
    "unat (m_dwLastClosingIdx g') = Suc (unat (m_dwLastClosingIdx g))"
    "\<forall>j. j \<noteq> unat (m_dwLastClosingIdx g) \<longrightarrow> conn g' j = conn g j"
    "0 < unat (m_dwLastClosingIdx g) \<Longrightarrow> cx_bState (conn g' (unat (m_dwLastClosingIdx g))) = STATE_INVALID"
proof -
  define i where "i = unat (m_dwLastClosingIdx g)"
  have s: "sint (m_dwLastClosingIdx g) = int i"
    unfolding i_def by (rule sint_u32_small) (use idx len in simp)
  have suc: "unat (m_dwLastClosingIdx g + 1) = Suc i"
    unfolding i_def using idx len by (subst unat_word_ariths) simp
  note res = that [folded i_def] and idx = idx [folded i_def]
  show thesis
  proof (cases "GetConnectionByIdx (int i) g")
    case None
    then have "0 < i \<Longrightarrow> cx_bState (conn g i) = STATE_INVALID"
      using idx by (auto simp: GetConnectionByIdx_def split: if_splits)
    then show thesis using None idx suc s
      by (intro res [of "g\<lparr>m_dwLastClosingIdx := m_dwLastClosingIdx g + 1\<rparr>"]) (simp_all flip: i_def)
  next
    case (Some k)
    note L = GetConnectionByIdx_live [OF Some]
    have k: "k = i" using L(4) by simp
    obtain h where h: "RemoveConnection E i reason g = Inr h"
        "m_vecConnections h = (m_vecConnections g)[i := (conn g i)\<lparr>cx_bState := STATE_INVALID, cx_iIdx := -1\<rparr>]"
        "m_dwLastClosingIdx h = m_dwLastClosingIdx g"
      by (rule RemoveConnection_visit [OF idx])
    show thesis using h idx suc s Some
      by (intro res [of "h\<lparr>m_dwLastClosingIdx := m_dwLastClosingIdx h + 1\<rparr>"]) (simp_all add: k flip: i_def)
  qed
qed

lemma OnClosing_loop_visits:
  assumes "unat (m_dwLastClosingIdx g) \<le> length (m_vecConnections g)" "length (m_vecConnections g) < 2147483648"
  shows "\<exists>g'. OnClosing_loop E reason n g = Inr g' \<and> length (m_vecConnections g') = length (m_vecConnections g)
    \<and> unat (m_dwLastClosingIdx g') = min (unat (m_dwLastClosingIdx g) + n) (length (m_vecConnections g))
    \<and> (\<forall>j. j < unat (m_dwLastClosingIdx g) \<or> unat (m_dwLastClosingIdx g) + n \<le> j \<longrightarrow> conn g' j = conn g j)
    \<and> (\<forall>j>0. unat (m_dwLastClosingIdx g) \<le> j \<and> j < unat (m_dwLastClosingIdx g') \<longrightarrow> cx_bState (conn g' j) = STATE_INVALID)"
  using assms
proof (induction n arbitrary: g)
  case 0
  then show ?case by simp
next
  case (Suc n)
  define i where "i = unat (m_dwLastClosingIdx g)"
  define len where "len = length (m_vecConnections g)"
  show ?case
  proof (cases "i < len")
    case False
    then show ?thesis using Suc.prems by (simp add: i_def len_def min_def)
  next
    case True
    obtain h where h: "OnClosing_loop E reason (Suc n) g = OnClosing_loop E reason n h"
        "length (m_vecConnections h) = len" "unat (m_dwLastClosingIdx h) = Suc i"
        "\<forall>j. j \<noteq> i \<longrightarrow> conn h j = conn g j" "0 < i \<Longrightarrow> cx_bState (conn h i) = STATE_INVALID"
      using OnClosing_visit [of g E reason n thesis] True Suc.prems(2) unfolding i_def len_def by blast
    have "unat (m_dwLastClosingIdx h) \<le> length (m_vecConnections h)" "length (m_vecConnections h) < 2147483648"
      using h(2,3) True Suc.prems(2) by (simp_all add: len_def)
    from Suc.IH [OF this] obtain g' where g': "OnClosing_loop E reason n h = Inr g'" "length (m_vecConnections g') = len"
        "unat (m_dwLastClosingIdx g') = min (Suc i + n) len" "\<forall>j. j < Suc i \<or> Suc i + n \<le> j \<longrightarrow> conn g' j = conn h j"
        "\<forall>j>0. Suc i \<le> j \<and> j < min (Suc i + n) len \<longrightarrow> cx_bState (conn g' j) = STATE_INVALID"
      unfolding h(2,3) by (elim exE conjE) (metis (no_types, lifting))
    have "cx_bState (conn g' j) = STATE_INVALID" if "0 < j" "i \<le> j" "j < min (Suc i + n) len" for j
      using that g'(4,5) h(5) by (cases "j = i") auto
    then show ?thesis using g' h(1,4) unfolding i_def [symmetric] len_def [symmetric]
      by (intro exI [of _ g']) (auto simp: h(1))
  qed
qed

text \<open>The state in which the closing gate is called again.\<close>

definition gate_closing :: "'d GateServerContext \<Rightarrow> Gate \<Rightarrow> ('d GateServerContext, GateParts) App \<Rightarrow> bool" where
  "gate_closing c g app \<longleftrightarrow> m_pAppCtx app = Some c \<and> closing c \<noteq> 0 \<and> ptrHandler (parts app) = Some g
     \<and> unat (m_dwLastClosingIdx g) \<le> length (m_vecConnections g) \<and> length (m_vecConnections g) < 2147483648"

lemma gate_closing_round:
  assumes "gate_closing c g app"
  obtains g' where "gate_closing c g' (app\<lparr>parts := (parts app)\<lparr>ptrHandler := Some g'\<rparr>\<rparr>)"
    "length (m_vecConnections g') = length (m_vecConnections g)"
    "unat (m_dwLastClosingIdx g') = min (unat (m_dwLastClosingIdx g) + 200) (length (m_vecConnections g))"
    "\<forall>j\<ge>unat (m_dwLastClosingIdx g) + 200. conn g' j = conn g j"
    "\<forall>rs. main_loop (gate_methods S I) (r # rs) app
       = (if unat (m_dwLastClosingIdx g') < length (m_vecConnections g')
          then Inr (True, app\<lparr>parts := (parts app)\<lparr>ptrHandler := Some g'\<rparr>\<rparr>)
          else main_loop (gate_methods S I) rs (app\<lparr>parts := (parts app)\<lparr>ptrHandler := Some g'\<rparr>\<rparr>))"
proof -
  note c = assms [unfolded gate_closing_def]
  define h where "h = (if m_closing g = 0 then g\<lparr>m_closing := closing c\<rparr> else g)"
  have hf: "m_vecConnections h = m_vecConnections g" "m_dwLastClosingIdx h = m_dwLastClosingIdx g" by (simp_all add: h_def)
  obtain g' where g': "OnClosing_loop (gate_env S c) (closing c) 200 h = Inr g'"
      "length (m_vecConnections g') = length (m_vecConnections g)"
      "unat (m_dwLastClosingIdx g') = min (unat (m_dwLastClosingIdx g) + 200) (length (m_vecConnections g))"
      "\<forall>j. j < unat (m_dwLastClosingIdx g) \<or> unat (m_dwLastClosingIdx g) + 200 \<le> j \<longrightarrow> conn g' j = conn g j"
    using OnClosing_loop_visits [of h "gate_env S c" "closing c" 200] c unfolding hf by blast
  let ?r = "if unat (m_dwLastClosingIdx g') < length (m_vecConnections g') then 0 else 1 :: int"
  have o: "OnClosing (gate_env S c) (closing c) 200 g = Inr (?r, g')"
    using g'(1) by (simp add: OnClosing_def Let_def h_def del: if_split)
  have "Closing (gate_methods S I) (closing c) app = Inr (?r, app\<lparr>parts := (parts app)\<lparr>ptrHandler := Some g'\<rparr>\<rparr>)"
    using c o by (cases app) (simp add: Closing_def call_method_def gate_methods_def GateServer_OnClosing_def with_handler_def)
  then have "main_loop (gate_methods S I) (r # rs) app
       = (if unat (m_dwLastClosingIdx g') < length (m_vecConnections g')
          then Inr (True, app\<lparr>parts := (parts app)\<lparr>ptrHandler := Some g'\<rparr>\<rparr>)
          else main_loop (gate_methods S I) rs (app\<lparr>parts := (parts app)\<lparr>ptrHandler := Some g'\<rparr>\<rparr>))" for rs
    using c main_loop_closing [of app c "gate_methods S I" r rs] by simp
  then show thesis using that [of g'] g' c by (simp add: gate_closing_def)
qed

lemma gate_never_ends:
  assumes "gate_closing c g app" "length (m_vecConnections g) \<le> unat (m_dwLastClosingIdx g) + 200"
  shows "\<exists>app'. main_loop (gate_methods S I) rounds app = Inr (False, app')"
  using assms
proof (induction rounds arbitrary: app g)
  case Nil
  then show ?case by simp
next
  case (Cons r rs)
  obtain g' where g': "gate_closing c g' (app\<lparr>parts := (parts app)\<lparr>ptrHandler := Some g'\<rparr>\<rparr>)"
    "length (m_vecConnections g') = length (m_vecConnections g)"
    "unat (m_dwLastClosingIdx g') = min (unat (m_dwLastClosingIdx g) + 200) (length (m_vecConnections g))"
    "\<forall>j\<ge>unat (m_dwLastClosingIdx g) + 200. conn g' j = conn g j"
    "\<forall>rs. main_loop (gate_methods S I) (r # rs) app
       = (if unat (m_dwLastClosingIdx g') < length (m_vecConnections g')
          then Inr (True, app\<lparr>parts := (parts app)\<lparr>ptrHandler := Some g'\<rparr>\<rparr>)
          else main_loop (gate_methods S I) rs (app\<lparr>parts := (parts app)\<lparr>ptrHandler := Some g'\<rparr>\<rparr>))"
    by (rule gate_closing_round [OF Cons.prems(1), where S = S and I = I and r = r])
  have e: "unat (m_dwLastClosingIdx g') = length (m_vecConnections g')" using g'(2,3) Cons.prems(2) by simp
  then have "main_loop (gate_methods S I) (r # rs) app = main_loop (gate_methods S I) rs (app\<lparr>parts := (parts app)\<lparr>ptrHandler := Some g'\<rparr>\<rparr>)"
    using g'(5) by simp
  then show ?case using Cons.IH [OF g'(1)] e by simp
qed

text \<open>
  C11.  The answer of \<open>GateServerHandler::OnClosing\<close> is the opposite of what \<open>App::main\<close> expects.  A gate with more than
  200 slots leaves the main loop in the first round after a shutdown, with every connection from slot
  200 on still open; a gate with at most 200 slots closes them all and then never leaves the loop.
\<close>

theorem gate_shutdown_inverted:
  assumes cl: "gate_closing c g app" and fresh: "m_dwLastClosingIdx g = 0"
  shows "if 200 < length (m_vecConnections g)
    then \<exists>g'. main_loop (gate_methods S I) (r # rs) app = Inr (True, app\<lparr>parts := (parts app)\<lparr>ptrHandler := Some g'\<rparr>\<rparr>)
      \<and> (\<forall>j\<ge>200. conn g' j = conn g j)
    else \<forall>rounds. \<exists>app'. main_loop (gate_methods S I) rounds app = Inr (False, app')"
proof (cases "200 < length (m_vecConnections g)")
  case True
  obtain g' where g': "length (m_vecConnections g') = length (m_vecConnections g)"
    "unat (m_dwLastClosingIdx g') = min (unat (m_dwLastClosingIdx g) + 200) (length (m_vecConnections g))"
    "\<forall>j\<ge>unat (m_dwLastClosingIdx g) + 200. conn g' j = conn g j"
    "\<forall>rs. main_loop (gate_methods S I) (r # rs) app
       = (if unat (m_dwLastClosingIdx g') < length (m_vecConnections g')
          then Inr (True, app\<lparr>parts := (parts app)\<lparr>ptrHandler := Some g'\<rparr>\<rparr>)
          else main_loop (gate_methods S I) rs (app\<lparr>parts := (parts app)\<lparr>ptrHandler := Some g'\<rparr>\<rparr>))"
    by (rule gate_closing_round [OF cl, where S = S and I = I and r = r])
  have "unat (m_dwLastClosingIdx g') < length (m_vecConnections g')" using g'(1,2) True fresh by simp
  then have "main_loop (gate_methods S I) (r # rs) app = Inr (True, app\<lparr>parts := (parts app)\<lparr>ptrHandler := Some g'\<rparr>\<rparr>)"
    using g'(4) by simp
  then show ?thesis using True g'(3) fresh by auto
next
  case False
  then show ?thesis using gate_never_ends [OF cl] fresh by simp
qed

definition closing_app :: "int \<Rightarrow> ((string \<times> string) list GateServerContext, GateParts) App" where
  "closing_app slots = \<lparr>m_pAppCtx = Some (two_agents\<lparr>closing := 2\<rparr>), m_lockFile = None,
     parts = \<lparr>ptrHandler = Some (Gate_new env5 conn0 slots TimerMgr_new one_channel), gs_proxy = ChannelMsgProxy_new,
       gs_channels = one_channel, gs_timers = TimerMgr_new, gs_input = []\<rparr>\<rparr>"

theorem gate_shutdown_inverted_witness:
  "(\<forall>S rounds. \<exists>app'. main_loop (gate_methods S demo_ini) rounds (closing_app 50) = Inr (False, app'))
   \<and> (\<forall>S. \<exists>app'. main_loop (gate_methods S demo_ini) [\<lparr>rd_signals = [], rd_datagrams = []\<rparr>] (closing_app 300) = Inr (True, app'))"
proof -
  let ?c = "two_agents\<lparr>closing := 2\<rparr>" and ?g = "\<lambda>n. Gate_new env5 conn0 n TimerMgr_new one_channel"
  have "gate_closing ?c (?g 50) (closing_app 50)" "gate_closing ?c (?g 300) (closing_app 300)"
    by (simp_all add: gate_closing_def closing_app_def Gate_new_def)
  then show ?thesis
    using gate_shutdown_inverted [of ?c "?g 50" "closing_app 50"]
      gate_shutdown_inverted [of ?c "?g 300" "closing_app 300" _ demo_ini "\<lparr>rd_signals = [], rd_datagrams = []\<rparr>" "[]"]
    by (fastforce simp: Gate_new_def)
qed

section \<open>From the configuration to the channels\<close>

lemma SubscribeScatterMsg_distinct:
  assumes "distinct chs" "\<forall>i\<in>set chs. m_mpHandlerMap pr i = None"
  shows "\<exists>pr'. SubscribeScatterMsg chs h pr = Inr pr' \<and> m_vecHandlers pr' = m_vecHandlers pr
    \<and> (\<forall>i. m_mpHandlerMap pr' i = (if i \<in> set chs then Some h else m_mpHandlerMap pr i))"
  using assms
proof (induction chs arbitrary: pr)
  case (Cons a chs)
  let ?pr = "pr\<lparr>m_mpHandlerMap := (m_mpHandlerMap pr)(a \<mapsto> h)\<rparr>"
  have "\<forall>i\<in>set chs. m_mpHandlerMap ?pr i = None" using Cons.prems by auto
  from Cons.IH [OF _ this] Cons.prems obtain pr' where "SubscribeScatterMsg chs h ?pr = Inr pr'"
      "m_vecHandlers pr' = m_vecHandlers pr" "\<forall>i. m_mpHandlerMap pr' i = (if i \<in> set chs then Some h else m_mpHandlerMap ?pr i)"
    by auto
  then show ?case using Cons.prems by (intro exI [of _ pr']) (simp add: SubscribeSingleMsg_def)
qed simp


definition demo_server_env :: GateServerEnv where
  "demo_server_env = \<lparr>gs_env = env5, tcp_Init = (\<lambda>_ _ _ _. 0), tcp_Start = 0, gs_junk = conn0, gs_alloc = True,
     gs_ctx_ok = True, gs_zmq = (\<lambda>_. (True, 0)), gs_split = (\<lambda>_ _. []), gs_now1 = \<lparr>tv_sec = 0, tv_usec = 0\<rparr>,
     gs_now2 = \<lparr>tv_sec = 0, tv_usec = 0\<rparr>, gs_old_sa = Some False, gs_timer_ret = 0, gs_f6 = (\<lambda>_ _. ''0''),
     gs_console = (\<lambda>_ _. True), gs_recv_cap = 1024, gs_usappend = (\<lambda>t _. t), gs_time_text = (\<lambda>_. [])\<rparr>"


section \<open>The application at work\<close>

definition running_app :: "((string \<times> string) list GateServerContext, GateParts) App" where
  "running_app = (closing_app 3)\<lparr>m_pAppCtx := Some two_agents\<rparr>"

lemma gate_ctrl_answers:
  assumes "ptrHandler x = Some g" "ws \<noteq> []"
  shows "\<exists>r. GateServer_OnCtrl S ws c x = Inr r"
  using assms by (cases ws) (auto simp: GateServer_OnCtrl_def Let_def with_handler_def split: option.split)

theorem blank_datagram_faults_witness:
  "App_OnDataRecv (gate_methods demo_server_env demo_ini) ''  '' running_app = Inl OutOfBounds
   \<and> (\<exists>rsp app'. App_OnDataRecv (gate_methods demo_server_env demo_ini) '' rtime'' running_app = Inr (rsp, app'))"
proof -
  let ?M = "gate_methods demo_server_env demo_ini"
  have c: "m_pAppCtx running_app = Some two_agents" by (simp add: running_app_def)
  have k: "\<forall>ws. ws \<noteq> [] \<longrightarrow> (\<exists>r. vm_OnCtrl ?M ws two_agents (parts running_app) = Inr r)"
  proof (intro allI impI)
    fix ws :: "string list" assume "ws \<noteq> []"
    moreover have "ptrHandler (parts running_app) = Some (Gate_new env5 conn0 3 TimerMgr_new one_channel)"
      by (simp add: running_app_def closing_app_def)
    ultimately have "\<exists>r. GateServer_OnCtrl demo_server_env ws two_agents (parts running_app) = Inr r"
      using gate_ctrl_answers by blast
    then show "\<exists>r. vm_OnCtrl ?M ws two_agents (parts running_app) = Inr r" by (simp add: gate_methods_def)
  qed
  have l: "length ''  '' < ap_recv_cap ?M" "length '' rtime'' < ap_recv_cap ?M"
    by (simp_all add: gate_methods_def demo_server_env_def)
  show ?thesis using blank_datagram_faults [OF c l(1) k] blank_datagram_faults [OF c l(2) k] by simp
qed

theorem signal_ends_loop_witness:
  "\<exists>app'. main_loop (gate_methods demo_server_env demo_ini) [\<lparr>rd_signals = [SIGUSR2, SIGUSR1], rd_datagrams = []\<rparr>] running_app
     = Inr (False, app') \<and> map_option closing (m_pAppCtx app') = Some APP_CTRL_CLOSING_STOP"
proof -
  let ?M = "gate_methods demo_server_env demo_ini" and ?c = "two_agents\<lparr>closing := APP_CTRL_CLOSING_STOP\<rparr>"
  let ?g = "Gate_new env5 conn0 3 TimerMgr_new one_channel"
  have "gate_closing ?c ?g (running_app\<lparr>m_pAppCtx := Some ?c\<rparr>)"
    by (simp add: gate_closing_def running_app_def closing_app_def Gate_new_def closing_reasons)
  then have "\<exists>g. OnClosing (gate_env demo_server_env ?c) APP_CTRL_CLOSING_STOP 200 ?g = Inr (1, g)"
    using OnClosing_loop_visits [of "?g\<lparr>m_closing := APP_CTRL_CLOSING_STOP\<rparr>" "gate_env demo_server_env ?c" APP_CTRL_CLOSING_STOP 200]
    by (auto simp: OnClosing_def Gate_new_def)
  then obtain g where "OnClosing (gate_env demo_server_env ?c) APP_CTRL_CLOSING_STOP 200 ?g = Inr (1, g)" by blast
  then have "vm_OnClosing ?M APP_CTRL_CLOSING_STOP ?c (parts running_app) = Inr (1, ?c, (parts running_app)\<lparr>ptrHandler := Some g\<rparr>)"
    by (simp add: gate_methods_def GateServer_OnClosing_def with_handler_def running_app_def closing_app_def)
  then show ?thesis
    using signal_ends_loop [of running_app two_agents APP_CTRL_CLOSING_STOP "\<lparr>rd_signals = [SIGUSR2, SIGUSR1], rd_datagrams = []\<rparr>" ?M 1 _ _ "[]"]
    by (simp add: running_app_def two_agents_def closing_reasons SIGUSR1_def SIGUSR2_def)
qed

theorem lock_file_finds_process_witness:
  "let le = (\<lambda>pid. \<lparr>le_open = (\<lambda>_ _. True), le_getline = c_str, le_pid = pid\<rparr>);
       c = two_agents\<lparr>uniq_process := 1, lockFilePath := ''gate.lock''\<rparr>;
       fs = fst (snd (snd (InitLockFile (le 4711) False c Map.empty))) in
   InitLockFile (le 4712) True c fs = (-1, Some ''gate.lock'', fs, [(SIGUSR2, 4711)])"
proof -
  define le :: "int \<Rightarrow> lock_env" where "le = (\<lambda>pid. \<lparr>le_open = (\<lambda>_ _. True), le_getline = c_str, le_pid = pid\<rparr>)"
  define c where "c = two_agents\<lparr>uniq_process := 1, lockFilePath := ''gate.lock''\<rparr>"
  have i: "InitLockFile (le 4711) False c Map.empty
      = (0, Some ''gate.lock'', fst (snd (snd (InitLockFile (le 4711) False c Map.empty))), [])"
    by (simp add: InitLockFile_def le_def c_def Let_def touch_def)
  have g: "\<forall>s t. CHR 0x00 \<notin> set s \<and> CHR 0x0A \<notin> set s \<and> length s < 63 \<longrightarrow> le_getline (le 4712) (s @ CHR 0x00 # t) = s"
    by (simp add: le_def)
  show ?thesis
    using lock_file_finds_process [OF i _ _ _ _ refl _ g] unfolding Let_def le_def [symmetric] c_def [symmetric]
    by (simp add: le_def c_def)
qed

end
