(* ===== verification/ShareMemory.thy ===== *)
theory ShareMemory
  imports Prelude
begin

text \<open>
  The shared memory centre (\<open>datacenter/ShareMemoryCenter.h/.cpp\<close>).  Modules register a name and
  a size; \<open>Init\<close> lays their regions out behind a header in one segment, or finds the regions of
  an earlier process in a segment that is still there, and shows every module its region.

  The segment is split into the header structure and the bytes behind it; an offset of the
  source counts from the start of the header, so the byte at offset \<open>o\<close> is number
  \<open>o - fmt_size\<close>.  A write that would leave these bytes is the fault \<open>OutOfBounds\<close>.  The system
  calls behind \<open>ipc/ShareMemory.h\<close>, the copy macro \<open>STRNCPY\<close> and the notifiers are parameters.
  Creating the key file is left out.
\<close>

section \<open>Data\<close>

definition RECOVERYSHM_MAX_MOUDLES :: nat where
  "RECOVERYSHM_MAX_MOUDLES = 256"

definition SHM_MAGIC :: string where
  "SHM_MAGIC = ''RSHM''"

record ShareMemoryModule =
  szName :: string
  chInited :: u8
  dataOffset :: u64
  zSize :: u64

record ShareMemoryCenterDataFmt =
  magic :: string
  dataLength :: u64
  fmt_dataOffset :: u32
  modulesCount :: u16
  modules :: "ShareMemoryModule list"

text \<open>\<open>sizeof(ShareMemoryCenterDataFmt)\<close>, packed: magic, reserve, length, offset, count, entries.\<close>

definition fmt_size :: nat where
  "fmt_size = 4 + 16 + 8 + 4 + 2 + RECOVERYSHM_MAX_MOUDLES * (32 + 1 + 8 + 8)"

lemma fmt_size_value [simp]: "fmt_size = 12578"
  by (simp add: fmt_size_def RECOVERYSHM_MAX_MOUDLES_def)

record segment =
  seg_fmt :: ShareMemoryCenterDataFmt
  seg_bytes :: "byte list"

text \<open>
  A notifier is called with its region, the size and the flag \<open>chInited\<close>; it returns a status and
  what it leaves in the region.
\<close>

record ShareMemoryModuleReg =
  reg_name :: string
  reg_zSize :: u64
  reg_notifier :: "(byte list \<Rightarrow> u64 \<Rightarrow> u8 \<Rightarrow> int \<times> byte list) option"

record ShareMemoryCenter =
  m_vecModules :: "ShareMemoryModuleReg list"
  m_pFmtBase :: "segment option"
  m_zTotalSize :: u64

text \<open>
  The environment: \<open>Attach\<close> answers 0 and an existing segment, 1 when there is none, another
  code on an error; \<open>Create\<close> answers 0 and a new segment; \<open>STRNCPY\<close> says which C string ends up
  in a buffer of a given size.
\<close>

record shm_env =
  shm_Attach :: "u64 \<Rightarrow> int \<times> segment option"
  shm_Create :: "u64 \<Rightarrow> int \<times> segment option"
  shm_GetAttachNum :: int
  STRNCPY :: "nat \<Rightarrow> string \<Rightarrow> string"

definition ShareMemoryCenter_new :: ShareMemoryCenter where
  "ShareMemoryCenter_new = \<lparr>m_vecModules = [], m_pFmtBase = None, m_zTotalSize = 0\<rparr>"

section \<open>Operations\<close>

definition FindReg :: "string \<Rightarrow> ShareMemoryCenter \<Rightarrow> ShareMemoryModuleReg option" where
  "FindReg name c = find (\<lambda>r. reg_name r = name) (m_vecModules c)"

definition Register :: "ShareMemoryModuleReg \<Rightarrow> ShareMemoryCenter \<Rightarrow> int \<times> ShareMemoryCenter" where
  "Register reg c =
     (if FindReg (reg_name reg) c \<noteq> None then (-1, c)
      else (0, c\<lparr>m_vecModules := m_vecModules c @ [reg],
                 m_zTotalSize := m_zTotalSize c + reg_zSize reg\<rparr>))"

text \<open>The entries in use.  The search runs past the array when the count is corrupted.\<close>

definition used_modules :: "segment \<Rightarrow> ShareMemoryModule list" where
  "used_modules s = take (unat (modulesCount (seg_fmt s))) (modules (seg_fmt s))"

definition FindModule :: "string \<Rightarrow> segment \<Rightarrow> fault + ShareMemoryModule option" where
  "FindModule name s =
     (case find (\<lambda>m. szName m = name) (used_modules s) of
        Some m \<Rightarrow> Inr (Some m)
      | None \<Rightarrow> if length (modules (seg_fmt s)) < unat (modulesCount (seg_fmt s)) then Inl OutOfBounds
                else Inr None)"

text \<open>Reading and writing the bytes behind the header.\<close>

definition region_ok :: "u64 \<Rightarrow> u64 \<Rightarrow> segment \<Rightarrow> bool" where
  "region_ok off z s \<longleftrightarrow>
     fmt_size \<le> unat off \<and> unat off + unat z \<le> fmt_size + length (seg_bytes s)"

definition region :: "u64 \<Rightarrow> u64 \<Rightarrow> segment \<Rightarrow> byte list" where
  "region off z s = take (unat z) (drop (unat off - fmt_size) (seg_bytes s))"

definition write_region :: "u64 \<Rightarrow> u64 \<Rightarrow> byte list \<Rightarrow> segment \<Rightarrow> segment" where
  "write_region off z bs s =
     s\<lparr>seg_bytes := take (unat off - fmt_size) (seg_bytes s) @ take (unat z) bs
         @ drop (unat off - fmt_size + length (take (unat z) bs)) (seg_bytes s)\<rparr>"

definition bzero_region :: "u64 \<Rightarrow> u64 \<Rightarrow> segment \<Rightarrow> fault + segment" where
  "bzero_region off z s =
     (if z = 0 then Inr s
      else if region_ok off z s then Inr (write_region off z (replicate (unat z) 0) s)
      else Inl OutOfBounds)"

text \<open>A new entry at the end of the table; the check of the count keeps it inside the array.\<close>

definition AddModule :: "shm_env \<Rightarrow> string \<Rightarrow> ShareMemoryCenter \<Rightarrow> fault + int \<times> ShareMemoryCenter" where
  "AddModule e name c =
     (case m_pFmtBase c of
        None \<Rightarrow> Inl NullDeref
      | Some s \<Rightarrow>
          (case FindReg name c of
             None \<Rightarrow> Inr (-1, c)
           | Some reg \<Rightarrow>
               let f = seg_fmt s; n = unat (modulesCount f) in
               if m_zTotalSize c < reg_zSize reg + dataLength f then Inr (-1, c)
               else if RECOVERYSHM_MAX_MOUDLES \<le> n then Inr (-1, c)
               else
                 bindE (bzero_region (dataLength f) (reg_zSize reg) s) (\<lambda>s'.
                   let md = (modules f ! n)\<lparr>dataOffset := dataLength f, zSize := reg_zSize reg,
                                           szName := STRNCPY e 32 (c_str (reg_name reg))\<rparr> in
                   Inr (0, c\<lparr>m_pFmtBase := Some (s'\<lparr>seg_fmt :=
                        f\<lparr>modules := (modules f)[n := md],
                          dataLength := dataLength f + reg_zSize reg,
                          modulesCount := modulesCount f + 1\<rparr>\<rparr>)\<rparr>))))"

text \<open>The loop over the registrations; the status of \<open>AddModule\<close> is not looked at.\<close>

fun AppendRegModules_loop ::
  "shm_env \<Rightarrow> ShareMemoryModuleReg list \<Rightarrow> ShareMemoryCenter \<Rightarrow> fault + ShareMemoryCenter" where
  "AppendRegModules_loop e [] c = Inr c"
| "AppendRegModules_loop e (r # rs) c =
     (case m_pFmtBase c of
        None \<Rightarrow> Inl NullDeref
      | Some s \<Rightarrow>
          bindE (FindModule (c_str (reg_name r)) s) (\<lambda>found.
            case found of
              Some _ \<Rightarrow> AppendRegModules_loop e rs c
            | None \<Rightarrow> bindE (AddModule e (c_str (reg_name r)) c) (\<lambda>(_, c').
                        AppendRegModules_loop e rs c')))"

definition AppendRegModules :: "shm_env \<Rightarrow> ShareMemoryCenter \<Rightarrow> fault + ShareMemoryCenter" where
  "AppendRegModules e c = AppendRegModules_loop e (m_vecModules c) c"

definition zero_module :: ShareMemoryModule where
  "zero_module = \<lparr>szName = [], chInited = 0, dataOffset = 0, zSize = 0\<rparr>"

text \<open>\<open>bzero(m_pFmtBase,m_zTotalSize)\<close> and the fresh header.\<close>

definition InitRegModules :: "shm_env \<Rightarrow> ShareMemoryCenter \<Rightarrow> fault + ShareMemoryCenter" where
  "InitRegModules e c =
     (case m_pFmtBase c of
        None \<Rightarrow> Inl NullDeref
      | Some s \<Rightarrow>
          if unat (m_zTotalSize c) < fmt_size \<or> fmt_size + length (seg_bytes s) < unat (m_zTotalSize c)
          then Inl OutOfBounds
          else
            let n = unat (m_zTotalSize c) - fmt_size in
            AppendRegModules e (c\<lparr>m_pFmtBase := Some \<lparr>
              seg_fmt = \<lparr>magic = SHM_MAGIC, dataLength = of_nat fmt_size, fmt_dataOffset = of_nat fmt_size,
                         modulesCount = 0,
                         modules = replicate RECOVERYSHM_MAX_MOUDLES zero_module\<rparr>,
              seg_bytes = replicate n 0 @ drop n (seg_bytes s)\<rparr>\<rparr>))"

definition GetOldShmSize :: "segment \<Rightarrow> u64" where
  "GetOldShmSize s = dataLength (seg_fmt s)"

definition Check :: "shm_env \<Rightarrow> bool \<Rightarrow> segment \<Rightarrow> int" where
  "Check e bExludeProcess s =
     (if bExludeProcess \<and> (shm_GetAttachNum e \<le> 0 \<or> shm_GetAttachNum e < 1) then -1
      else if take 4 (magic (seg_fmt s)) = SHM_MAGIC then 0 else 1)"

definition set_inited :: "nat \<Rightarrow> segment \<Rightarrow> segment" where
  "set_inited i s =
     (let f = seg_fmt s in
      s\<lparr>seg_fmt := f\<lparr>modules := (modules f)[i := (modules f ! i)\<lparr>chInited := 1\<rparr>]\<rparr>\<rparr>)"

text \<open>One module of \<open>AttachAllModules\<close>: its registration is looked up and its notifier called.\<close>

definition attach_module :: "nat \<Rightarrow> ShareMemoryCenter \<Rightarrow> segment \<Rightarrow> fault + int \<times> segment" where
  "attach_module i c s =
     (if length (modules (seg_fmt s)) \<le> i then Inl OutOfBounds
      else
        let md = modules (seg_fmt s) ! i in
        (case FindReg (szName md) c of
           None \<Rightarrow> Inr (-1, s)
         | Some reg \<Rightarrow>
             (case reg_notifier reg of
                None \<Rightarrow> Inr (0, set_inited i s)
              | Some OnAttach \<Rightarrow>
                  if \<not> region_ok (dataOffset md) (zSize md) s then Inl OutOfBounds
                  else
                    let (r, bs) = OnAttach (region (dataOffset md) (zSize md) s) (zSize md) (chInited md);
                        s' = write_region (dataOffset md) (zSize md) bs s in
                    if r \<noteq> 0 then Inr (-1, s') else Inr (0, set_inited i s'))))"

text \<open>The loop runs from \<open>i\<close> for \<open>k\<close> more modules.\<close>

fun AttachAllModules_loop :: "nat \<Rightarrow> nat \<Rightarrow> ShareMemoryCenter \<Rightarrow> segment \<Rightarrow> fault + int \<times> segment" where
  "AttachAllModules_loop i 0 c s = Inr (0, s)"
| "AttachAllModules_loop i (Suc k) c s =
     bindE (attach_module i c s) (\<lambda>(r, s').
       if r \<noteq> 0 then Inr (-1, s') else AttachAllModules_loop (Suc i) k c s')"

definition AttachAllModules :: "ShareMemoryCenter \<Rightarrow> fault + int \<times> ShareMemoryCenter" where
  "AttachAllModules c =
     (case m_pFmtBase c of
        None \<Rightarrow> Inl NullDeref
      | Some s \<Rightarrow>
          bindE (AttachAllModules_loop 0 (unat (modulesCount (seg_fmt s))) c s) (\<lambda>(r, s').
            Inr (r, c\<lparr>m_pFmtBase := Some s'\<rparr>)))"

text \<open>\<open>Init\<close>: attach or create the segment, complete its table, show the regions.\<close>

definition ShareMemoryCenter_Init :: "shm_env \<Rightarrow> ShareMemoryCenter \<Rightarrow> fault + int \<times> ShareMemoryCenter" where
  "ShareMemoryCenter_Init e c =
     (let c1 = c\<lparr>m_zTotalSize := m_zTotalSize c + of_nat fmt_size\<rparr>;
          (ret, seg) = shm_Attach e (m_zTotalSize c1);
          c2 = c1\<lparr>m_pFmtBase := seg\<rparr> in
      if ret \<noteq> 0 then
        if ret = 1 then
          let (cret, cseg) = shm_Create e (m_zTotalSize c1) in
          if cret \<noteq> 0 then Inr (-1, c2)
          else bindE (InitRegModules e (c2\<lparr>m_pFmtBase := cseg\<rparr>)) AttachAllModules
        else Inr (-1, c2)
      else
        (case seg of
           None \<Rightarrow> Inl NullDeref
         | Some s \<Rightarrow>
             if Check e True s \<noteq> 0 then Inr (-1, c2)
             else if GetOldShmSize s \<noteq> m_zTotalSize c2 then
               if GetOldShmSize s < m_zTotalSize c2
                  \<and> unat (modulesCount (seg_fmt s)) < length (m_vecModules c2)
               then bindE (AppendRegModules e c2) AttachAllModules
               else Inl AssertFail
             else AttachAllModules c2))"

text \<open>The buffer handed out for a module: its offset and its size; empty for an unknown name.\<close>

definition GetModleBuffer :: "string \<Rightarrow> ShareMemoryCenter \<Rightarrow> fault + (u64 \<times> u64) option" where
  "GetModleBuffer name c =
     (case m_pFmtBase c of
        None \<Rightarrow> Inl NullDeref
      | Some s \<Rightarrow> bindE (FindModule (c_str name) s) (\<lambda>found.
          Inr (map_option (\<lambda>md. (dataOffset md, zSize md)) found)))"


section \<open>The layout of the table\<close>

text \<open>The regions follow each other without a gap, from the end of the header to \<open>dataLength\<close>.\<close>

fun chain :: "nat \<Rightarrow> ShareMemoryModule list \<Rightarrow> nat \<Rightarrow> bool" where
  "chain a [] b \<longleftrightarrow> a = b"
| "chain a (md # ms) b \<longleftrightarrow> unat (dataOffset md) = a \<and> chain (a + unat (zSize md)) ms b"

definition seg_ok :: "segment \<Rightarrow> bool" where
  "seg_ok s \<longleftrightarrow>
     length (modules (seg_fmt s)) = 256 \<and> unat (modulesCount (seg_fmt s)) \<le> 256
     \<and> chain fmt_size (used_modules s) (unat (dataLength (seg_fmt s)))
     \<and> unat (dataLength (seg_fmt s)) \<le> fmt_size + length (seg_bytes s)
     \<and> distinct (map szName (used_modules s))"

lemma chain_append: "chain a (xs @ ys) b \<longleftrightarrow> (\<exists>m. chain a xs m \<and> chain m ys b)"
  by (induction xs arbitrary: a) auto

lemma chain_le: "chain a ms b \<Longrightarrow> a \<le> b"
  by (induction ms arbitrary: a) (auto dest: add_leD1)

lemma chain_nth:
  "chain a ms b \<Longrightarrow> i < length ms \<Longrightarrow>
    a \<le> unat (dataOffset (ms ! i)) \<and> unat (dataOffset (ms ! i)) + unat (zSize (ms ! i)) \<le> b"
proof (induction ms arbitrary: a i)
  case Nil
  then show ?case by simp
next
  case (Cons md ms)
  show ?case
  proof (cases i)
    case 0
    then show ?thesis using Cons.prems chain_le by auto
  next
    case (Suc k)
    then show ?thesis using Cons.IH [of "a + unat (zSize md)" k] Cons.prems by auto
  qed
qed

lemma chain_disjoint:
  "chain a ms b \<Longrightarrow> i < j \<Longrightarrow> j < length ms \<Longrightarrow>
    unat (dataOffset (ms ! i)) + unat (zSize (ms ! i)) \<le> unat (dataOffset (ms ! j))"
proof (induction ms arbitrary: a i j)
  case Nil
  then show ?case by simp
next
  case (Cons md ms)
  obtain k where k: "j = Suc k" using Cons.prems(2) by (cases j) auto
  show ?case
  proof (cases i)
    case 0
    then show ?thesis using chain_nth [of "a + unat (zSize md)" ms b k] Cons.prems k by auto
  next
    case (Suc l)
    then show ?thesis using Cons.IH [of "a + unat (zSize md)" l k] Cons.prems k by auto
  qed
qed

text \<open>Two tables that agree on names, offsets and sizes have the same layout.\<close>

abbreviation entry_key :: "ShareMemoryModule \<Rightarrow> string \<times> u64 \<times> u64" where
  "entry_key md \<equiv> (szName md, dataOffset md, zSize md)"

lemma chain_cong: "map entry_key xs = map entry_key ys \<Longrightarrow> chain a xs b \<longleftrightarrow> chain a ys b"
proof (induction xs arbitrary: ys a)
  case Nil
  then show ?case by simp
next
  case (Cons x xs)
  obtain y ys' where ys: "ys = y # ys'" using Cons.prems by (cases ys) simp_all
  have "dataOffset x = dataOffset y" "zSize x = zSize y" "map entry_key xs = map entry_key ys'"
    using Cons.prems by (simp_all add: ys)
  then show ?case using Cons.IH [of ys' "a + unat (zSize y)"] by (simp add: ys)
qed

lemma names_cong: "map entry_key xs = map entry_key ys \<Longrightarrow> map szName xs = map szName ys"
proof -
  assume "map entry_key xs = map entry_key ys"
  then have "map fst (map entry_key xs) = map fst (map entry_key ys)" by simp
  then show ?thesis by (simp add: comp_def)
qed

lemma unat_u64_add: "unat (a :: u64) + unat b < 18446744073709551616 \<Longrightarrow> unat (a + b) = unat a + unat b"
  by (simp add: unat_add_lem [THEN iffD1])

lemma unat_u64_less: "unat (x :: u64) < 18446744073709551616"
  using unsigned_less [of x] by simp

lemma unat_u16_suc: "unat (x :: u16) \<le> 256 \<Longrightarrow> unat (x + 1) = Suc (unat x)"
proof -
  assume "unat x \<le> 256"
  then have "unat x + unat (1 :: u16) < 2 ^ LENGTH(16)" by simp
  then have "unat (x + 1) = unat x + unat (1 :: u16)" by (rule unat_add_lem [THEN iffD1])
  then show ?thesis by simp
qed

section \<open>Writing into one region\<close>

lemma length_write_region [simp]:
  assumes "region_ok off z s"
  shows "length (seg_bytes (write_region off z bs s)) = length (seg_bytes s)"
  using assms by (auto simp: write_region_def region_ok_def)

lemma write_region_fmt [simp]: "seg_fmt (write_region off z bs s) = seg_fmt s"
  by (simp add: write_region_def)

lemma seg_bytes_write_region:
  "seg_bytes (write_region off z bs s) =
     take (unat off - fmt_size) (seg_bytes s) @ take (unat z) bs
       @ drop (unat off - fmt_size + length (take (unat z) bs)) (seg_bytes s)"
  by (simp add: write_region_def)

text \<open>A region in front of the written one, or behind it, is untouched.\<close>

lemma take_drop_front:
  "k + n \<le> a \<Longrightarrow> a \<le> length xs \<Longrightarrow> take n (drop k (take a xs @ ys)) = take n (drop k xs)"
  by (auto simp: drop_take min_def)

lemma region_write_before:
  assumes "region_ok off z s" "fmt_size \<le> unat o2" "unat o2 + unat z2 \<le> unat off"
  shows "region o2 z2 (write_region off z bs s) = region o2 z2 s"
proof -
  have "unat o2 - fmt_size + unat z2 \<le> unat off - fmt_size"
    and "unat off - fmt_size \<le> length (seg_bytes s)"
    using assms by (auto simp: region_ok_def)
  then show ?thesis by (simp only: region_def seg_bytes_write_region take_drop_front)
qed

lemma drop_splice:
  assumes "a \<le> length xs" "a + length ms \<le> b"
  shows "drop b (take a xs @ ms @ drop (a + length ms) xs) = drop b xs"
proof -
  obtain k where k: "b = a + length ms + k" using assms(2) by (metis le_Suc_ex)
  show ?thesis using assms(1) by (simp add: k add.commute)
qed

lemma region_write_behind:
  assumes "region_ok off z s" "unat off + unat z \<le> unat o2"
  shows "region o2 z2 (write_region off z bs s) = region o2 z2 s"
proof -
  have "unat off - fmt_size \<le> length (seg_bytes s)"
    and "unat off - fmt_size + length (take (unat z) bs) \<le> unat o2 - fmt_size"
    using assms by (auto simp: region_ok_def)
  then show ?thesis by (simp only: region_def seg_bytes_write_region drop_splice)
qed

lemma write_region_same:
  assumes "region_ok off z s"
  shows "write_region off z (region off z s) s = s"
proof -
  let ?a = "unat off - fmt_size"
  have t: "take (unat z) (region off z s) = take (unat z) (drop ?a (seg_bytes s))"
    and l: "length (take (unat z) (drop ?a (seg_bytes s))) = unat z"
    using assms by (auto simp: region_def region_ok_def)
  have "take ?a (seg_bytes s) @ take (unat z) (drop ?a (seg_bytes s)) @ drop (?a + unat z) (seg_bytes s)
      = take (?a + unat z) (seg_bytes s) @ drop (?a + unat z) (seg_bytes s)"
    by (simp only: take_add append_assoc)
  then show ?thesis unfolding write_region_def t l by simp
qed

section \<open>Completing the table\<close>

lemma length_used [simp]: "seg_ok s \<Longrightarrow> length (used_modules s) = unat (modulesCount (seg_fmt s))"
  by (auto simp: seg_ok_def used_modules_def)

lemma FindModule_ok: "seg_ok s \<Longrightarrow> FindModule name s = Inr (find (\<lambda>md. szName md = name) (used_modules s))"
  by (auto simp: FindModule_def seg_ok_def split: option.split)

lemma bzero_region_ok:
  assumes "region_ok off z s"
  shows "\<exists>s'. bzero_region off z s = Inr s' \<and> seg_fmt s' = seg_fmt s
    \<and> length (seg_bytes s') = length (seg_bytes s)
    \<and> (\<forall>o2 z2. fmt_size \<le> unat o2 \<longrightarrow> unat o2 + unat z2 \<le> unat off \<longrightarrow> region o2 z2 s' = region o2 z2 s)"
  using assms by (auto simp: bzero_region_def region_write_before [OF assms] simp del: fmt_size_value)

text \<open>What stays of a segment when the table grows: the regions handed out before.\<close>

definition keeps_regions :: "segment \<Rightarrow> segment \<Rightarrow> bool" where
  "keeps_regions s s' \<longleftrightarrow> (\<forall>md\<in>set (used_modules s).
     region (dataOffset md) (zSize md) s' = region (dataOffset md) (zSize md) s)"

lemma used_nth_bounds:
  assumes "seg_ok s" "md \<in> set (used_modules s)"
  shows "fmt_size \<le> unat (dataOffset md) \<and> unat (dataOffset md) + unat (zSize md) \<le> unat (dataLength (seg_fmt s))"
proof -
  obtain i where "i < length (used_modules s)" "md = used_modules s ! i"
    using assms(2) by (auto simp: in_set_conv_nth)
  then show ?thesis using chain_nth assms(1) by (auto simp: seg_ok_def)
qed

lemma seg_ok_region_ok:
  assumes "seg_ok s" "md \<in> set (used_modules s)"
  shows "region_ok (dataOffset md) (zSize md) s"
  using used_nth_bounds [OF assms] assms(1) by (auto simp: region_ok_def seg_ok_def)

text \<open>Appending one entry at the end of the used part of the table.\<close>

lemma used_append:
  assumes "seg_ok s" "unat (modulesCount (seg_fmt s)) < 256"
    and "modules f' = (modules (seg_fmt s))[unat (modulesCount (seg_fmt s)) := md]"
    and "modulesCount f' = modulesCount (seg_fmt s) + 1"
    and "seg_fmt s' = f'"
  shows "used_modules s' = used_modules s @ [md]"
proof -
  let ?n = "unat (modulesCount (seg_fmt s))"
  have n: "?n < length (modules (seg_fmt s))" using assms(1,2) by (simp add: seg_ok_def)
  have "unat (modulesCount f') = Suc ?n" using assms(2,4) by (simp add: unat_u16_suc)
  then show ?thesis using n assms(3,5) by (simp add: used_modules_def take_Suc_conv_app_nth)
qed

lemma seg_ok_append:
  assumes ok: "seg_ok s" and n: "unat (modulesCount (seg_fmt s)) < 256"
    and f: "modules f' = (modules (seg_fmt s))[unat (modulesCount (seg_fmt s)) := md]"
      "modulesCount f' = modulesCount (seg_fmt s) + 1" "dataLength f' = dataLength (seg_fmt s) + zSize md"
    and md: "dataOffset md = dataLength (seg_fmt s)" "szName md \<notin> szName ` set (used_modules s)"
    and fit: "unat (dataLength (seg_fmt s)) + unat (zSize md) \<le> fmt_size + length (seg_bytes s')"
      "unat (dataLength (seg_fmt s)) + unat (zSize md) < 18446744073709551616"
    and s': "seg_fmt s' = f'"
  shows "seg_ok s'"
proof -
  have u: "used_modules s' = used_modules s @ [md]" by (rule used_append [OF ok n f(1,2) s'])
  have d: "unat (dataLength f') = unat (dataLength (seg_fmt s)) + unat (zSize md)"
    using fit(2) by (simp add: f(3) unat_u64_add)
  have "unat (modulesCount f') = Suc (unat (modulesCount (seg_fmt s)))"
    using n by (simp add: f(2) unat_u16_suc)
  then show ?thesis
    using ok n f(1) md fit(1) d by (auto simp: seg_ok_def s' u chain_append)
qed

lemma AddModule_adds:
  assumes s: "m_pFmtBase c = Some s" "seg_ok s"
    and reg: "FindReg name c = Some reg" "reg_name reg = name" "STRNCPY e 32 (c_str name) = name"
      "name \<notin> szName ` set (used_modules s)"
    and fit: "unat (dataLength (seg_fmt s)) + unat (reg_zSize reg) \<le> unat (m_zTotalSize c)"
      "unat (m_zTotalSize c) \<le> fmt_size + length (seg_bytes s)"
      "unat (modulesCount (seg_fmt s)) < 256"
  shows "\<exists>s' md. AddModule e name c = Inr (0, c\<lparr>m_pFmtBase := Some s'\<rparr>) \<and> seg_ok s'
    \<and> used_modules s' = used_modules s @ [md]
    \<and> entry_key md = (name, dataLength (seg_fmt s), reg_zSize reg)
    \<and> unat (dataLength (seg_fmt s')) = unat (dataLength (seg_fmt s)) + unat (reg_zSize reg)
    \<and> length (seg_bytes s') = length (seg_bytes s) \<and> keeps_regions s s'
    \<and> magic (seg_fmt s') = magic (seg_fmt s)"
proof -
  let ?f = "seg_fmt s" and ?n = "unat (modulesCount (seg_fmt s))"
  let ?d = "dataLength (seg_fmt s)" and ?z = "reg_zSize reg"
  have lt: "unat ?d + unat ?z < 18446744073709551616"
    using fit(1) unat_u64_less [of "m_zTotalSize c"] by simp
  have le: "?z + ?d \<le> m_zTotalSize c"
    using fit(1) lt by (simp add: word_le_nat_alt unat_u64_add add.commute)
  have "fmt_size \<le> unat ?d" using s(2) chain_le by (auto simp: seg_ok_def simp del: fmt_size_value)
  then have "region_ok ?d ?z s" using fit by (simp add: region_ok_def)
  then obtain t where t: "bzero_region ?d ?z s = Inr t" "seg_fmt t = ?f"
      "length (seg_bytes t) = length (seg_bytes s)"
      "\<And>o2 z2. fmt_size \<le> unat o2 \<Longrightarrow> unat o2 + unat z2 \<le> unat ?d \<Longrightarrow> region o2 z2 t = region o2 z2 s"
    using bzero_region_ok by blast
  define md where "md = (modules ?f ! ?n)\<lparr>dataOffset := ?d, zSize := ?z, szName := name\<rparr>"
  define f' where "f' = ?f\<lparr>modules := (modules ?f)[?n := md], dataLength := ?d + ?z,
                           modulesCount := modulesCount ?f + 1\<rparr>"
  define s' where "s' = t\<lparr>seg_fmt := f'\<rparr>"
  have f': "modules f' = (modules ?f)[?n := md]" "modulesCount f' = modulesCount ?f + 1"
    "dataLength f' = ?d + zSize md" "seg_fmt s' = f'" "magic f' = magic ?f"
    by (simp_all add: f'_def md_def s'_def)
  have ok: "seg_ok s'"
    by (rule seg_ok_append [OF s(2) fit(3) f'(1-3)]) (use reg fit lt t in \<open>simp_all add: md_def s'_def\<close>)
  have "AddModule e name c = Inr (0, c\<lparr>m_pFmtBase := Some s'\<rparr>)"
    using s reg fit(3) t(1) le
    by (simp add: AddModule_def Let_def RECOVERYSHM_MAX_MOUDLES_def md_def f'_def s'_def not_less)
  moreover have "keeps_regions s s'"
    using used_nth_bounds [OF s(2)] t(4) by (simp add: keeps_regions_def region_def s'_def)
  ultimately show ?thesis
    using ok used_append [OF s(2) fit(3) f'(1,2,4)] lt t
    by (intro exI [of _ s'] exI [of _ md]) (simp add: f' md_def unat_u64_add, simp add: s'_def)
qed

text \<open>The registrations that the table does not know yet.\<close>

definition missing :: "segment \<Rightarrow> ShareMemoryModuleReg list \<Rightarrow> ShareMemoryModuleReg list" where
  "missing s rs = filter (\<lambda>r. reg_name r \<notin> szName ` set (used_modules s)) rs"

text \<open>A registration whose name survives the copy into the 32 bytes of the table.\<close>

definition name_ok :: "shm_env \<Rightarrow> ShareMemoryModuleReg \<Rightarrow> bool" where
  "name_ok e r \<longleftrightarrow> c_str (reg_name r) = reg_name r \<and> STRNCPY e 32 (reg_name r) = reg_name r"

abbreviation size_sum :: "ShareMemoryModuleReg list \<Rightarrow> nat" where
  "size_sum rs \<equiv> (\<Sum>r\<leftarrow>rs. unat (reg_zSize r))"

definition appended :: "segment \<Rightarrow> ShareMemoryModuleReg list \<Rightarrow> segment \<Rightarrow> bool" where
  "appended s new s' \<longleftrightarrow> seg_ok s' \<and> keeps_regions s s'
     \<and> length (seg_bytes s') = length (seg_bytes s) \<and> magic (seg_fmt s') = magic (seg_fmt s)
     \<and> unat (dataLength (seg_fmt s')) = unat (dataLength (seg_fmt s)) + size_sum new
     \<and> (\<exists>more. used_modules s' = used_modules s @ more
         \<and> map szName more = map reg_name new \<and> map zSize more = map reg_zSize new)"

lemma appended_refl: "seg_ok s \<Longrightarrow> appended s [] s"
  by (simp add: appended_def keeps_regions_def)

lemma appended_step:
  assumes "appended t rs s'" "used_modules t = used_modules s @ [md]" "keeps_regions s t"
    and "entry_key md = (reg_name r, off, reg_zSize r)"
    and "unat (dataLength (seg_fmt t)) = unat (dataLength (seg_fmt s)) + unat (reg_zSize r)"
    and "length (seg_bytes t) = length (seg_bytes s)" "magic (seg_fmt t) = magic (seg_fmt s)"
  shows "appended s (r # rs) s'"
proof -
  obtain more where more: "used_modules s' = used_modules t @ more"
      "map szName more = map reg_name rs" "map zSize more = map reg_zSize rs"
    using assms(1) by (auto simp: appended_def)
  have "keeps_regions s s'"
    using assms(1-3) by (simp add: appended_def keeps_regions_def)
  moreover have "used_modules s' = used_modules s @ (md # more)" by (simp add: more(1) assms(2))
  moreover have "map szName (md # more) = map reg_name (r # rs)" "map zSize (md # more) = map reg_zSize (r # rs)"
    using assms(4) more by simp_all
  ultimately show ?thesis using assms(1,5-7) unfolding appended_def by auto
qed

lemma missing_step:
  assumes "used_modules t = used_modules s @ [md]" "szName md \<notin> set (map reg_name rs)"
  shows "missing t rs = missing s rs"
  using assms by (force simp: missing_def intro!: filter_cong)

lemma AppendRegModules_loop_adds:
  assumes "m_pFmtBase c = Some s" "seg_ok s"
    and "\<forall>r\<in>set rs. FindReg (reg_name r) c = Some r \<and> name_ok e r" "distinct (map reg_name rs)"
    and "unat (dataLength (seg_fmt s)) + size_sum (missing s rs) \<le> unat (m_zTotalSize c)"
    and "unat (m_zTotalSize c) \<le> fmt_size + length (seg_bytes s)"
    and "unat (modulesCount (seg_fmt s)) + length (missing s rs) \<le> 256"
  shows "\<exists>s'. AppendRegModules_loop e rs c = Inr (c\<lparr>m_pFmtBase := Some s'\<rparr>) \<and> appended s (missing s rs) s'"
  using assms
proof (induction rs arbitrary: c s)
  case Nil
  then have "c\<lparr>m_pFmtBase := Some s\<rparr> = c" by simp
  then show ?case using Nil.prems appended_refl by (intro exI [of _ s]) (simp add: missing_def)
next
  case (Cons r rs)
  have r: "FindReg (reg_name r) c = Some r" "c_str (reg_name r) = reg_name r"
    "STRNCPY e 32 (reg_name r) = reg_name r" using Cons.prems(3) by (auto simp: name_ok_def)
  note F = FindModule_ok [OF Cons.prems(2), of "reg_name r"]
  show ?case
  proof (cases "reg_name r \<in> szName ` set (used_modules s)")
    case True
    then have m: "missing s (r # rs) = missing s rs" by (simp add: missing_def)
    obtain md where "find (\<lambda>md. szName md = reg_name r) (used_modules s) = Some md"
      using True by (cases "find (\<lambda>md. szName md = reg_name r) (used_modules s)") (auto simp: find_None_iff)
    then have "AppendRegModules_loop e (r # rs) c = AppendRegModules_loop e rs c"
      using Cons.prems(1) r F by simp
    then show ?thesis using Cons.IH [OF Cons.prems(1,2)] Cons.prems m by simp
  next
    case False
    then have m: "missing s (r # rs) = r # missing s rs" by (simp add: missing_def)
    have "find (\<lambda>md. szName md = reg_name r) (used_modules s) = None"
      using False by (auto simp: find_None_iff intro: rev_image_eqI)
    then have step: "AppendRegModules_loop e (r # rs) c
        = bindE (AddModule e (reg_name r) c) (\<lambda>(_, c'). AppendRegModules_loop e rs c')"
      using Cons.prems(1) r F by simp
    have cpy: "STRNCPY e 32 (c_str (reg_name r)) = reg_name r" using r by simp
    have fits: "unat (dataLength (seg_fmt s)) + unat (reg_zSize r) \<le> unat (m_zTotalSize c)"
      "unat (modulesCount (seg_fmt s)) < 256" using Cons.prems(5,7) m by simp_all
    obtain t md where t: "AddModule e (reg_name r) c = Inr (0, c\<lparr>m_pFmtBase := Some t\<rparr>)" "seg_ok t"
        "used_modules t = used_modules s @ [md]"
        "entry_key md = (reg_name r, dataLength (seg_fmt s), reg_zSize r)"
        "unat (dataLength (seg_fmt t)) = unat (dataLength (seg_fmt s)) + unat (reg_zSize r)"
        "length (seg_bytes t) = length (seg_bytes s)" "keeps_regions s t"
        "magic (seg_fmt t) = magic (seg_fmt s)"
      using AddModule_adds [OF Cons.prems(1,2) r(1) refl cpy False fits(1) Cons.prems(6) fits(2)] by blast
    have mt: "missing t rs = missing s rs"
      using missing_step [OF t(3)] t(4) Cons.prems(4) by simp
    have cnt: "unat (modulesCount (seg_fmt t)) = Suc (unat (modulesCount (seg_fmt s)))"
      using length_used [OF t(2)] length_used [OF Cons.prems(2)] t(3) by simp
    obtain s' where s': "AppendRegModules_loop e rs (c\<lparr>m_pFmtBase := Some t\<rparr>)
          = Inr (c\<lparr>m_pFmtBase := Some t\<rparr>\<lparr>m_pFmtBase := Some s'\<rparr>)" "appended t (missing s rs) s'"
      using Cons.IH [of "c\<lparr>m_pFmtBase := Some t\<rparr>" t] Cons.prems t(2,5,6) m mt cnt
      by (auto simp: FindReg_def)
    show ?thesis using step t(1) s'(1) appended_step [OF s'(2) t(3,7,4,5,6,8)] m by auto
  qed
qed

section \<open>Showing the regions\<close>

text \<open>Two segments with the same table, up to the flags \<open>chInited\<close>, and the same size.\<close>

definition same_table :: "segment \<Rightarrow> segment \<Rightarrow> bool" where
  "same_table s s' \<longleftrightarrow>
     modulesCount (seg_fmt s') = modulesCount (seg_fmt s)
     \<and> dataLength (seg_fmt s') = dataLength (seg_fmt s) \<and> magic (seg_fmt s') = magic (seg_fmt s)
     \<and> map entry_key (modules (seg_fmt s')) = map entry_key (modules (seg_fmt s))
     \<and> length (seg_bytes s') = length (seg_bytes s)"

lemma same_table_refl [simp]: "same_table s s"
  by (simp add: same_table_def)

lemma same_table_trans: "same_table s t \<Longrightarrow> same_table t u \<Longrightarrow> same_table s u"
  by (simp add: same_table_def)

lemma same_table_used: "same_table s s' \<Longrightarrow> map entry_key (used_modules s') = map entry_key (used_modules s)"
  by (simp add: same_table_def used_modules_def take_map [symmetric])

lemma same_table_ok:
  assumes "same_table s s'" "seg_ok s"
  shows "seg_ok s'"
proof -
  note u = same_table_used [OF assms(1)]
  have m: "map entry_key (modules (seg_fmt s')) = map entry_key (modules (seg_fmt s))"
    and f: "modulesCount (seg_fmt s') = modulesCount (seg_fmt s)"
      "dataLength (seg_fmt s') = dataLength (seg_fmt s)" "length (seg_bytes s') = length (seg_bytes s)"
    using assms(1) unfolding same_table_def by blast+
  have "length (modules (seg_fmt s')) = length (modules (seg_fmt s))"
    using arg_cong [where f = length, OF m] unfolding length_map .
  then show ?thesis
    using assms(2) unfolding seg_ok_def f chain_cong [OF u] names_cong [OF u] by simp
qed

lemma set_inited_same: "i < length (modules (seg_fmt s)) \<Longrightarrow> same_table s (set_inited i s)"
  by (simp add: same_table_def set_inited_def Let_def map_update list_update_same_conv)

lemma write_region_same_table: "region_ok off z s \<Longrightarrow> same_table s (write_region off z bs s)"
  by (simp add: same_table_def)

lemma used_nth: "seg_ok s \<Longrightarrow> i < unat (modulesCount (seg_fmt s)) \<Longrightarrow>
    modules (seg_fmt s) ! i = used_modules s ! i \<and> used_modules s ! i \<in> set (used_modules s)"
  by (auto simp: used_modules_def seg_ok_def in_set_conv_nth)

lemma attach_module_ok:
  assumes "seg_ok s" "i < unat (modulesCount (seg_fmt s))"
  shows "\<exists>r s'. attach_module i c s = Inr (r, s') \<and> same_table s s' \<and> (r = 0 \<or> r = -1)"
proof -
  have i: "i < length (modules (seg_fmt s))" using assms by (simp add: seg_ok_def)
  have R: "region_ok (dataOffset (modules (seg_fmt s) ! i)) (zSize (modules (seg_fmt s) ! i)) s"
    using used_nth [OF assms] seg_ok_region_ok [OF assms(1)] by simp
  note W = write_region_same_table [OF R]
  have "same_table s (set_inited i (write_region (dataOffset (modules (seg_fmt s) ! i))
          (zSize (modules (seg_fmt s) ! i)) bs s))" for bs
    by (rule same_table_trans [OF W set_inited_same]) (simp add: i)
  then show ?thesis
    using i R W set_inited_same [OF i]
    by (auto simp: attach_module_def Let_def split: option.split prod.split)
qed

lemma AttachAllModules_loop_ok:
  assumes "seg_ok s" "i + k \<le> unat (modulesCount (seg_fmt s))"
  shows "\<exists>r s'. AttachAllModules_loop i k c s = Inr (r, s') \<and> same_table s s' \<and> (r = 0 \<or> r = -1)"
  using assms
proof (induction k arbitrary: i s)
  case 0
  then show ?case by simp
next
  case (Suc k)
  obtain r t where t: "attach_module i c s = Inr (r, t)" "same_table s t" "r = 0 \<or> r = -1"
    using attach_module_ok [of s i c] Suc.prems by auto
  have "i + 1 + k \<le> unat (modulesCount (seg_fmt t))" using Suc.prems t(2) by (simp add: same_table_def)
  then obtain r2 u where "AttachAllModules_loop (Suc i) k c t = Inr (r2, u)" "same_table t u" "r2 = 0 \<or> r2 = -1"
    using Suc.IH [OF same_table_ok [OF t(2) Suc.prems(1)], of "Suc i"] by auto
  then show ?case using t same_table_trans by auto
qed

lemma AttachAllModules_ok:
  assumes "m_pFmtBase c = Some s" "seg_ok s"
  shows "\<exists>r s'. AttachAllModules c = Inr (r, c\<lparr>m_pFmtBase := Some s'\<rparr>) \<and> same_table s s' \<and> (r = 0 \<or> r = -1)"
  using AttachAllModules_loop_ok [of s 0 "unat (modulesCount (seg_fmt s))" c] assms
  by (auto simp: AttachAllModules_def)

text \<open>
  A notifier that accepts an initialised region and leaves it as it is; with such notifiers the
  bytes of the segment survive.
\<close>

definition recovers :: "segment \<Rightarrow> ShareMemoryCenter \<Rightarrow> ShareMemoryModule \<Rightarrow> bool" where
  "recovers s c md \<longleftrightarrow> (\<exists>reg. FindReg (szName md) c = Some reg \<and>
     (\<forall>n. reg_notifier reg = Some n \<longrightarrow>
        n (region (dataOffset md) (zSize md) s) (zSize md) (chInited md)
          = (0, region (dataOffset md) (zSize md) s)))"

lemma set_inited_id:
  "i < length (modules (seg_fmt s)) \<Longrightarrow> chInited (modules (seg_fmt s) ! i) = 1 \<Longrightarrow> set_inited i s = s"
proof -
  assume "i < length (modules (seg_fmt s))" "chInited (modules (seg_fmt s) ! i) = 1"
  then have "(modules (seg_fmt s) ! i)\<lparr>chInited := 1\<rparr> = modules (seg_fmt s) ! i" by simp
  then show ?thesis by (simp add: set_inited_def Let_def)
qed

lemma attach_module_recovers:
  assumes "seg_ok s" "i < unat (modulesCount (seg_fmt s))"
    and "recovers s c (used_modules s ! i)" "chInited (used_modules s ! i) = 1"
  shows "attach_module i c s = Inr (0, s)"
proof -
  have i: "i < length (modules (seg_fmt s))" using assms(1,2) by (simp add: seg_ok_def)
  have u: "modules (seg_fmt s) ! i = used_modules s ! i" using used_nth [OF assms(1,2)] by simp
  have R: "region_ok (dataOffset (used_modules s ! i)) (zSize (used_modules s ! i)) s"
    using used_nth [OF assms(1,2)] seg_ok_region_ok [OF assms(1)] by simp
  show ?thesis
    using assms(3) i R set_inited_id [OF i] assms(4) write_region_same [OF R]
    by (auto simp: attach_module_def Let_def u recovers_def split: option.split)
qed

lemma AttachAllModules_recovers:
  assumes "m_pFmtBase c = Some s" "seg_ok s"
    and "\<forall>md\<in>set (used_modules s). recovers s c md \<and> chInited md = 1"
  shows "AttachAllModules c = Inr (0, c)"
proof -
  have "AttachAllModules_loop i k c s = Inr (0, s)" if "i + k \<le> unat (modulesCount (seg_fmt s))" for i k
    using that
  proof (induction k arbitrary: i)
    case 0
    then show ?case by simp
  next
    case (Suc k)
    then have "attach_module i c s = Inr (0, s)"
      using attach_module_recovers [OF assms(2), of i c] assms(3) used_nth [OF assms(2), of i] by simp
    then show ?case using Suc by simp
  qed
  moreover have "c\<lparr>m_pFmtBase := Some s\<rparr> = c" using assms(1) by simp
  ultimately show ?thesis using assms(1) by (simp add: AttachAllModules_def)
qed

text \<open>When every notifier answers \<open>0\<close>, so does \<open>AttachAllModules\<close>.\<close>

definition accepts :: "ShareMemoryModuleReg \<Rightarrow> bool" where
  "accepts r \<longleftrightarrow> (\<forall>n b z i. reg_notifier r = Some n \<longrightarrow> fst (n b z i) = 0)"

definition all_accept :: "ShareMemoryCenter \<Rightarrow> segment \<Rightarrow> bool" where
  "all_accept c s \<longleftrightarrow> (\<forall>name\<in>set (map szName (used_modules s)). \<exists>reg. FindReg name c = Some reg \<and> accepts reg)"

lemma attach_module_accepts:
  assumes "seg_ok s" "i < unat (modulesCount (seg_fmt s))" "all_accept c s"
  shows "\<exists>s'. attach_module i c s = Inr (0, s')"
proof -
  have i: "i < length (modules (seg_fmt s))" using assms by (simp add: seg_ok_def)
  note u = used_nth [OF assms(1,2)]
  obtain reg where "FindReg (szName (used_modules s ! i)) c = Some reg" "accepts reg"
    using assms(3) u by (auto simp: all_accept_def)
  then show ?thesis
    using i u seg_ok_region_ok [OF assms(1)]
    by (auto simp: attach_module_def Let_def accepts_def split: option.split prod.split) (metis fst_conv)
qed

lemma all_accept_cong: "same_table s s' \<Longrightarrow> all_accept c s' \<longleftrightarrow> all_accept c s"
  unfolding all_accept_def using names_cong [OF same_table_used [of s s']] by simp

lemma AttachAllModules_accepts:
  assumes "m_pFmtBase c = Some s" "seg_ok s" "all_accept c s"
  shows "\<exists>c'. AttachAllModules c = Inr (0, c')"
proof -
  have "\<exists>s'. AttachAllModules_loop i k c s = Inr (0, s')"
    if "i + k \<le> unat (modulesCount (seg_fmt s))" "seg_ok s" "all_accept c s" for i k s
    using that
  proof (induction k arbitrary: i s)
    case 0
    then show ?case by simp
  next
    case (Suc k)
    obtain t where t: "attach_module i c s = Inr (0, t)"
      using attach_module_accepts [of s i c] Suc.prems by auto
    then have st: "same_table s t" using attach_module_ok [of s i c] Suc.prems by auto
    then show ?case
      using t Suc.IH [of "Suc i" t] Suc.prems same_table_ok [OF st] all_accept_cong [OF st]
      by (simp add: same_table_def)
  qed
  from this [of 0 "unat (modulesCount (seg_fmt s))" s] show ?thesis
    using assms by (auto simp: AttachAllModules_def)
qed

section \<open>A fresh segment\<close>

definition registered :: "ShareMemoryModuleReg list \<Rightarrow> ShareMemoryCenter" where
  "registered regs = foldl (\<lambda>c r. snd (Register r c)) ShareMemoryCenter_new regs"

lemma registered_eq:
  "distinct (map reg_name regs) \<Longrightarrow>
    registered regs = \<lparr>m_vecModules = regs, m_pFmtBase = None, m_zTotalSize = of_nat (size_sum regs)\<rparr>"
proof (induction regs rule: rev_induct)
  case Nil
  then show ?case by (simp add: registered_def ShareMemoryCenter_new_def)
next
  case (snoc r rs)
  then have IH: "registered rs = \<lparr>m_vecModules = rs, m_pFmtBase = None, m_zTotalSize = of_nat (size_sum rs)\<rparr>"
    by simp
  have "find (\<lambda>x. reg_name x = reg_name r) rs = None"
    using snoc.prems by (auto simp: find_None_iff intro: rev_image_eqI)
  moreover have "registered (rs @ [r]) = snd (Register r (registered rs))" by (simp add: registered_def)
  ultimately show ?case by (simp add: IH Register_def FindReg_def)
qed

lemma find_distinct:
  "distinct (map reg_name regs) \<Longrightarrow> r \<in> set regs \<Longrightarrow> find (\<lambda>x. reg_name x = reg_name r) regs = Some r"
  by (induction regs) (auto intro: rev_image_eqI)

text \<open>The registrations a process may make: distinct names that fit, at most 256, no overflow.\<close>

definition regs_ok :: "shm_env \<Rightarrow> ShareMemoryModuleReg list \<Rightarrow> bool" where
  "regs_ok e regs \<longleftrightarrow> distinct (map reg_name regs) \<and> length regs \<le> 256 \<and> list_all (name_ok e) regs
     \<and> fmt_size + size_sum regs < 18446744073709551616"

abbreviation total_size :: "ShareMemoryModuleReg list \<Rightarrow> u64" where
  "total_size regs \<equiv> of_nat (size_sum regs) + of_nat fmt_size"

lemma unat_total_size:
  assumes "regs_ok e regs"
  shows "unat (total_size regs) = fmt_size + size_sum regs"
proof -
  have lt: "fmt_size + size_sum regs < 18446744073709551616" using assms by (simp add: regs_ok_def)
  have "unat (of_nat (size_sum regs) :: u64) = size_sum regs" "unat (of_nat fmt_size :: u64) = fmt_size"
    using lt by (simp_all add: unsigned_of_nat take_bit_nat_eq_self)
  then show ?thesis using lt by (simp add: unat_u64_add)
qed

text \<open>The system has no segment yet and hands out one of the size asked for.\<close>

definition fresh_env :: "ShareMemoryModuleReg list \<Rightarrow> segment \<Rightarrow> shm_env \<Rightarrow> bool" where
  "fresh_env regs s0 e \<longleftrightarrow> shm_Attach e (total_size regs) = (1, None)
     \<and> shm_Create e (total_size regs) = (0, Some s0) \<and> length (seg_bytes s0) = size_sum regs"

definition empty_segment :: "nat \<Rightarrow> segment" where
  "empty_segment n = \<lparr>seg_fmt = \<lparr>magic = SHM_MAGIC, dataLength = of_nat fmt_size,
       fmt_dataOffset = of_nat fmt_size, modulesCount = 0,
       modules = replicate RECOVERYSHM_MAX_MOUDLES zero_module\<rparr>, seg_bytes = replicate n 0\<rparr>"

lemma empty_segment_ok: "seg_ok (empty_segment n)" "used_modules (empty_segment n) = []"
  by (simp_all add: empty_segment_def seg_ok_def used_modules_def RECOVERYSHM_MAX_MOUDLES_def)

lemma fresh_Init:
  assumes ok: "regs_ok e regs" and e: "fresh_env regs s0 e"
  defines "c1 \<equiv> \<lparr>m_vecModules = regs, m_pFmtBase = None, m_zTotalSize = total_size regs\<rparr>"
  shows "\<exists>s. ShareMemoryCenter_Init e (registered regs) = AttachAllModules (c1\<lparr>m_pFmtBase := Some s\<rparr>)
    \<and> appended (empty_segment (size_sum regs)) regs s"
proof -
  let ?s = "empty_segment (size_sum regs)" and ?n = "size_sum regs"
  have d: "distinct (map reg_name regs)" using ok by (simp add: regs_ok_def)
  note T = unat_total_size [OF ok]
  have m: "missing ?s regs = regs" by (simp add: missing_def empty_segment_ok)
  have r: "\<forall>r\<in>set regs. FindReg (reg_name r) (c1\<lparr>m_pFmtBase := Some ?s\<rparr>) = Some r \<and> name_ok e r"
    using find_distinct [OF d] ok by (simp add: FindReg_def c1_def regs_ok_def list_all_iff)
  have "\<exists>s. AppendRegModules_loop e regs (c1\<lparr>m_pFmtBase := Some ?s\<rparr>)
      = Inr (c1\<lparr>m_pFmtBase := Some ?s\<rparr>\<lparr>m_pFmtBase := Some s\<rparr>) \<and> appended ?s (missing ?s regs) s"
    by (rule AppendRegModules_loop_adds [OF _ empty_segment_ok(1) r d])
       (use T ok in \<open>simp_all add: m c1_def regs_ok_def, simp_all add: empty_segment_def\<close>)
  then obtain s where s: "AppendRegModules_loop e regs (c1\<lparr>m_pFmtBase := Some ?s\<rparr>) = Inr (c1\<lparr>m_pFmtBase := Some s\<rparr>)"
      "appended ?s regs s" by (auto simp: m)
  have "InitRegModules e (c1\<lparr>m_pFmtBase := Some s0\<rparr>) = AppendRegModules_loop e regs (c1\<lparr>m_pFmtBase := Some ?s\<rparr>)"
    using T e by (simp add: InitRegModules_def AppendRegModules_def c1_def fresh_env_def empty_segment_def Let_def)
  then show ?thesis
    using s e by (intro exI [of _ s])
      (simp add: ShareMemoryCenter_Init_def registered_eq [OF d] fresh_env_def c1_def Let_def)
qed


text \<open>After \<open>AttachAllModules\<close> has answered \<open>0\<close>, every region counts as initialised.\<close>

lemma attach_module_inited:
  assumes "attach_module i c s = Inr (0, s')"
  shows "i < length (modules (seg_fmt s)) \<and> chInited (modules (seg_fmt s') ! i) = 1
    \<and> (\<forall>j. j \<noteq> i \<longrightarrow> modules (seg_fmt s') ! j = modules (seg_fmt s) ! j)
    \<and> length (modules (seg_fmt s')) = length (modules (seg_fmt s))"
  using assms
  by (auto simp: attach_module_def Let_def set_inited_def split: if_splits option.splits prod.splits)

lemma AttachAllModules_loop_inited:
  "AttachAllModules_loop i k c s = Inr (0, s') \<Longrightarrow>
    (\<forall>j. i \<le> j \<longrightarrow> j < i + k \<longrightarrow> chInited (modules (seg_fmt s') ! j) = 1)
    \<and> (\<forall>j<i. modules (seg_fmt s') ! j = modules (seg_fmt s) ! j)"
proof (induction k arbitrary: i s)
  case 0
  then show ?case by simp
next
  case (Suc k)
  obtain t where t: "attach_module i c s = Inr (0, t)" "AttachAllModules_loop (Suc i) k c t = Inr (0, s')"
    using Suc.prems by (auto simp: bindE_Inr split: if_splits)
  note a = attach_module_inited [OF t(1)] and b = Suc.IH [OF t(2)]
  have "chInited (modules (seg_fmt s') ! j) = 1" if "i \<le> j" "j < i + Suc k" for j
    by (cases "j = i") (use a b that in auto)
  then show ?case using a b by auto
qed

lemma AttachAllModules_inited:
  assumes "AttachAllModules c = Inr (0, c')" "m_pFmtBase c = Some s" "seg_ok s"
  shows "\<exists>s'. c' = c\<lparr>m_pFmtBase := Some s'\<rparr> \<and> same_table s s' \<and> (\<forall>md\<in>set (used_modules s'). chInited md = 1)"
proof -
  obtain s' where s': "AttachAllModules_loop 0 (unat (modulesCount (seg_fmt s))) c s = Inr (0, s')"
      "c' = c\<lparr>m_pFmtBase := Some s'\<rparr>"
    using assms(1,2) by (auto simp: AttachAllModules_def bindE_Inr)
  have st: "same_table s s'" using AttachAllModules_loop_ok [of s 0 _ c] assms(3) s'(1) by fastforce
  have "chInited md = 1" if "md \<in> set (used_modules s')" for md
    using that AttachAllModules_loop_inited [OF s'(1)] st
    by (auto simp: used_modules_def in_set_conv_nth same_table_def)
  then show ?thesis using s'(2) st by blast
qed

text \<open>A notifier that accepts a region of an earlier process as it is.\<close>

definition keeps_old :: "ShareMemoryModuleReg \<Rightarrow> bool" where
  "keeps_old r \<longleftrightarrow> (\<forall>n b z. reg_notifier r = Some n \<longrightarrow> n b z 1 = (0, b))"

lemma restart_Init:
  assumes ok: "seg_ok s" and mg: "magic (seg_fmt s) = SHM_MAGIC"
    and u: "map szName (used_modules s) = map reg_name regs" "\<forall>md\<in>set (used_modules s). chInited md = 1"
    and d: "distinct (map reg_name regs)" "dataLength (seg_fmt s) = total_size regs"
    and e: "shm_Attach e (total_size regs) = (0, Some s)" "1 \<le> shm_GetAttachNum e"
    and k: "list_all keeps_old regs"
  shows "ShareMemoryCenter_Init e (registered regs)
    = Inr (0, \<lparr>m_vecModules = regs, m_pFmtBase = Some s, m_zTotalSize = total_size regs\<rparr>)"
proof -
  let ?c = "\<lparr>m_vecModules = regs, m_pFmtBase = Some s, m_zTotalSize = total_size regs\<rparr>"
  have "recovers s ?c md" if md: "md \<in> set (used_modules s)" for md
  proof -
    have "szName md \<in> set (map reg_name regs)" using md u(1) by (metis image_eqI set_map)
    then obtain r where r: "r \<in> set regs" "reg_name r = szName md" by auto
    then have "FindReg (szName md) ?c = Some r" using find_distinct [OF d(1) r(1)] by (simp add: FindReg_def)
    then show ?thesis using k r(1) md u(2) by (auto simp: recovers_def keeps_old_def list_all_iff)
  qed
  then have "AttachAllModules ?c = Inr (0, ?c)" using AttachAllModules_recovers [of ?c s] ok u(2) by simp
  then show ?thesis
    using e mg d(2)
    by (simp add: ShareMemoryCenter_Init_def registered_eq [OF d(1)] Check_def GetOldShmSize_def SHM_MAGIC_def Let_def)
qed

text \<open>
  C28.  After a restart the data is recovered.  A first process laid out the segment and left
  any bytes \<open>bs\<close> in it.  A second process that registers the same names and sizes, with
  notifiers that accept a region of an earlier process, is given this segment unchanged: \<open>Init\<close>
  answers 0, the bytes are those of the first process, and every module gets the buffer (offset
  and size) it had before.
\<close>

theorem shm_restart_recovers:
  assumes first: "regs_ok e regs" "fresh_env regs s0 e"
      "ShareMemoryCenter_Init e (registered regs) = Inr (0, c)" "m_pFmtBase c = Some s"
    and left: "length bs = length (seg_bytes s)"
    and again: "map reg_name regs2 = map reg_name regs" "map reg_zSize regs2 = map reg_zSize regs"
      "list_all keeps_old regs2"
      "shm_Attach e2 (total_size regs) = (0, Some (s\<lparr>seg_bytes := bs\<rparr>))" "1 \<le> shm_GetAttachNum e2"
  shows "\<exists>c2. ShareMemoryCenter_Init e2 (registered regs2) = Inr (0, c2)
    \<and> m_pFmtBase c2 = Some (s\<lparr>seg_bytes := bs\<rparr>)
    \<and> (\<forall>name. GetModleBuffer name c2 = GetModleBuffer name c)"
proof -
  let ?c1 = "\<lparr>m_vecModules = regs, m_pFmtBase = None, m_zTotalSize = total_size regs\<rparr>"
  let ?s2 = "s\<lparr>seg_bytes := bs\<rparr>"
  obtain s1 where s1: "AttachAllModules (?c1\<lparr>m_pFmtBase := Some s1\<rparr>) = Inr (0, c)"
      "appended (empty_segment (size_sum regs)) regs s1"
    using fresh_Init [OF first(1,2)] first(3) by auto
  have ok1: "seg_ok s1" "map szName (used_modules s1) = map reg_name regs" "magic (seg_fmt s1) = SHM_MAGIC"
      "unat (dataLength (seg_fmt s1)) = fmt_size + size_sum regs"
    using s1(2) by (auto simp: appended_def empty_segment_ok) (simp_all add: empty_segment_def)
  have s: "same_table s1 s" "\<forall>md\<in>set (used_modules s). chInited md = 1"
    using AttachAllModules_inited [OF s1(1) _ ok1(1)] first(4) by auto
  note k = same_table_used [OF s(1)]
  have u2: "used_modules ?s2 = used_modules s" by (simp add: used_modules_def)
  have "seg_ok s" by (rule same_table_ok [OF s(1) ok1(1)])
  then have ok2: "seg_ok ?s2" using left by (simp add: seg_ok_def u2)
  have z: "size_sum regs2 = size_sum regs"
    using arg_cong [where f = "\<lambda>l. \<Sum>x\<leftarrow>l. unat x", OF again(2)] by (simp add: comp_def)
  have dl: "dataLength (seg_fmt ?s2) = total_size regs2"
    using ok1(4) s(1) unat_total_size [OF first(1)] by (simp add: same_table_def z word_unat_eq_iff)
  have d: "distinct (map reg_name regs2)" using first(1) by (simp add: again(1) regs_ok_def)
  have "ShareMemoryCenter_Init e2 (registered regs2)
      = Inr (0, \<lparr>m_vecModules = regs2, m_pFmtBase = Some ?s2, m_zTotalSize = total_size regs2\<rparr>)"
    by (rule restart_Init [OF ok2 _ _ _ d dl])
       (use again s ok1(2,3) names_cong [OF k] in \<open>simp_all add: u2 z same_table_def\<close>)
  then show ?thesis using first(4) by (simp add: GetModleBuffer_def FindModule_def u2)
qed

text \<open>Two modules on a fresh system; the first one clears its region.\<close>

definition demo_regs :: "ShareMemoryModuleReg list" where
  "demo_regs = [\<lparr>reg_name = ''role'', reg_zSize = 2, reg_notifier = Some (\<lambda>b z i. (0, if i = 1 then b else [0, 0]))\<rparr>,
                \<lparr>reg_name = ''rank'', reg_zSize = 3, reg_notifier = None\<rparr>]"

definition demo_shm :: "segment option \<Rightarrow> shm_env" where
  "demo_shm old = \<lparr>shm_Attach = (\<lambda>_. case old of None \<Rightarrow> (1, None) | Some s \<Rightarrow> (0, Some s)),
     shm_Create = (\<lambda>n. (0, Some (empty_segment 5))), shm_GetAttachNum = 1, STRNCPY = (\<lambda>n s. take (n - 1) s)\<rparr>"

lemma demo_regs_ok: "regs_ok (demo_shm None) demo_regs" "fresh_env demo_regs (empty_segment 5) (demo_shm None)"
  by (simp_all add: regs_ok_def fresh_env_def demo_regs_def demo_shm_def name_ok_def c_str_def empty_segment_def)


text \<open>The first process runs, leaves five bytes, and the second one finds them.\<close>

lemma demo_first:
  "\<exists>c s. ShareMemoryCenter_Init (demo_shm None) (registered demo_regs) = Inr (0, c)
     \<and> m_pFmtBase c = Some s \<and> length (seg_bytes s) = 5"
proof -
  let ?c1 = "\<lparr>m_vecModules = demo_regs, m_pFmtBase = None, m_zTotalSize = total_size demo_regs\<rparr>"
  obtain s where s: "ShareMemoryCenter_Init (demo_shm None) (registered demo_regs)
        = AttachAllModules (?c1\<lparr>m_pFmtBase := Some s\<rparr>)" "appended (empty_segment (size_sum demo_regs)) demo_regs s"
    using fresh_Init [OF demo_regs_ok] by blast
  have ok: "seg_ok s" "map szName (used_modules s) = map reg_name demo_regs" "length (seg_bytes s) = 5"
    using s(2) by (auto simp: appended_def empty_segment_ok) (simp add: empty_segment_def demo_regs_def)
  have "all_accept (?c1\<lparr>m_pFmtBase := Some s\<rparr>) s"
    unfolding all_accept_def ok(2) by (simp add: demo_regs_def FindReg_def accepts_def)
  then show ?thesis
    using s(1) ok AttachAllModules_accepts [of "?c1\<lparr>m_pFmtBase := Some s\<rparr>" s]
      AttachAllModules_ok [of "?c1\<lparr>m_pFmtBase := Some s\<rparr>" s] by (auto simp: same_table_def)
qed

theorem shm_restart_recovers_witness:
  "\<exists>c s c2. ShareMemoryCenter_Init (demo_shm None) (registered demo_regs) = Inr (0, c)
     \<and> m_pFmtBase c = Some s
     \<and> ShareMemoryCenter_Init (demo_shm (Some (s\<lparr>seg_bytes := [1, 2, 3, 4, 5]\<rparr>))) (registered demo_regs) = Inr (0, c2)
     \<and> m_pFmtBase c2 = Some (s\<lparr>seg_bytes := [1, 2, 3, 4, 5]\<rparr>)"
proof -
  obtain c s where c: "ShareMemoryCenter_Init (demo_shm None) (registered demo_regs) = Inr (0, c)"
      "m_pFmtBase c = Some s" "length (seg_bytes s) = 5"
    using demo_first by blast
  have "\<exists>c2. ShareMemoryCenter_Init (demo_shm (Some (s\<lparr>seg_bytes := [1, 2, 3, 4, 5]\<rparr>))) (registered demo_regs) = Inr (0, c2)
     \<and> m_pFmtBase c2 = Some (s\<lparr>seg_bytes := [1, 2, 3, 4, 5]\<rparr>)
     \<and> (\<forall>name. GetModleBuffer name c2 = GetModleBuffer name c)"
    by (rule shm_restart_recovers [OF demo_regs_ok c(1,2)])
       (simp_all add: c(3) demo_shm_def demo_regs_def keeps_old_def)
  then show ?thesis using c by blast
qed

end
