(* ===== verification/MetaSerializer.thy ===== *)
theory MetaSerializer
  imports Prelude
begin

text \<open>
  The serialiser of protobuf objects (\<open>datacenter/MetaSerializer.h/.cpp\<close>): packing, creating
  objects by type name, reading and writing fields by name, and the primary key and the maximal
  lengths that a message type declares in nested types.

  Protobuf is a parameter: a record \<open>protobuf\<close> over the type \<open>'o\<close> of messages, with the calls of
  its reflection interface.  Descriptors are the data that interface shows.  A getter or setter
  on a field of another type ends the program, the fault \<open>AssertFail\<close>.
\<close>

section \<open>Protobuf\<close>

datatype CppType = CPPTYPE_INT32 | CPPTYPE_INT64 | CPPTYPE_UINT32 | CPPTYPE_UINT64 | CPPTYPE_DOUBLE
  | CPPTYPE_FLOAT | CPPTYPE_BOOL | CPPTYPE_ENUM | CPPTYPE_STRING | CPPTYPE_MESSAGE

record FieldDescriptor =
  fld_name :: string
  cpp_type :: CppType
  type_name :: string
  message_full_name :: string
  default_value_uint32 :: u32

record Descriptor =
  desc_name :: string
  desc_fields :: "FieldDescriptor list"
  nested_types :: "(string \<times> FieldDescriptor list) list"

text \<open>A value of a field, by its C++ type; floating point numbers are bit patterns.\<close>

datatype 'o pb_value = PInt32 u32 | PInt64 u64 | PUInt32 u32 | PUInt64 u64 | PFloat u32 | PDouble u64
  | PBool bool | PEnum u32 | PString string | PMessage 'o

fun value_type :: "'o pb_value \<Rightarrow> CppType" where
  "value_type (PInt32 _) = CPPTYPE_INT32"
| "value_type (PInt64 _) = CPPTYPE_INT64"
| "value_type (PUInt32 _) = CPPTYPE_UINT32"
| "value_type (PUInt64 _) = CPPTYPE_UINT64"
| "value_type (PFloat _) = CPPTYPE_FLOAT"
| "value_type (PDouble _) = CPPTYPE_DOUBLE"
| "value_type (PBool _) = CPPTYPE_BOOL"
| "value_type (PEnum _) = CPPTYPE_ENUM"
| "value_type (PString _) = CPPTYPE_STRING"
| "value_type (PMessage _) = CPPTYPE_MESSAGE"

record 'o protobuf =
  pb_GetDescriptor :: "'o \<Rightarrow> Descriptor"
  pb_HasField :: "'o \<Rightarrow> string \<Rightarrow> bool"
  pb_Get :: "'o \<Rightarrow> string \<Rightarrow> 'o pb_value"
  pb_Set :: "string \<Rightarrow> 'o pb_value \<Rightarrow> 'o \<Rightarrow> 'o"
  pb_Serialize :: "'o \<Rightarrow> string option"
  pb_ParseFrom :: "string \<Rightarrow> 'o \<Rightarrow> 'o option"
  pb_FindMessageTypeByName :: "string \<Rightarrow> Descriptor option"
  pb_New :: "Descriptor \<Rightarrow> 'o option"
  pb_ByteSize :: "'o \<Rightarrow> nat"

definition FindFieldByName :: "Descriptor \<Rightarrow> string \<Rightarrow> FieldDescriptor option" where
  "FindFieldByName d name = find (\<lambda>f. fld_name f = name) (desc_fields d)"

definition FindNestedTypeByName :: "Descriptor \<Rightarrow> string \<Rightarrow> FieldDescriptor list option" where
  "FindNestedTypeByName d name = map_of (nested_types d) name"

section \<open>Objects\<close>

definition GetDescriptor :: "'o protobuf \<Rightarrow> string \<Rightarrow> Descriptor option" where
  "GetDescriptor pb typ = pb_FindMessageTypeByName pb typ"

definition GetTypeName :: "'o protobuf \<Rightarrow> 'o \<Rightarrow> string" where
  "GetTypeName pb obj = desc_name (pb_GetDescriptor pb obj)"

definition NewObject :: "'o protobuf \<Rightarrow> string \<Rightarrow> 'o option" where
  "NewObject pb typ =
     (case pb_FindMessageTypeByName pb typ of None \<Rightarrow> None | Some meta \<Rightarrow> pb_New pb meta)"

text \<open>\<open>Pack\<close> into a buffer of capacity \<open>iCap\<close>: the result code and the bytes that \<open>iUsed\<close> covers.\<close>

definition GetPackSize :: "'o protobuf \<Rightarrow> 'o \<Rightarrow> nat" where
  "GetPackSize pb obj = pb_ByteSize pb obj"

definition Pack :: "'o protobuf \<Rightarrow> 'o \<Rightarrow> nat \<Rightarrow> int \<times> string" where
  "Pack pb obj iCap =
     (case pb_Serialize pb obj of
        None \<Rightarrow> (-1, [])
      | Some bytes \<Rightarrow> if length bytes \<le> iCap then (0, bytes) else (-1, []))"

definition UnPack :: "'o protobuf \<Rightarrow> string \<Rightarrow> string \<Rightarrow> int \<times> 'o option" where
  "UnPack pb typ bytes =
     (case NewObject pb typ of
        None \<Rightarrow> (-1, None)
      | Some msg \<Rightarrow>
          (case pb_ParseFrom pb bytes msg of None \<Rightarrow> (-1, None) | Some obj \<Rightarrow> (0, Some obj)))"

text \<open>
  The setters \<open>SetObjectFieldI32\<close> to \<open>SetObjectFieldOBJ\<close> differ in the type of the value only, and
  so do the getters.
\<close>

definition SetObjectField :: "'o protobuf \<Rightarrow> 'o \<Rightarrow> string \<Rightarrow> 'o pb_value \<Rightarrow> fault + int \<times> 'o" where
  "SetObjectField pb obj fieldName val =
     (case FindFieldByName (pb_GetDescriptor pb obj) fieldName of
        None \<Rightarrow> Inr (-1, obj)
      | Some field \<Rightarrow>
          if value_type val = cpp_type field then Inr (0, pb_Set pb fieldName val obj) else Inl AssertFail)"

definition GetObjectField :: "'o protobuf \<Rightarrow> CppType \<Rightarrow> 'o \<Rightarrow> string \<Rightarrow> fault + 'o pb_value option" where
  "GetObjectField pb t obj fieldName =
     (case FindFieldByName (pb_GetDescriptor pb obj) fieldName of
        None \<Rightarrow> Inr None
      | Some field \<Rightarrow> if t = cpp_type field then Inr (Some (pb_Get pb obj fieldName)) else Inl AssertFail)"

section \<open>Primary keys and lengths\<close>

text \<open>What a message type declares in its nested type \<open>_PrimaryKey\<close>.\<close>

definition primary_key :: "Descriptor \<Rightarrow> string list" where
  "primary_key d = (case FindNestedTypeByName d ''_PrimaryKey'' of None \<Rightarrow> [] | Some fs \<Rightarrow> map fld_name fs)"

text \<open>
  \<open>GetTypePrimaryKey\<close> keeps the keys in the map \<open>m_mpDescPrimaryKey\<close>; \<open>operator[]\<close> creates an empty
  entry for a type it has not seen, the null descriptor included, and the loop appends to it.
\<close>

type_synonym key_cache = "Descriptor option \<rightharpoonup> string list"

definition cached :: "Descriptor option \<Rightarrow> key_cache \<Rightarrow> string list" where
  "cached d m = (case m d of None \<Rightarrow> [] | Some ks \<Rightarrow> ks)"

definition GetTypePrimaryKey :: "Descriptor option \<Rightarrow> key_cache \<Rightarrow> string list \<times> key_cache" where
  "GetTypePrimaryKey desc m =
     (let m1 = m(desc \<mapsto> cached desc m) in
      case desc of
        None \<Rightarrow> (cached desc m1, m1)
      | Some d \<Rightarrow>
          if cached desc m1 \<noteq> [] then (cached desc m1, m1)
          else
            (case FindNestedTypeByName d ''_PrimaryKey'' of
               None \<Rightarrow> (cached desc m1, m1)
             | Some fs \<Rightarrow>
                 let m2 = foldl (\<lambda>m f. m(desc \<mapsto> cached desc m @ [fld_name f])) m1 fs in
                 (cached desc m2, m2)))"

definition GetFieldMaxLength :: "Descriptor option \<Rightarrow> string \<Rightarrow> int" where
  "GetFieldMaxLength desc fieldName =
     (case desc of
        None \<Rightarrow> 0
      | Some d \<Rightarrow>
          (case FindNestedTypeByName d ''_MaxLength'' of
             None \<Rightarrow> 0
           | Some fs \<Rightarrow>
               (case find (\<lambda>f. fld_name f = fieldName) fs of
                  None \<Rightarrow> 0
                | Some f \<Rightarrow> sint (default_value_uint32 f))))"

text \<open>The cache holds the keys of the types it has seen.\<close>

definition declared_key :: "Descriptor option \<Rightarrow> string list" where
  "declared_key desc = (case desc of None \<Rightarrow> [] | Some d \<Rightarrow> primary_key d)"

definition cache_ok :: "key_cache \<Rightarrow> bool" where
  "cache_ok m \<longleftrightarrow> (\<forall>d. cached d m = [] \<or> cached d m = declared_key d)"

lemma cached_upd [simp]: "cached d (m(d' \<mapsto> ks)) = (if d = d' then ks else cached d m)"
  by (simp add: cached_def)

lemma append_keys:
  "cached d (foldl (\<lambda>m f. m(desc \<mapsto> cached desc m @ [fld_name f])) m fs)
    = (if d = desc then cached desc m @ map fld_name fs else cached d m)"
  by (induction fs arbitrary: m) auto

lemma cache_ok_upd: "cache_ok m \<Longrightarrow> cache_ok (m(d \<mapsto> cached d m))"
  by (auto simp: cache_ok_def)

lemma GetTypePrimaryKey_eq:
  assumes ok: "cache_ok m"
  shows "fst (GetTypePrimaryKey desc m) = declared_key desc \<and> cache_ok (snd (GetTypePrimaryKey desc m))"
proof (cases "cached desc m = []")
  case False
  then have "cached desc m = declared_key desc" using ok by (auto simp: cache_ok_def)
  then show ?thesis
    using False cache_ok_upd [OF ok, of desc] by (auto simp: GetTypePrimaryKey_def Let_def split: option.split)
next
  case e: True
  show ?thesis
  proof (cases "\<exists>d fs. desc = Some d \<and> FindNestedTypeByName d ''_PrimaryKey'' = Some fs")
    case True
    then obtain d fs where d: "desc = Some d" "FindNestedTypeByName d ''_PrimaryKey'' = Some fs" by blast
    then have k: "declared_key desc = map fld_name fs" by (simp add: declared_key_def primary_key_def)
    show ?thesis
      using ok e d k by (simp add: GetTypePrimaryKey_def Let_def append_keys cache_ok_def)
  next
    case False
    then have "declared_key desc = []"
      by (auto simp: declared_key_def primary_key_def split: option.split)
    moreover have "GetTypePrimaryKey desc m = ([], m(desc \<mapsto> []))"
      using False e by (auto simp: GetTypePrimaryKey_def Let_def split: option.split)
    ultimately show ?thesis using cache_ok_upd [OF ok, of desc] e by simp
  qed
qed

text \<open>A sequence of calls on one serialiser.\<close>

fun key_calls :: "Descriptor option list \<Rightarrow> key_cache \<Rightarrow> string list list" where
  "key_calls [] m = []"
| "key_calls (d # ds) m = (case GetTypePrimaryKey d m of (ks, m') \<Rightarrow> ks # key_calls ds m')"

lemma key_calls_eq: "cache_ok m \<Longrightarrow> key_calls ds m = map declared_key ds"
proof (induction ds arbitrary: m)
  case Nil
  then show ?case by simp
next
  case (Cons d ds)
  then show ?case using GetTypePrimaryKey_eq [OF Cons.prems, of d] by (simp add: case_prod_beta)
qed

text \<open>
  C32.  The cache of primary keys is transparent: over any sequence of calls on a new serialiser,
  \<open>GetTypePrimaryKey\<close> returns for every descriptor the field names of its nested type
  \<open>_PrimaryKey\<close>, and nothing for a type without one or for the null descriptor.
\<close>

theorem key_cache_transparent: "key_calls ds Map.empty = map declared_key ds"
  by (rule key_calls_eq) (simp add: cache_ok_def cached_def)

end
