(* ===== verification/MysqlAgent.thy ===== *)
theory MysqlAgent
  imports MysqlProxy
begin

text \<open>
  The MySQL agent (\<open>db/MysqlAgent.h/.cpp\<close>): the main thread queues requests and polls responses,
  every worker thread owns one connection and serves requests.

  A run of the program is a sequence of events, each of them one atomic step of one thread.
  The steps are cut where the threads can interleave: the test \<open>reqQueue.empty()\<close> of \<open>GetRequest\<close>
  is made without the lock and is a step of its own; pushing a request and \<open>statechg.Notify()\<close>
  are two steps; a worker that found the queue empty still has to reach \<open>statechg.Wait\<close>.
  What is done under one lock is one step.  An event that is not possible in a state (a sleeping
  worker, a join on a running worker) has the result \<open>None\<close>.  The record keeps two histories:
  the requests accepted and the responses passed to the listener.
\<close>

section \<open>State\<close>

datatype worker_pc =
    WTop
  | WGet
  | WPop
  | WWait
  | WSleep
  | WWoken
  | WRun MysqlRequest
  | WDone

record 'db Worker =
  w_pc :: worker_pc
  w_proxy :: "'db MysqlProxy"

datatype main_pc = MIdle | MNotify | MNotifyAll | MJoin | MStopped

record 'db MysqlAgent =
  close :: bool
  agent_tableMetas :: "MysqlMeta list"
  clientProxyList :: "'db MysqlProxy list"
  worker :: "'db Worker list"
  max_req_queue_size :: int
  reqQueue :: "MysqlRequest list"
  rspQueue :: "MysqlResponse list"
  m_ptrListener :: bool
  main_at :: main_pc
  accepted :: "MysqlRequest list"
  handled :: "MysqlResponse list"

section \<open>Starting\<close>

definition SetListener :: "bool \<Rightarrow> 'db MysqlAgent \<Rightarrow> 'db MysqlAgent" where
  "SetListener l s = s\<lparr>m_ptrListener := l\<rparr>"

text \<open>The connections are opened one after the other; the first failure ends \<open>Init\<close>.\<close>

fun Init_proxies ::
  "'db mysql_api \<Rightarrow> MysqlMeta list \<Rightarrow> MysqlProxyOption list \<Rightarrow> 'db MysqlAgent \<Rightarrow> fault + int \<times> 'db MysqlAgent" where
  "Init_proxies a metas [] s = Inr (0, s)"
| "Init_proxies a metas (opt # opts) s =
     (let p = MysqlProxy_Init metas \<lparr>conn = None, tableMetas = Map.empty,
                rsp = \<lparr>rs_tblname = [], rs_op = 0, rs_data = [], rs_cb = [], rs_ret = 0\<rparr>\<rparr> in
      bindE (Connect a opt p) (\<lambda>(r, p').
        if r \<noteq> 0 then Inr (-1, s)
        else Init_proxies a metas opts (s\<lparr>clientProxyList := clientProxyList s @ [p']\<rparr>)))"

definition MysqlAgent_Init ::
  "'db mysql_api \<Rightarrow> MysqlProxyOption list \<Rightarrow> MysqlMeta list \<Rightarrow> int \<Rightarrow> 'db MysqlAgent \<Rightarrow> fault + int \<times> 'db MysqlAgent" where
  "MysqlAgent_Init a proxyList metas iMax s =
     bindE (Init_proxies a metas proxyList (s\<lparr>close := True, clientProxyList := []\<rparr>)) (\<lambda>(r, s1).
       if r \<noteq> 0 then Inr (-1, s1)
       else Inr (0, s1\<lparr>close := False, agent_tableMetas := metas, max_req_queue_size := iMax\<rparr>))"

text \<open>\<open>Start\<close>: one thread per connection (thread creation does not fail here).\<close>

definition Start :: "'db MysqlAgent \<Rightarrow> 'db MysqlAgent" where
  "Start s = s\<lparr>worker := worker s @ map (\<lambda>p. \<lparr>w_pc = WTop, w_proxy = p\<rparr>) (clientProxyList s)\<rparr>"

definition agent_GetTableMeta :: "string \<Rightarrow> 'db MysqlAgent \<Rightarrow> MysqlMeta option" where
  "agent_GetTableMeta name s = find (\<lambda>m. name = tblname m) (agent_tableMetas s)"

section \<open>The main thread\<close>

definition Request :: "MysqlRequest \<Rightarrow> 'db MysqlAgent \<Rightarrow> int \<times> 'db MysqlAgent" where
  "Request req s =
     (if max_req_queue_size s \<le> int (length (reqQueue s)) then (-1, s)
      else (0, s\<lparr>reqQueue := reqQueue s @ [req], main_at := MNotify, accepted := accepted s @ [req]\<rparr>))"

definition wake :: "nat \<Rightarrow> 'db MysqlAgent \<Rightarrow> 'db MysqlAgent" where
  "wake i s = s\<lparr>worker := (worker s)[i := (worker s ! i)\<lparr>w_pc := WWoken\<rparr>]\<rparr>"

definition sleeping :: "'db Worker \<Rightarrow> bool" where
  "sleeping w \<longleftrightarrow> w_pc w = WSleep"

text \<open>\<open>statechg.Notify()\<close> wakes one waiting thread, if there is one; \<open>i\<close> says which.\<close>

definition Notify :: "nat \<Rightarrow> 'db MysqlAgent \<Rightarrow> 'db MysqlAgent option" where
  "Notify i s =
     (if \<not> list_ex sleeping (worker s) then Some s
      else if i < length (worker s) \<and> sleeping (worker s ! i) then Some (wake i s)
      else None)"

definition NotifyAll :: "'db MysqlAgent \<Rightarrow> 'db MysqlAgent" where
  "NotifyAll s = s\<lparr>worker := map (\<lambda>w. if sleeping w then w\<lparr>w_pc := WWoken\<rparr> else w) (worker s)\<rparr>"

definition HandleRsp :: "MysqlResponse \<Rightarrow> 'db MysqlAgent \<Rightarrow> 'db MysqlAgent" where
  "HandleRsp r s = (if m_ptrListener s then s\<lparr>handled := handled s @ [r]\<rparr> else s)"

fun Polling_loop :: "MysqlResponse list \<Rightarrow> int \<Rightarrow> 'db MysqlAgent \<Rightarrow> int \<times> 'db MysqlAgent" where
  "Polling_loop [] n s = (n, s\<lparr>rspQueue := []\<rparr>)"
| "Polling_loop (r # rs) n s =
     (if 0 < n then Polling_loop rs (n - 1) (HandleRsp r s) else (n, s\<lparr>rspQueue := r # rs\<rparr>))"

definition Polling :: "int \<Rightarrow> 'db MysqlAgent \<Rightarrow> int \<times> 'db MysqlAgent" where
  "Polling n s = Polling_loop (rspQueue s) n s"

section \<open>A worker thread\<close>

text \<open>The unlocked test of \<open>GetRequest\<close>, and what it does under the lock.\<close>

definition GetRequest_test :: "'db MysqlAgent \<Rightarrow> worker_pc" where
  "GetRequest_test s = (if reqQueue s = [] then WWait else WPop)"

definition GetRequest_pop :: "'db MysqlAgent \<Rightarrow> fault + MysqlRequest \<times> 'db MysqlAgent" where
  "GetRequest_pop s =
     (case reqQueue s of [] \<Rightarrow> Inl OutOfBounds | r # rs \<Rightarrow> Inr (r, s\<lparr>reqQueue := rs\<rparr>))"

definition Response :: "MysqlResponse \<Rightarrow> 'db MysqlAgent \<Rightarrow> 'db MysqlAgent" where
  "Response r s = s\<lparr>rspQueue := rspQueue s @ [r]\<rparr>"

definition goto :: "nat \<Rightarrow> worker_pc \<Rightarrow> 'db MysqlAgent \<Rightarrow> 'db MysqlAgent" where
  "goto i pc s = s\<lparr>worker := (worker s)[i := (worker s ! i)\<lparr>w_pc := pc\<rparr>]\<rparr>"

text \<open>One step of the thread function \<open>Working\<close> of worker \<open>i\<close>.\<close>

definition Working :: "'db mysql_api \<Rightarrow> nat \<Rightarrow> 'db MysqlAgent \<Rightarrow> fault + 'db MysqlAgent option" where
  "Working a i s =
     (if length (worker s) \<le> i then Inr None
      else
        (case w_pc (worker s ! i) of
           WTop \<Rightarrow> Inr (Some (goto i (if close s then WDone else WGet) s))
         | WGet \<Rightarrow> Inr (Some (goto i (GetRequest_test s) s))
         | WPop \<Rightarrow> bindE (GetRequest_pop s) (\<lambda>(r, s'). Inr (Some (goto i (WRun r) s')))
         | WWait \<Rightarrow> Inr (Some (goto i WSleep s))
         | WSleep \<Rightarrow> Inr None
         | WWoken \<Rightarrow> Inr (Some (goto i (if close s then WDone else WGet) s))
         | WRun r \<Rightarrow>
             bindE (DispatchReq a r (w_proxy (worker s ! i))) (\<lambda>(out, p').
               Inr (Some (Response out
                 (s\<lparr>worker := (worker s)[i := \<lparr>w_pc = WTop, w_proxy = p'\<rparr>]\<rparr>))))
         | WDone \<Rightarrow> Inr None))"

section \<open>Runs\<close>

datatype event =
    ERequest MysqlRequest
  | ENotify nat
  | EPolling int
  | EStop
  | ENotifyAll
  | EJoin
  | EWork nat
  | ESpurious nat

text \<open>
  \<open>Stop\<close> sets \<open>close\<close>, wakes everybody, and joins the workers.  A spurious wake-up is allowed by
  the condition variable at any time.
\<close>

definition exec_event :: "'db mysql_api \<Rightarrow> event \<Rightarrow> 'db MysqlAgent \<Rightarrow> fault + 'db MysqlAgent option" where
  "exec_event a ev s =
     (case ev of
        ERequest r \<Rightarrow> Inr (if main_at s = MIdle then Some (snd (Request r s)) else None)
      | ENotify i \<Rightarrow>
          Inr (if main_at s = MNotify then map_option (\<lambda>s'. s'\<lparr>main_at := MIdle\<rparr>) (Notify i s) else None)
      | EPolling n \<Rightarrow> Inr (if main_at s = MIdle then Some (snd (Polling n s)) else None)
      | EStop \<Rightarrow> Inr (if main_at s = MIdle then Some (s\<lparr>close := True, main_at := MNotifyAll\<rparr>) else None)
      | ENotifyAll \<Rightarrow> Inr (if main_at s = MNotifyAll then Some ((NotifyAll s)\<lparr>main_at := MJoin\<rparr>) else None)
      | EJoin \<Rightarrow>
          Inr (if main_at s = MJoin \<and> list_all (\<lambda>w. w_pc w = WDone) (worker s)
               then Some (s\<lparr>worker := [], clientProxyList := [], main_at := MStopped\<rparr>) else None)
      | EWork i \<Rightarrow> Working a i s
      | ESpurious i \<Rightarrow>
          Inr (if i < length (worker s) \<and> sleeping (worker s ! i) then Some (wake i s) else None))"

text \<open>A run that is possible up to its end; \<open>Inl\<close> when its last event faults.\<close>

inductive agent_run :: "'db mysql_api \<Rightarrow> 'db MysqlAgent \<Rightarrow> event list \<Rightarrow> fault + 'db MysqlAgent \<Rightarrow> bool" for a s where
  run_nil: "agent_run a s [] (Inr s)"
| run_step: "agent_run a s evs (Inr t) \<Longrightarrow> exec_event a ev t = Inr (Some u) \<Longrightarrow> agent_run a s (evs @ [ev]) (Inr u)"
| run_fault: "agent_run a s evs (Inr t) \<Longrightarrow> exec_event a ev t = Inl e \<Longrightarrow> agent_run a s (evs @ [ev]) (Inl e)"

text \<open>The same, computed from the left; it is used to evaluate runs.\<close>

fun exec_run :: "'db mysql_api \<Rightarrow> event list \<Rightarrow> 'db MysqlAgent \<Rightarrow> fault + 'db MysqlAgent option" where
  "exec_run a [] s = Inr (Some s)"
| "exec_run a (ev # evs) s =
     (case exec_event a ev s of
        Inl e \<Rightarrow> (if evs = [] then Inl e else Inr None)
      | Inr None \<Rightarrow> Inr None
      | Inr (Some t) \<Rightarrow> exec_run a evs t)"

lemma agent_run_trans: "agent_run a t evs r \<Longrightarrow> agent_run a s es (Inr t) \<Longrightarrow> agent_run a s (es @ evs) r"
proof (induction rule: agent_run.induct)
  case run_nil
  then show ?case by simp
next
  case (run_step evs t' ev u)
  then show ?case using agent_run.run_step [of a s "es @ evs" t' ev u] by simp
next
  case (run_fault evs t' ev e)
  then show ?case using agent_run.run_fault [of a s "es @ evs" t' ev e] by simp
qed

lemma exec_run_run:
  "exec_run a evs s = Inr (Some t) \<Longrightarrow> agent_run a s evs (Inr t)"
  "exec_run a evs s = Inl e \<Longrightarrow> agent_run a s evs (Inl e)"
proof (induction evs arbitrary: s)
  case Nil
  { case 1 then show ?case by (simp add: run_nil) }
  { case 2 then show ?case by simp }
next
  case (Cons ev evs)
  have step: "agent_run a s (ev # evs) r" if "exec_event a ev s = Inr (Some u)" "agent_run a u evs r" for s u r
    using agent_run_trans [OF that(2) run_step [OF run_nil that(1)]] by simp
  { case 1
    then obtain u where "exec_event a ev s = Inr (Some u)" "exec_run a evs u = Inr (Some t)"
      by (auto split: sum.splits option.splits if_splits)
    then show ?case using step Cons.IH(1) by blast }
  { case 2
    then consider "exec_event a ev s = Inl e" "evs = []"
      | u where "exec_event a ev s = Inr (Some u)" "exec_run a evs u = Inl e"
      by (auto split: sum.splits option.splits if_splits)
    then show ?case
    proof cases
      case 1
      then show ?thesis using run_fault [OF run_nil 1(1)] by simp
    next
      case (2 u)
      then show ?thesis using step Cons.IH(2) by blast
    qed }
qed

section \<open>One worker is a queue\<close>

text \<open>The state after \<open>Init\<close>, \<open>SetListener\<close> and \<open>Start\<close> on the given connections.\<close>

definition started :: "'db MysqlProxy list \<Rightarrow> int \<Rightarrow> 'db MysqlAgent" where
  "started ps m = Start \<lparr>close = False, agent_tableMetas = [], clientProxyList = ps, worker = [],
     max_req_queue_size = m, reqQueue = [], rspQueue = [], m_ptrListener = True, main_at = MIdle,
     accepted = [], handled = []\<rparr>"

text \<open>The specification: the requests are served one after the other.\<close>

fun serve_all ::
  "'db mysql_api \<Rightarrow> MysqlRequest list \<Rightarrow> 'db MysqlProxy \<Rightarrow> fault + MysqlResponse list \<times> 'db MysqlProxy" where
  "serve_all a [] p = Inr ([], p)"
| "serve_all a (r # rs) p =
     bindE (DispatchReq a r p) (\<lambda>(out, p').
       bindE (serve_all a rs p') (\<lambda>(outs, p''). Inr (out # outs, p'')))"

lemma serve_all_snoc:
  "serve_all a rs p = Inr (outs, p') \<Longrightarrow>
    serve_all a (rs @ [r]) p = bindE (DispatchReq a r p') (\<lambda>(out, p''). Inr (outs @ [out], p''))"
proof (induction rs arbitrary: p outs)
  case Nil
  then show ?case by (cases "DispatchReq a r p") auto
next
  case (Cons x xs)
  then obtain o1 q outs' where q: "DispatchReq a x p = Inr (o1, q)" "serve_all a xs q = Inr (outs', p')"
      "outs = o1 # outs'" by (auto simp: bindE_Inr)
  then show ?case using Cons.IH [OF q(2)] by (cases "DispatchReq a r p'") auto
qed

definition inflight :: "'db Worker \<Rightarrow> MysqlRequest list" where
  "inflight w = (case w_pc w of WRun r \<Rightarrow> [r] | _ \<Rightarrow> [])"

definition pending :: "'db MysqlAgent \<Rightarrow> MysqlRequest list" where
  "pending s = concat (map inflight (worker s)) @ reqQueue s"

definition fifo_inv :: "'db mysql_api \<Rightarrow> 'db MysqlProxy \<Rightarrow> 'db MysqlAgent \<Rightarrow> bool" where
  "fifo_inv a p0 s \<longleftrightarrow> m_ptrListener s
     \<and> (\<exists>served p. accepted s = served @ pending s \<and> serve_all a served p0 = Inr (handled s @ rspQueue s, p)
         \<and> (worker s = [] \<or> (\<exists>w. worker s = [w] \<and> w_proxy w = p \<and> (w_pc w = WPop \<longrightarrow> reqQueue s \<noteq> []))))"

lemma Polling_loop_eq:
  "m_ptrListener s \<Longrightarrow> snd (Polling_loop rs n s)
    = s\<lparr>rspQueue := drop (nat n) rs, handled := handled s @ take (nat n) rs\<rparr>"
proof (induction rs arbitrary: n s)
  case Nil
  then show ?case by simp
next
  case (Cons r rs)
  show ?case
  proof (cases "0 < n")
    case True
    then have "nat n = Suc (nat (n - 1))" by simp
    then show ?thesis using True Cons.IH [of "s\<lparr>handled := handled s @ [r]\<rparr>" "n - 1"] Cons.prems
      by (simp add: HandleRsp_def)
  qed simp
qed

text \<open>The steps that move no request: everything but the program counters stays.\<close>

definition quiet :: "'db MysqlAgent \<Rightarrow> 'db MysqlAgent \<Rightarrow> bool" where
  "quiet s s' \<longleftrightarrow> m_ptrListener s' = m_ptrListener s \<and> accepted s' = accepted s \<and> handled s' = handled s
     \<and> reqQueue s' = reqQueue s \<and> rspQueue s' = rspQueue s
     \<and> (worker s' = [] \<and> concat (map inflight (worker s)) = []
        \<or> map w_proxy (worker s') = map w_proxy (worker s) \<and> map inflight (worker s') = map inflight (worker s)
          \<and> (reqQueue s = [] \<longrightarrow> (\<forall>w\<in>set (worker s'). w_pc w = WPop \<longrightarrow> w \<in> set (worker s))))"

lemma goto_quiet:
  assumes "i < length (worker s)" "inflight (worker s ! i) = []" "\<forall>r. pc \<noteq> WRun r" "pc = WPop \<longrightarrow> reqQueue s \<noteq> []"
  shows "quiet s (goto i pc s)"
proof -
  let ?w = "(worker s ! i)\<lparr>w_pc := pc\<rparr>"
  have "inflight ?w = []" using assms(3) by (simp add: inflight_def split: worker_pc.split)
  then have f: "map inflight ((worker s)[i := ?w]) = map inflight (worker s)"
    using assms(1,2) by (simp add: map_update list_update_same_conv)
  have p: "map w_proxy ((worker s)[i := ?w]) = map w_proxy (worker s)"
    using assms(1) by (simp add: map_update list_update_same_conv)
  have "w \<in> set (worker s)" if "reqQueue s = []" "w \<in> set ((worker s)[i := ?w])" "w_pc w = WPop" for w
    using that assms(4) set_update_subset_insert [of "worker s" i ?w] by auto
  then show ?thesis using f p by (simp add: quiet_def goto_def)
qed

lemma wake_goto: "wake i = goto i WWoken"
  by (rule ext) (simp add: wake_def goto_def)

lemma wake_quiet: "i < length (worker s) \<Longrightarrow> sleeping (worker s ! i) \<Longrightarrow> quiet s (wake i s)"
  unfolding wake_goto by (rule goto_quiet) (simp_all add: sleeping_def inflight_def)

lemma quiet_main [simp]: "quiet s (s'\<lparr>main_at := x\<rparr>) \<longleftrightarrow> quiet s s'" "quiet s (s'\<lparr>close := b\<rparr>) \<longleftrightarrow> quiet s s'"
  by (simp_all add: quiet_def)

lemma quiet_refl [simp]: "quiet s s"
  by (simp add: quiet_def)

lemma NotifyAll_quiet: "quiet s (NotifyAll s)"
  by (auto simp: quiet_def NotifyAll_def inflight_def sleeping_def split: if_splits)

lemma Join_quiet: "list_all (\<lambda>w. w_pc w = WDone) (worker s) \<Longrightarrow>
    quiet s (s\<lparr>worker := [], clientProxyList := [], main_at := x\<rparr>)"
  by (auto simp: quiet_def list_all_iff inflight_def)

text \<open>What an event does to the requests and the responses.\<close>

lemma exec_event_cases [consumes 2, case_names silent accept deliver pop answer]:
  assumes "exec_event a ev s = Inr (Some s')" "m_ptrListener s"
  obtains "quiet s s'"
  | r where "s' = s\<lparr>reqQueue := reqQueue s @ [r], main_at := MNotify, accepted := accepted s @ [r]\<rparr>"
  | n where "s' = s\<lparr>rspQueue := drop n (rspQueue s), handled := handled s @ take n (rspQueue s)\<rparr>"
  | i r rs where "i < length (worker s)" "w_pc (worker s ! i) = WPop" "reqQueue s = r # rs"
      "s' = goto i (WRun r) (s\<lparr>reqQueue := rs\<rparr>)"
  | i r out p' where "i < length (worker s)" "w_pc (worker s ! i) = WRun r"
      "DispatchReq a r (w_proxy (worker s ! i)) = Inr (out, p')"
      "s' = Response out (s\<lparr>worker := (worker s)[i := \<lparr>w_pc = WTop, w_proxy = p'\<rparr>]\<rparr>)"
proof (cases ev)
  case (ERequest r)
  then show thesis using assms that(1,2) by (auto simp: exec_event_def Request_def split: if_splits)
next
  case (ENotify i)
  then show thesis using assms wake_quiet [of i s] that(1)
    by (auto simp: exec_event_def Notify_def split: if_splits)
next
  case (EPolling n)
  then show thesis using assms that(3)
    by (auto simp: exec_event_def Polling_def Polling_loop_eq split: if_splits)
next
  case EStop
  then show thesis using assms that(1) by (auto simp: exec_event_def split: if_splits)
next
  case ENotifyAll
  then show thesis using assms NotifyAll_quiet [of s] that(1) by (auto simp: exec_event_def split: if_splits)
next
  case EJoin
  then show thesis using assms Join_quiet [of s MStopped] that(1) by (auto simp: exec_event_def split: if_splits)
next
  case (ESpurious i)
  then show thesis using assms wake_quiet [of i s] that(1) by (auto simp: exec_event_def split: if_splits)
next
  case (EWork i)
  then have W: "Working a i s = Inr (Some s')" and i: "i < length (worker s)"
    using assms by (auto simp: exec_event_def Working_def split: if_splits)
  show thesis
  proof (cases "\<exists>pc. s' = goto i pc s \<and> inflight (worker s ! i) = [] \<and> (\<forall>r. pc \<noteq> WRun r)
      \<and> (pc = WPop \<longrightarrow> reqQueue s \<noteq> [])")
    case True
    then show thesis using goto_quiet [OF i] that(1) by blast
  next
    case False
    then show thesis using W i that(4,5) [of i]
      by (auto simp: Working_def GetRequest_test_def GetRequest_pop_def inflight_def bindE_Inr
            split: worker_pc.splits list.splits if_splits)
  qed
qed

lemma quiet_pending: "quiet s s' \<Longrightarrow> pending s' = pending s"
  by (auto simp: quiet_def pending_def)

lemma quiet_one_worker:
  assumes q: "quiet s s'" and w: "worker s = [w]" "w_proxy w = p" "w_pc w = WPop \<longrightarrow> reqQueue s \<noteq> []"
  shows "worker s' = [] \<or> (\<exists>w'. worker s' = [w'] \<and> w_proxy w' = p \<and> (w_pc w' = WPop \<longrightarrow> reqQueue s' \<noteq> []))"
proof (cases "worker s' = []")
  case False
  then have f: "map w_proxy (worker s') = [p]" "reqQueue s' = reqQueue s"
      "reqQueue s = [] \<longrightarrow> (\<forall>w'\<in>set (worker s'). w_pc w' = WPop \<longrightarrow> w' \<in> set (worker s))"
    using q w(1,2) by (simp_all add: quiet_def)
  obtain w' where w': "worker s' = [w']" "w_proxy w' = p" using f(1) by auto
  have "w_pc w' = WPop \<longrightarrow> reqQueue s' \<noteq> []" using f(2,3) w w' by auto
  then show ?thesis using w' by blast
qed simp

lemma fifo_quiet:
  assumes inv: "fifo_inv a p0 s" and q: "quiet s s'"
  shows "fifo_inv a p0 s'"
proof -
  have f: "m_ptrListener s' = m_ptrListener s" "accepted s' = accepted s" "handled s' = handled s"
      "rspQueue s' = rspQueue s" "pending s' = pending s"
    using q quiet_pending [OF q] by (simp_all add: quiet_def)
  have "worker s' = []" if "worker s = []" using that q by (auto simp: quiet_def)
  then show ?thesis
    using inv quiet_one_worker [OF q] unfolding fifo_inv_def f by metis
qed

lemma fifo_step:
  assumes inv: "fifo_inv a p0 s" and ev: "exec_event a ev s = Inr (Some s')"
  shows "fifo_inv a p0 s'"
proof -
  obtain served p where v: "m_ptrListener s" "accepted s = served @ pending s"
      "serve_all a served p0 = Inr (handled s @ rspQueue s, p)"
      "worker s = [] \<or> (\<exists>w. worker s = [w] \<and> w_proxy w = p \<and> (w_pc w = WPop \<longrightarrow> reqQueue s \<noteq> []))"
    using inv by (auto simp: fifo_inv_def)
  from ev v(1) show ?thesis
  proof (cases rule: exec_event_cases)
    case silent
    then show ?thesis by (rule fifo_quiet [OF inv])
  next
    case (accept r)
    then show ?thesis using v by (auto simp: fifo_inv_def pending_def)
  next
    case (deliver n)
    then show ?thesis using v by (auto simp: fifo_inv_def pending_def)
  next
    case (pop i r rs)
    then obtain w where w: "worker s = [w]" "w_proxy w = p" "i = 0" using v(4) by auto
    have "pending s' = pending s" using pop w by (simp add: pending_def goto_def inflight_def)
    then show ?thesis using v(1-3) pop(4) w by (auto simp: fifo_inv_def goto_def)
  next
    case (answer i r out p')
    then obtain w where w: "worker s = [w]" "w_proxy w = p" "i = 0" using v(4) by auto
    have "pending s = r # pending s'" using answer w by (simp add: pending_def Response_def inflight_def)
    moreover have "serve_all a (served @ [r]) p0 = Inr (handled s @ rspQueue s @ [out], p')"
      using serve_all_snoc [OF v(3)] answer(3) w by simp
    ultimately show ?thesis
      using v(1,2) answer(4) w
      by (auto simp: fifo_inv_def Response_def intro!: exI [of _ "served @ [r]"])
  qed
qed

lemma fifo_fault:
  assumes inv: "fifo_inv a p0 s" and ev: "exec_event a ev s = Inl e"
  shows "\<exists>reqs. serve_all a reqs p0 = Inl e"
proof -
  obtain served p where v: "serve_all a served p0 = Inr (handled s @ rspQueue s, p)"
      "worker s = [] \<or> (\<exists>w. worker s = [w] \<and> w_proxy w = p \<and> (w_pc w = WPop \<longrightarrow> reqQueue s \<noteq> []))"
    using inv by (auto simp: fifo_inv_def)
  obtain i where W: "Working a i s = Inl e" using ev by (auto simp: exec_event_def split: event.splits)
  then have "i < length (worker s)" by (auto simp: Working_def split: if_splits)
  then obtain w where w: "worker s = [w]" "w_proxy w = p" "w_pc w = WPop \<longrightarrow> reqQueue s \<noteq> []" "i = 0"
    using v(2) by auto
  then obtain r where "DispatchReq a r p = Inl e"
    using W by (auto simp: Working_def GetRequest_pop_def bindE_Inl split: worker_pc.splits list.splits)
  then show ?thesis using serve_all_snoc [OF v(1), of r] by (intro exI [of _ "served @ [r]"]) simp
qed

lemma started_fifo: "fifo_inv a p0 (started [p0] m)"
  by (auto simp: fifo_inv_def started_def Start_def pending_def inflight_def intro!: exI [of _ "[]"])

lemma one_worker_fifo:
  assumes "agent_run a (started [p0] m) evs r"
  shows "case r of Inr s \<Rightarrow> fifo_inv a p0 s | Inl e \<Rightarrow> \<exists>reqs. serve_all a reqs p0 = Inl e"
  using assms
proof (induction rule: agent_run.induct)
  case run_nil
  then show ?case by (simp add: started_fifo)
next
  case (run_step evs t ev u)
  then show ?case using fifo_step by auto
next
  case (run_fault evs t ev e)
  then show ?case using fifo_fault by auto
qed

text \<open>
  C10.  With one connection the agent implements a queue, in spite of the unlocked test in
  \<open>GetRequest\<close>: whatever the interleaving of the main thread and the worker, the accepted
  requests split into those served and those pending, in order, and the responses delivered to
  the listener or still queued are exactly those of serving the first part one after the other.
  The run faults only where serving the requests in sequence faults.
\<close>

theorem one_worker_refines_queue:
  assumes "agent_run a (started [p0] m) evs r"
  shows "case r of
      Inr s \<Rightarrow> \<exists>served p. accepted s = served @ pending s
                 \<and> serve_all a served p0 = Inr (handled s @ rspQueue s, p)
    | Inl e \<Rightarrow> \<exists>reqs. serve_all a reqs p0 = Inl e"
  using one_worker_fifo [OF assms] by (auto simp: fifo_inv_def split: sum.splits)

definition demo_api :: "unit mysql_api" where
  "demo_api = \<lparr>mysql_lib_of = demo_lib, mysql_init = Some (), mysql_options = (\<lambda>_ _ d. d),
     mysql_real_connect = (\<lambda>_ d. (True, d)), mysql_set_character_set = (\<lambda>_ d. (0, d)),
     mysql_autocommit = (\<lambda>d. (0, d)), mysql_query = (\<lambda>_ d. (0, d)), mysql_errno = (\<lambda>_. 0),
     mysql_store_result = (\<lambda>_. Some ([], None)), ER_DUP_ENTRY = 1062\<rparr>"

definition demo_proxy :: "unit MysqlProxy" where
  "demo_proxy = \<lparr>conn = Some (), tableMetas = [''Role'' \<mapsto> demo_meta],
     rsp = \<lparr>rs_tblname = [], rs_op = 0, rs_data = [], rs_cb = [], rs_ret = 0\<rparr>\<rparr>"

definition demo_delete :: MysqlRequest where
  "demo_delete = \<lparr>rq_tblname = ''Role'', rq_op = MYSQL_REQ_DELETE, rq_where = ''id = 5'', rq_data = [],
     rq_fields = [], rq_cb = [7]\<rparr>"

definition demo_deleted :: MysqlResponse where
  "demo_deleted = \<lparr>rs_tblname = ''Role'', rs_op = MYSQL_REQ_DELETE, rs_data = [], rs_cb = [7], rs_ret = MYSQL_RESULT_OK\<rparr>"

lemma demo_dispatch:
  "DispatchReq demo_api demo_delete demo_proxy = Inr (demo_deleted, demo_proxy\<lparr>rsp := demo_deleted\<rparr>)"
  by (simp add: DispatchReq_def run_request_def MysqlProxy_Delete_def GetTableMeta_def ExecuteSQL_def
        demo_api_def demo_proxy_def demo_delete_def demo_deleted_def req_types Let_def)

text \<open>The request is queued, popped, served and delivered.\<close>

lemmas exec_simps = exec_event_def Request_def Notify_def Polling_def HandleRsp_def Working_def goto_def
  wake_def sleeping_def GetRequest_test_def GetRequest_pop_def Response_def started_def Start_def

definition demo_events :: "event list" where
  "demo_events = [ERequest demo_delete, ENotify 0, EWork 0, EWork 0, EWork 0, EWork 0, EPolling 5]"

lemma demo_run:
  "\<exists>s. agent_run demo_api (started [demo_proxy] 32) demo_events (Inr s)
     \<and> accepted s = [demo_delete] \<and> handled s = [demo_deleted] \<and> pending s = [] \<and> rspQueue s = []"
proof -
  obtain s where s: "exec_run demo_api demo_events (started [demo_proxy] 32) = Inr (Some s)"
      "accepted s = [demo_delete]" "handled s = [demo_deleted]" "pending s = []" "rspQueue s = []"
    by (simp add: demo_events_def exec_simps demo_dispatch pending_def inflight_def)
  then show ?thesis using exec_run_run(1) [OF s(1)] by blast
qed

theorem one_worker_refines_queue_witness:
  "\<exists>s served p. agent_run demo_api (started [demo_proxy] 32) demo_events (Inr s)
     \<and> accepted s = served \<and> handled s = [demo_deleted] \<and> serve_all demo_api served demo_proxy = Inr (handled s, p)"
proof -
  obtain s where s: "agent_run demo_api (started [demo_proxy] 32) demo_events (Inr s)"
      "accepted s = [demo_delete]" "handled s = [demo_deleted]" "pending s = []" "rspQueue s = []"
    using demo_run by blast
  obtain served p where "accepted s = served @ pending s"
      "serve_all demo_api served demo_proxy = Inr (handled s @ rspQueue s, p)"
    using one_worker_refines_queue [OF s(1)] by auto
  then show ?thesis using s by auto
qed

section \<open>Any number of workers\<close>

text \<open>What identifies a request for the listener: table, operation and callback data.\<close>

definition req_key :: "MysqlRequest \<Rightarrow> string \<times> int \<times> byte list" where
  "req_key r = (rq_tblname r, rq_op r, rq_cb r)"

definition rsp_key :: "MysqlResponse \<Rightarrow> string \<times> int \<times> byte list" where
  "rsp_key r = (rs_tblname r, rs_op r, rs_cb r)"

definition balanced :: "'db MysqlAgent \<Rightarrow> bool" where
  "balanced s \<longleftrightarrow> m_ptrListener s \<and> mset (map req_key (accepted s))
     = mset (map req_key (pending s)) + mset (map rsp_key (handled s @ rspQueue s))"

lemma mset_concat_update:
  "i < length ws \<Longrightarrow> mset (concat (map f (ws[i := w]))) + mset (f (ws ! i)) = mset (concat (map f ws)) + mset (f w)"
proof (induction ws arbitrary: i)
  case Nil
  then show ?case by simp
next
  case (Cons x xs)
  show ?case
  proof (cases i)
    case (Suc k)
    then show ?thesis using Cons.IH [of k] Cons.prems by simp
  qed simp
qed

lemma balanced_step:
  assumes inv: "balanced s" and ev: "exec_event a ev s = Inr (Some s')"
  shows "balanced s'"
proof -
  have "m_ptrListener s" using inv by (simp add: balanced_def)
  from ev this show ?thesis
  proof (cases rule: exec_event_cases)
    case silent
    then show ?thesis using inv quiet_pending [OF silent] by (simp add: balanced_def quiet_def)
  next
    case (accept r)
    then show ?thesis using inv by (simp add: balanced_def pending_def)
  next
    case (deliver n)
    have "mset (map rsp_key (take n (rspQueue s))) + mset (map rsp_key (drop n (rspQueue s)))
        = mset (map rsp_key (rspQueue s))"
      by (metis append_take_drop_id map_append mset_append)
    then show ?thesis using inv deliver by (simp add: balanced_def pending_def add.assoc)
  next
    case (pop i r rs)
    have "inflight (worker s ! i) = []" "inflight ((worker s ! i)\<lparr>w_pc := WRun r\<rparr>) = [r]"
      using pop(2) by (simp_all add: inflight_def)
    then have "mset (pending s') = mset (pending s)"
      using mset_concat_update [OF pop(1), of inflight "(worker s ! i)\<lparr>w_pc := WRun r\<rparr>"] pop(3,4)
      by (simp add: pending_def goto_def)
    then show ?thesis using inv pop(4) by (simp add: balanced_def goto_def)
  next
    case (answer i r out p')
    let ?w = "\<lparr>w_pc = WTop, w_proxy = p'\<rparr>"
    have "inflight (worker s ! i) = [r]" "inflight ?w = []" using answer(2) by (simp_all add: inflight_def)
    then have "mset (pending s) = add_mset r (mset (pending s'))"
      using mset_concat_update [OF answer(1), of inflight ?w] answer(4) by (simp add: pending_def Response_def)
    moreover have "rsp_key out = req_key r"
      using DispatchReq_answers [OF answer(3)] by (simp add: rsp_key_def req_key_def)
    ultimately show ?thesis using inv answer(4) by (simp add: balanced_def Response_def)
  qed
qed

text \<open>
  C12.  With any number of workers, no request is lost and none is answered twice: at every
  moment of every run without a fault, the accepted requests are, as a multiset of table,
  operation and callback data, those still queued or in the hands of a worker together with
  those whose response is queued or has been passed to the listener.
\<close>

theorem requests_answered_once:
  assumes "agent_run a (started ps m) evs (Inr s)"
  shows "mset (map req_key (accepted s))
    = mset (map req_key (pending s)) + mset (map rsp_key (handled s @ rspQueue s))"
proof -
  have "balanced s" using assms
  proof (induction evs "Inr s :: fault + 'a MysqlAgent" arbitrary: s rule: agent_run.induct)
    case run_nil
    have "concat (map inflight (map (\<lambda>p. \<lparr>w_pc = WTop, w_proxy = p\<rparr>) ps)) = []" by (simp add: inflight_def)
    then show ?case by (simp add: balanced_def started_def Start_def pending_def)
  next
    case (run_step evs t ev u)
    then show ?case using balanced_step by blast
  qed
  then show ?thesis by (simp add: balanced_def)
qed

theorem requests_answered_once_witness:
  "\<exists>s. agent_run demo_api (started [demo_proxy] 32) demo_events (Inr s)
     \<and> mset (map req_key [demo_delete]) = mset (map rsp_key (handled s)) \<and> handled s = [demo_deleted]"
proof -
  obtain s where s: "agent_run demo_api (started [demo_proxy] 32) demo_events (Inr s)"
      "accepted s = [demo_delete]" "handled s = [demo_deleted]" "pending s = []" "rspQueue s = []"
    using demo_run by blast
  show ?thesis using requests_answered_once [OF s(1)] s by (intro exI [of _ s]) simp
qed

section \<open>The races\<close>

text \<open>
  Two workers can race for one request.  \<open>GetRequest\<close> tests the queue before it takes the
  lock: both workers find it non-empty, the first pops the only request, the second reads the
  front of an empty list.
\<close>

lemma two_workers_pop_empty:
  assumes "0 < m"
  shows "agent_run a (started [p, q] m)
    [EWork 0, EWork 1, ERequest r, ENotify 0, EWork 0, EWork 1, EWork 0, EWork 1] (Inl OutOfBounds)"
  by (rule exec_run_run(2)) (use assms in \<open>simp add: exec_simps\<close>)

lemma two_workers_pop_empty_witness:
  "agent_run demo_api (started [demo_proxy, demo_proxy] 32)
     [EWork 0, EWork 1, ERequest demo_delete, ENotify 0, EWork 0, EWork 1, EWork 0, EWork 1] (Inl OutOfBounds)"
  by (rule two_workers_pop_empty) simp

text \<open>
  A wake-up can be lost.  A worker that found the queue empty holds no lock until it waits.
  When the main thread queues a request and notifies in between, nobody is waiting yet; the
  worker then sleeps on a non-empty queue.  When the main thread stops the agent in between, the
  worker sleeps through \<open>NotifyAll\<close> and the join never returns: only a spurious wake-up is left.
\<close>

lemma wakeup_lost:
  assumes "0 < m"
  shows "\<exists>s t. agent_run a (started [p] m) [EWork 0, EWork 0, ERequest r, ENotify 0, EWork 0] (Inr s)
      \<and> reqQueue s = [r] \<and> main_at s = MIdle \<and> Working a 0 s = Inr None
    \<and> agent_run a (started [p] m) [EWork 0, EWork 0, EStop, ENotifyAll, EWork 0] (Inr t)
      \<and> main_at t = MJoin \<and> (\<forall>ev u. exec_event a ev t = Inr (Some u) \<longrightarrow> ev = ESpurious 0)"
proof -
  obtain s where s: "exec_run a [EWork 0, EWork 0, ERequest r, ENotify 0, EWork 0] (started [p] m) = Inr (Some s)"
      "reqQueue s = [r]" "main_at s = MIdle" "Working a 0 s = Inr None"
    using assms by (simp add: exec_simps)
  obtain t where t: "exec_run a [EWork 0, EWork 0, EStop, ENotifyAll, EWork 0] (started [p] m) = Inr (Some t)"
      "main_at t = MJoin" "worker t = [\<lparr>w_pc = WSleep, w_proxy = p\<rparr>]"
    by (simp add: exec_simps NotifyAll_def)
  have blocked: "Working a i t = Inr None" for i by (cases i) (simp_all add: Working_def t(3))
  have "ev = ESpurious 0" if "exec_event a ev t = Inr (Some u)" for ev u
    using that t(2,3) blocked by (auto simp: exec_event_def split: event.splits if_splits)
  then show ?thesis using s t exec_run_run(1) by blast
qed

lemma wakeup_lost_witness:
  "\<exists>s t. agent_run demo_api (started [demo_proxy] 32) [EWork 0, EWork 0, ERequest demo_delete, ENotify 0, EWork 0] (Inr s)
     \<and> reqQueue s = [demo_delete] \<and> Working demo_api 0 s = Inr None
     \<and> agent_run demo_api (started [demo_proxy] 32) [EWork 0, EWork 0, EStop, ENotifyAll, EWork 0] (Inr t) \<and> main_at t = MJoin"
  using wakeup_lost [of 32 demo_api demo_proxy demo_delete] by auto

end
