(* ===== verification/DBAgent.thy ===== *)
theory DBAgent
  imports DataCommon MetaSerializer MysqlAgent "HOL-Library.Char_ord" "HOL-Library.List_Lexorder"
begin

text \<open>
  The database agent (\<open>datacenter/DBAgent.h/.cpp\<close>, \<open>DataListener.h\<close>, \<open>DataCommon.h\<close>): it turns
  protobuf objects into MySQL requests and responses back into objects, keeps the objects read
  in a cache by primary key, and tells the listener of a table what happened.

  Protobuf, the MySQL library and the listeners are parameters.  A call of a listener is a value
  of \<open>listener_call\<close>; its return code comes from the parameter \<open>L\<close>.  Where the source asks the
  serialiser for the primary key, the model uses \<open>primary_key\<close>, which is what the cached lookup
  returns (see theory \<open>MetaSerializer\<close>).
\<close>

section \<open>Data\<close>

text \<open>A listener pointer may be null: \<open>m_mpListener[typeName]\<close> enters a null pointer.\<close>

record ('l, 'o, 'db) DBAgent =
  mysql :: "'db MysqlAgent"
  m_mpGetObjects :: "string \<rightharpoonup> 'o option"
  m_ptrTmpObj :: "'o option"
  m_mpListener :: "string \<rightharpoonup> 'l option"
  m_setTableType :: "string list"

definition GetMetaNameSpace :: string where
  "GetMetaNameSpace = ''db''"

section \<open>Registration and start\<close>

text \<open>\<open>std::set<string>\<close>: a sorted list without duplicates.\<close>

definition RegisterTable :: "string \<Rightarrow> ('l, 'o, 'db) DBAgent \<Rightarrow> ('l, 'o, 'db) DBAgent" where
  "RegisterTable t d = d\<lparr>m_setTableType := (if t \<in> set (m_setTableType d) then m_setTableType d
                                            else insort t (m_setTableType d))\<rparr>"

definition AddListener :: "string \<Rightarrow> 'l option \<Rightarrow> ('l, 'o, 'db) DBAgent \<Rightarrow> int \<times> ('l, 'o, 'db) DBAgent" where
  "AddListener t ptr d =
     (case m_mpListener d t of
        Some (Some _) \<Rightarrow> (-1, d)
      | _ \<Rightarrow> (0, let d1 = RegisterTable t d in d1\<lparr>m_mpListener := (m_mpListener d1)(t \<mapsto> ptr)\<rparr>))"

definition field_type :: "CppType \<Rightarrow> int" where
  "field_type t =
     (case t of
        CPPTYPE_BOOL \<Rightarrow> VAL_TYPE_INT32 | CPPTYPE_ENUM \<Rightarrow> VAL_TYPE_INT32 | CPPTYPE_INT32 \<Rightarrow> VAL_TYPE_INT32
      | CPPTYPE_INT64 \<Rightarrow> VAL_TYPE_INT64 | CPPTYPE_STRING \<Rightarrow> VAL_TYPE_VARCHAR
      | CPPTYPE_UINT32 \<Rightarrow> VAL_TYPE_UINT32 | CPPTYPE_UINT64 \<Rightarrow> VAL_TYPE_UINT64
      | CPPTYPE_FLOAT \<Rightarrow> VAL_TYPE_REAL32 | CPPTYPE_DOUBLE \<Rightarrow> VAL_TYPE_REAL64
      | CPPTYPE_MESSAGE \<Rightarrow> VAL_TYPE_BLOB)"

definition field_meta :: "Descriptor \<Rightarrow> FieldDescriptor \<Rightarrow> MysqlFieldMeta" where
  "field_meta desc field =
     MysqlFieldMeta_Init\<lparr>
       fm_name := fld_name field,
       ispk := fld_name field \<in> set (primary_key desc),
       fm_type := field_type (cpp_type field),
       maxlen := (if cpp_type field = CPPTYPE_STRING then GetFieldMaxLength (Some desc) (fld_name field) else 0),
       typeName := (if cpp_type field = CPPTYPE_MESSAGE then message_full_name field else type_name field)\<rparr>"

text \<open>\<open>None\<close> is the failure \<open>-1\<close>: a table without a descriptor or without a primary key.\<close>

fun GenerateMysqlMetas :: "'o protobuf \<Rightarrow> string list \<Rightarrow> MysqlMeta list option" where
  "GenerateMysqlMetas pb [] = Some []"
| "GenerateMysqlMetas pb (t # ts) =
     (case GetDescriptor pb (GetMetaNameSpace @ ''.'' @ t) of
        None \<Rightarrow> None
      | Some desc \<Rightarrow>
          if primary_key desc = [] then None
          else map_option (\<lambda>ms. \<lparr>tblname = t, cols = map (field_meta desc) (desc_fields desc)\<rparr> # ms)
                 (GenerateMysqlMetas pb ts))"

definition DBAgent_CreateTable :: "string \<Rightarrow> ('l, 'o, 'db) DBAgent \<Rightarrow> int \<times> ('l, 'o, 'db) DBAgent" where
  "DBAgent_CreateTable name d =
     (let (r, m) = Request \<lparr>rq_tblname = name, rq_op = MYSQL_REQ_CREATE_TB, rq_where = [], rq_data = [],
                            rq_fields = [], rq_cb = []\<rparr> (mysql d) in
      (r, d\<lparr>mysql := m\<rparr>))"

definition DBAgent_Init ::
  "'o protobuf \<Rightarrow> 'db mysql_api \<Rightarrow> MysqlProxyOption list \<Rightarrow> bool \<Rightarrow> ('l, 'o, 'db) DBAgent
     \<Rightarrow> fault + int \<times> ('l, 'o, 'db) DBAgent" where
  "DBAgent_Init pb a addrList createTable d =
     (case GenerateMysqlMetas pb (m_setTableType d) of
        None \<Rightarrow> Inr (-1, d)
      | Some metas \<Rightarrow>
          bindE (MysqlAgent_Init a addrList metas 32 (SetListener True (mysql d))) (\<lambda>(r, m).
            if r \<noteq> 0 then Inr (-1, d\<lparr>mysql := m\<rparr>)
            else
              let d1 = d\<lparr>mysql := MysqlAgent.Start m\<rparr> in
              Inr (0, if createTable
                      then foldl (\<lambda>d t. snd (DBAgent_CreateTable t d)) d1 (m_setTableType d1) else d1)))"

definition DBAgent_Polling :: "int \<Rightarrow> ('l, 'o, 'db) DBAgent \<Rightarrow> int \<times> ('l, 'o, 'db) DBAgent" where
  "DBAgent_Polling n d = (let (r, m) = Polling n (mysql d) in (r, d\<lparr>mysql := m\<rparr>))"

section \<open>From objects to rows\<close>

text \<open>A getter on a value of its own type.\<close>

fun value_field :: "'o protobuf \<Rightarrow> MysqlField \<Rightarrow> 'o pb_value \<Rightarrow> MysqlField option" where
  "value_field pb f (PInt32 v) = Some (f\<lparr>fd_type := VAL_TYPE_INT32, u_data := set_low32 v (u_data f)\<rparr>)"
| "value_field pb f (PInt64 v) = Some (f\<lparr>fd_type := VAL_TYPE_INT64, u_data := v\<rparr>)"
| "value_field pb f (PUInt32 v) = Some (f\<lparr>fd_type := VAL_TYPE_UINT32, u_data := set_low32 v (u_data f)\<rparr>)"
| "value_field pb f (PUInt64 v) = Some (f\<lparr>fd_type := VAL_TYPE_UINT64, u_data := v\<rparr>)"
| "value_field pb f (PFloat v) = Some (f\<lparr>fd_type := VAL_TYPE_REAL32, u_data := set_low32 v (u_data f)\<rparr>)"
| "value_field pb f (PDouble v) = Some (f\<lparr>fd_type := VAL_TYPE_REAL64, u_data := v\<rparr>)"
| "value_field pb f (PBool b) =
     Some (f\<lparr>fd_type := VAL_TYPE_INT32, u_data := set_low32 (if b then 1 else 0) (u_data f)\<rparr>)"
| "value_field pb f (PEnum v) = Some (f\<lparr>fd_type := VAL_TYPE_INT32, u_data := set_low32 v (u_data f)\<rparr>)"
| "value_field pb f (PString s) = Some (f\<lparr>fd_type := VAL_TYPE_VARCHAR, buffer := s @ [CHR 0x00]\<rparr>)"
| "value_field pb f (PMessage m) =
     (case pb_Serialize pb m of
        None \<Rightarrow> None
      | Some bytes \<Rightarrow> Some (f\<lparr>fd_type := VAL_TYPE_BLOB, buffer := bytes\<rparr>))"

text \<open>
  The loop over the fields.  The local \<open>dbfield\<close> keeps name and type of the field before; a
  message that does not serialise ends the loop with \<open>-1\<close> and what was collected so far.
\<close>

fun fields_loop ::
  "'o protobuf \<Rightarrow> 'o \<Rightarrow> string list \<Rightarrow> MysqlField \<Rightarrow> FieldDescriptor list \<Rightarrow> int \<times> MysqlField list" where
  "fields_loop pb obj sel dbfield [] = (0, [])"
| "fields_loop pb obj sel dbfield (fd # fds) =
     (let f = MysqlField_Init dbfield in
      if sel = [] \<or> fld_name fd \<in> set sel then
        (case value_field pb (f\<lparr>fd_name := fld_name fd\<rparr>) (pb_Get pb obj (fld_name fd)) of
           None \<Rightarrow> (-1, [])
         | Some f' \<Rightarrow> (case fields_loop pb obj sel f' fds of (r, fs) \<Rightarrow> (r, f' # fs)))
      else fields_loop pb obj sel f fds)"

definition GenerateMysqlFields :: "'o protobuf \<Rightarrow> 'o \<Rightarrow> string list \<Rightarrow> int \<times> MysqlField list" where
  "GenerateMysqlFields pb obj sel =
     fields_loop pb obj sel empty_field (desc_fields (pb_GetDescriptor pb obj))"

section \<open>Keys\<close>

text \<open>\<open>snprintf\<close> into \<open>char keyBuffer[512]\<close>; \<open>None\<close> for the types that are not supported.\<close>

definition keyBuffer :: "string \<Rightarrow> string" where
  "keyBuffer s = take 511 s"

fun key_text :: "'o pb_value \<Rightarrow> string option" where
  "key_text (PInt32 v) = Some (keyBuffer (show_int (sint v)))"
| "key_text (PInt64 v) = Some (keyBuffer (show_int (sint v)))"
| "key_text (PEnum v) = Some (keyBuffer (show_int (sint v)))"
| "key_text (PUInt32 v) = Some (keyBuffer (show_int (uint v)))"
| "key_text (PUInt64 v) = Some (keyBuffer (show_int (uint v)))"
| "key_text (PString s) = Some (keyBuffer ([CHR 0x27] @ c_str s @ [CHR 0x27]))"
| "key_text _ = None"

text \<open>
  The loop over the primary key.  \<open>sep\<close> goes between two columns and \<open>part\<close> builds one; the key
  is passed by reference and keeps what was built before a failure.
\<close>

fun key_loop ::
  "'o protobuf \<Rightarrow> 'o \<Rightarrow> string \<Rightarrow> (string \<Rightarrow> string \<Rightarrow> string) \<Rightarrow> string list \<Rightarrow> bool \<Rightarrow> string \<Rightarrow> fault + int \<times> string" where
  "key_loop pb obj sep part [] first key = Inr (0, key)"
| "key_loop pb obj sep part (pk # pks) first key =
     (let key1 = (if first then key else key @ sep) in
      case FindFieldByName (pb_GetDescriptor pb obj) pk of
        None \<Rightarrow> Inl NullDeref
      | Some field \<Rightarrow>
          if \<not> pb_HasField pb obj pk then Inr (-1, key1)
          else
            (case key_text (pb_Get pb obj pk) of
               None \<Rightarrow> Inr (-1, key1)
             | Some t \<Rightarrow> key_loop pb obj sep part pks False (key1 @ part pk t)))"

definition GetObjectKey :: "'o protobuf \<Rightarrow> 'o \<Rightarrow> fault + int \<times> string" where
  "GetObjectKey pb obj =
     (let pks = primary_key (pb_GetDescriptor pb obj) in
      if pks = [] then Inr (-1, []) else key_loop pb obj '':'' (\<lambda>_ t. t) pks True [])"

definition GetPrimaryKeyCond :: "'o protobuf \<Rightarrow> 'o \<Rightarrow> fault + int \<times> string" where
  "GetPrimaryKeyCond pb obj =
     (let pks = primary_key (pb_GetDescriptor pb obj) in
      if pks = [] then Inr (-1, []) else key_loop pb obj '' AND '' (\<lambda>pk t. pk @ '' = '' @ t) pks True [])"

section \<open>From rows to objects\<close>

text \<open>
  One column of a response, with the description found for the table; \<open>Some code\<close> ends the loop.
\<close>

definition set_column ::
  "'o protobuf \<Rightarrow> MysqlMeta option \<Rightarrow> MysqlField \<Rightarrow> 'o \<Rightarrow> fault + int option \<times> 'o" where
  "set_column pb tableMeta mf obj =
     (case tableMeta of
        None \<Rightarrow> Inr (Some DATA_UNPACK_ERROR, obj)
      | Some meta \<Rightarrow>
          (case GetFieldMeta meta (fd_name mf) of
             None \<Rightarrow> Inr (Some DATA_UNPACK_ERROR, obj)
           | Some fieldMeta \<Rightarrow>
               let t = fd_type mf;
                   put = (\<lambda>v. bindE (SetObjectField pb obj (fd_name mf) v) (\<lambda>(_, o'). Inr (None, o'))) in
               if t = VAL_TYPE_BLOB then
                 if buffer mf = [] then Inr (None, obj)
                 else
                   (case UnPack pb (typeName fieldMeta) (buffer mf) of (r, fieldObj) \<Rightarrow>
                      if r \<noteq> 0 then Inr (Some DATA_UNPACK_ERROR, obj)
                      else (case fieldObj of None \<Rightarrow> Inl NullDeref | Some fo \<Rightarrow> put (PMessage fo)))
               else if t = VAL_TYPE_INT32 then put (PInt32 (field_u32 mf))
               else if t = VAL_TYPE_INT64 then put (PInt64 (u_data mf))
               else if t = VAL_TYPE_UINT32 then put (PUInt32 (field_u32 mf))
               else if t = VAL_TYPE_UINT64 then put (PUInt64 (u_data mf))
               else if t = VAL_TYPE_REAL32 then put (PFloat (field_u32 mf))
               else if t = VAL_TYPE_REAL64 then put (PDouble (u_data mf))
               else if t = VAL_TYPE_VARCHAR \<or> t = VAL_TYPE_TEXT then
                 bindE (text_value (buffer mf)) (\<lambda>s. put (PString s))
               else if t = VAL_TYPE_DATETIME then put (PUInt32 (field_u32 mf))
               else Inr (None, obj)))"

fun set_columns ::
  "'o protobuf \<Rightarrow> MysqlMeta option \<Rightarrow> MysqlField list \<Rightarrow> 'o \<Rightarrow> fault + int option \<times> 'o" where
  "set_columns pb tableMeta [] obj = Inr (None, obj)"
| "set_columns pb tableMeta (mf # mfs) obj =
     bindE (set_column pb tableMeta mf obj) (\<lambda>(e, obj').
       case e of Some c \<Rightarrow> Inr (Some c, obj') | None \<Rightarrow> set_columns pb tableMeta mfs obj')"

text \<open>
  \<open>CreateObjectFromMysql\<close>: the object goes into the cache under its key, or is kept as the last
  object when it has no key.  A type without a prototype is a null pointer.
\<close>

definition CreateObjectFromMysql ::
  "'o protobuf \<Rightarrow> MysqlResponse \<Rightarrow> ('l, 'o, 'db) DBAgent \<Rightarrow> fault + int \<times> 'o option \<times> ('l, 'o, 'db) DBAgent" where
  "CreateObjectFromMysql pb res d =
     (if rs_ret res \<noteq> MYSQL_RESULT_OK \<or> rs_data res = [] then Inr (DATA_INTERNAL_ERR, None, d)
      else
        (case NewObject pb (GetMetaNameSpace @ ''.'' @ rs_tblname res) of
           None \<Rightarrow> Inl NullDeref
         | Some obj \<Rightarrow>
             bindE (set_columns pb (agent_GetTableMeta (rs_tblname res) (mysql d)) (rs_data res) obj) (\<lambda>(e, obj').
               case e of
                 Some c \<Rightarrow> Inr (c, None, d)
               | None \<Rightarrow>
                   bindE (GetObjectKey pb obj') (\<lambda>(r, key).
                     Inr (0, Some obj',
                       if r \<noteq> 0 then d\<lparr>m_ptrTmpObj := Some obj'\<rparr>
                       else d\<lparr>m_mpGetObjects := (m_mpGetObjects d)(key \<mapsto> Some obj')\<rparr>)))))"

section \<open>Responses\<close>

definition data_code :: "int \<Rightarrow> int" where
  "data_code ret =
     (if ret = MYSQL_RESULT_NO_DATA then DATA_NO_EXISTS
      else if ret = MYSQL_RESULT_TIMEOUT then DATA_TIME_OUT
      else if ret = MYSQL_RESULT_ALREADY_EXIST then DATA_ALREADY_EXISTS
      else if ret \<noteq> MYSQL_RESULT_OK then DATA_MYSQL_ERR_START + ret
      else ret)"

text \<open>\<open>DispatchResult\<close>: its return code, the call it makes, and the state.\<close>

definition DispatchResult ::
  "'o protobuf \<Rightarrow> (('l, 'o) listener_call \<Rightarrow> int) \<Rightarrow> MysqlResponse \<Rightarrow> ('l, 'o, 'db) DBAgent
     \<Rightarrow> fault + int \<times> ('l, 'o) listener_call list \<times> ('l, 'o, 'db) DBAgent" where
  "DispatchResult pb L res d =
     (let ret = data_code (rs_ret res); cb = rs_cb res; call = (\<lambda>c d'. Inr (L c, [c], d')) in
      case m_mpListener d (rs_tblname res) of
        None \<Rightarrow> Inr (-1, [], d)
      | Some ptr \<Rightarrow>
          if rs_op res = MYSQL_REQ_SELECT then
            bindE (if ret = MYSQL_RESULT_OK then CreateObjectFromMysql pb res d else Inr (ret, None, d))
              (\<lambda>(ret', obj, d'). case ptr of None \<Rightarrow> Inl NullDeref | Some l \<Rightarrow> call (OnGet l ret' obj cb) d')
          else if rs_op res = MYSQL_REQ_UPDATE then
            (case ptr of None \<Rightarrow> Inl NullDeref | Some l \<Rightarrow> call (OnUpdate l ret cb) d)
          else if rs_op res = MYSQL_REQ_INSERT then
            (case ptr of None \<Rightarrow> Inl NullDeref | Some l \<Rightarrow> call (OnInsert l ret cb) d)
          else if rs_op res = MYSQL_REQ_DELETE then
            (case ptr of None \<Rightarrow> Inl NullDeref | Some l \<Rightarrow> call (OnRemove l ret cb) d)
          else if rs_op res = MYSQL_REQ_CREATE_TB then
            (case ptr of None \<Rightarrow> Inl NullDeref | Some l \<Rightarrow> call (OnCreateTable l (rs_tblname res) ret) d)
          else Inr (-1, [], d))"

section \<open>The cache of objects\<close>

definition FindObject :: "string \<Rightarrow> ('l, 'o, 'db) DBAgent \<Rightarrow> 'o option" where
  "FindObject key d =
     (if length key = 0 then None else case m_mpGetObjects d key of None \<Rightarrow> None | Some p \<Rightarrow> p)"

definition FindObject_obj :: "'o protobuf \<Rightarrow> 'o \<Rightarrow> ('l, 'o, 'db) DBAgent \<Rightarrow> fault + 'o option" where
  "FindObject_obj pb obj d =
     bindE (GetObjectKey pb obj) (\<lambda>(r, key). Inr (if r \<noteq> 0 then None else FindObject key d))"

text \<open>\<open>m_mpGetObjects[sEmpty]\<close> enters a null pointer under the empty key.\<close>

definition GetObjectPtr :: "'o protobuf \<Rightarrow> 'o \<Rightarrow> ('l, 'o, 'db) DBAgent \<Rightarrow> fault + 'o option \<times> ('l, 'o, 'db) DBAgent" where
  "GetObjectPtr pb obj d =
     bindE (GetObjectKey pb obj) (\<lambda>(r, key).
       let dflt = (case m_mpGetObjects d [] of None \<Rightarrow> None | Some p \<Rightarrow> p);
           d' = d\<lparr>m_mpGetObjects := (m_mpGetObjects d)([] \<mapsto> dflt)\<rparr> in
       if r \<noteq> 0 then Inr (dflt, d')
       else (case m_mpGetObjects d key of Some p \<Rightarrow> Inr (p, d) | None \<Rightarrow> Inr (dflt, d')))"

definition FreeObject :: "string \<Rightarrow> ('l, 'o, 'db) DBAgent \<Rightarrow> ('l, 'o, 'db) DBAgent" where
  "FreeObject key d = d\<lparr>m_mpGetObjects := (m_mpGetObjects d)(key := None)\<rparr>"

section \<open>Requests\<close>

text \<open>
  Every request copies the callback data into a buffer of its own; \<open>mk\<close> says whether the buffer
  could be created.  The status of \<open>GenerateMysqlFields\<close> is not looked at.
\<close>

definition post ::
  "(nat \<Rightarrow> bool) \<Rightarrow> 'o protobuf \<Rightarrow> 'o \<Rightarrow> int \<Rightarrow> string \<Rightarrow> string list \<Rightarrow> MysqlField list \<Rightarrow> byte list
     \<Rightarrow> ('l, 'o, 'db) DBAgent \<Rightarrow> int \<times> ('l, 'o, 'db) DBAgent" where
  "post mk pb obj op key sel data cb d =
     (if \<not> mk (length cb) then (-1, d)
      else
        let (r, m) = Request \<lparr>rq_tblname = GetTypeName pb obj, rq_op = op, rq_where = key, rq_data = data,
                              rq_fields = sel, rq_cb = cb\<rparr> (mysql d) in
        (if r \<noteq> 0 then -1 else 0, d\<lparr>mysql := m\<rparr>))"

definition DBAgent_Get ::
  "(nat \<Rightarrow> bool) \<Rightarrow> 'o protobuf \<Rightarrow> 'o \<Rightarrow> string list \<Rightarrow> byte list \<Rightarrow> string option \<Rightarrow> ('l, 'o, 'db) DBAgent
     \<Rightarrow> fault + int \<times> ('l, 'o, 'db) DBAgent" where
  "DBAgent_Get mk pb obj sel cb whereCond d =
     bindE (GetPrimaryKeyCond pb obj) (\<lambda>(r, key).
       if r = 0 then Inr (post mk pb obj MYSQL_REQ_SELECT key sel [] cb d)
       else (case whereCond of
               None \<Rightarrow> Inr (-1, d)
             | Some w \<Rightarrow> Inr (post mk pb obj MYSQL_REQ_SELECT w sel [] cb d)))"

definition DBAgent_Remove ::
  "(nat \<Rightarrow> bool) \<Rightarrow> 'o protobuf \<Rightarrow> 'o \<Rightarrow> byte list \<Rightarrow> ('l, 'o, 'db) DBAgent \<Rightarrow> fault + int \<times> ('l, 'o, 'db) DBAgent" where
  "DBAgent_Remove mk pb obj cb d =
     bindE (GetPrimaryKeyCond pb obj) (\<lambda>(r, key).
       if r \<noteq> 0 then Inr (-1, d) else Inr (post mk pb obj MYSQL_REQ_DELETE key [] [] cb d))"

definition DBAgent_Update ::
  "(nat \<Rightarrow> bool) \<Rightarrow> 'o protobuf \<Rightarrow> 'o \<Rightarrow> string list \<Rightarrow> byte list \<Rightarrow> ('l, 'o, 'db) DBAgent
     \<Rightarrow> fault + int \<times> ('l, 'o, 'db) DBAgent" where
  "DBAgent_Update mk pb obj sel cb d =
     bindE (GetPrimaryKeyCond pb obj) (\<lambda>(r, key).
       if r \<noteq> 0 then Inr (-1, d)
       else Inr (post mk pb obj MYSQL_REQ_UPDATE key sel (snd (GenerateMysqlFields pb obj sel)) cb d))"

definition DBAgent_Insert ::
  "(nat \<Rightarrow> bool) \<Rightarrow> 'o protobuf \<Rightarrow> 'o \<Rightarrow> byte list \<Rightarrow> ('l, 'o, 'db) DBAgent \<Rightarrow> fault + int \<times> ('l, 'o, 'db) DBAgent" where
  "DBAgent_Insert mk pb obj cb d =
     bindE (GetPrimaryKeyCond pb obj) (\<lambda>(r, key).
       if r \<noteq> 0 then Inr (-1, d)
       else Inr (post mk pb obj MYSQL_REQ_INSERT key [] (snd (GenerateMysqlFields pb obj [])) cb d))"

end
