(* ===== verification/DBAgentProps.thy ===== *)
theory DBAgentProps
  imports DBAgent
begin

text \<open>
  Properties of the database agent: objects survive the way through a table, responses reach
  their listener with the right code, and keys of different tables collide in the cache.
\<close>

section \<open>Objects through a table\<close>

text \<open>
  What the source relies on of protobuf: a setter on a field of its type changes this field only
  and keeps the message type.
\<close>

definition pb_laws :: "'o protobuf \<Rightarrow> bool" where
  "pb_laws pb \<longleftrightarrow> (\<forall>obj n v fd. FindFieldByName (pb_GetDescriptor pb obj) n = Some fd \<longrightarrow>
     value_type v = cpp_type fd \<longrightarrow>
       pb_GetDescriptor pb (pb_Set pb n v obj) = pb_GetDescriptor pb obj
       \<and> (\<forall>n'. pb_Get pb (pb_Set pb n v obj) n' = (if n' = n then v else pb_Get pb obj n')))"

text \<open>
  What it relies on of the database: a column holding an integer literal comes back as its
  decimal text, a column holding an escaped text comes back as the text.
\<close>

definition store_laws :: "mysql_lib \<Rightarrow> bool \<Rightarrow> (string \<Rightarrow> string) \<Rightarrow> bool" where
  "store_laws l cn store \<longleftrightarrow> (\<forall>n. store (show_int n) = show_int n)
     \<and> (\<forall>s. store ([CHR 0x27] @ c_str (escape_string l cn s) @ [CHR 0x27]) = s)"

text \<open>
  The values a table keeps: integers of at most nineteen characters, texts without NUL, messages
  that serialise to something that parses back.  Floating point numbers are rounded by \<open>%f\<close>.
\<close>

fun storable :: "'o protobuf \<Rightarrow> FieldDescriptor \<Rightarrow> 'o pb_value \<Rightarrow> bool" where
  "storable pb fd (PInt32 _) = True"
| "storable pb fd (PUInt32 _) = True"
| "storable pb fd (PInt64 x) = (length (show_int (sint x)) \<le> 19)"
| "storable pb fd (PUInt64 x) = (length (show_int (uint x)) \<le> 19)"
| "storable pb fd (PString s) = (CHR 0x00 \<notin> set s)"
| "storable pb fd (PMessage msg) = (\<exists>bytes. pb_Serialize pb msg = Some bytes \<and> bytes \<noteq> []
     \<and> UnPack pb (message_full_name fd) bytes = (0, Some msg))"
| "storable pb fd _ = False"

lemma kept_number_id: "length (show_int v) \<le> 19 \<Longrightarrow> kept_number v = v"
  by (simp add: kept_number_def)

lemma length_show_small:
  assumes "- 1000000000000000000 < v" "v < 1000000000000000000"
  shows "length (show_int v) \<le> 19"
proof -
  have "nat \<bar>v\<bar> < 10 ^ Suc 17" using assms by simp
  then show ?thesis using length_show_nat [of "nat \<bar>v\<bar>" 17] by (auto simp: show_int_def abs_if split: if_splits)
qed

lemma SetFieldValue_cong:
  "fd_name g = fd_name f \<Longrightarrow> GetFieldMeta m (fd_name f) = Some fm \<Longrightarrow> SetFieldValue l m g x = SetFieldValue l m f x"
proof -
  assume "fd_name g = fd_name f" "GetFieldMeta m (fd_name f) = Some fm"
  moreover have "(MysqlField_Init g)\<lparr>fd_name := fm_name fm, fd_type := fm_type fm\<rparr>
      = (MysqlField_Init f)\<lparr>fd_name := fm_name fm, fd_type := fm_type fm\<rparr>"
    by (simp add: MysqlField_Init_def)
  ultimately show ?thesis by (simp add: SetFieldValue_def)
qed

lemma set_low32_low [simp]: "(ucast (set_low32 v u) :: u32) = v"
  by (rule bit_word_eqI) (auto simp: set_low32_def bit_simps)

lemma field_u32_set [simp]: "field_u32 (f\<lparr>u_data := set_low32 v u\<rparr>) = v"
  by (simp add: field_u32_def)

text \<open>What a column read back puts into the object.\<close>

definition puts :: "'o protobuf \<Rightarrow> MysqlMeta \<Rightarrow> MysqlField \<Rightarrow> string \<Rightarrow> 'o pb_value \<Rightarrow> bool" where
  "puts pb m f n v \<longleftrightarrow> fd_name f = n \<and> (\<forall>obj. set_column pb (Some m) f obj
     = bindE (SetObjectField pb obj n v) (\<lambda>(_, o'). Inr (None, o')))"

text \<open>One value on its way: field, SQL text, stored text, field.\<close>

definition travels ::
  "'o protobuf \<Rightarrow> mysql_lib \<Rightarrow> bool \<Rightarrow> (string \<Rightarrow> string) \<Rightarrow> MysqlMeta \<Rightarrow> string \<Rightarrow> 'o pb_value \<Rightarrow> MysqlField \<Rightarrow> bool" where
  "travels pb l cn store m n v f \<longleftrightarrow> (\<exists>s. GetFieldValueSQL l cn m f = Inr s
     \<and> (\<exists>f2. (\<forall>g. fd_name g = n \<longrightarrow> SetFieldValue l m g (Some (store s)) = Inr (0, f2)) \<and> puts pb m f2 n v))"

lemma travels_number:
  assumes m: "GetFieldMeta m n = Some fm" "fm_type fm \<in> set number_types" "fd_name f = n"
    and st: "store_laws l cn store" and len: "length (show_int (field_number (fm_type fm) f)) \<le> 19"
    and put: "\<And>f2. fd_name f2 = n \<Longrightarrow> fd_type f2 = fm_type fm \<Longrightarrow>
      field_number (fm_type fm) f2 = field_number (fm_type fm) f \<Longrightarrow> puts pb m f2 n v"
  shows "travels pb l cn store m n v f"
proof -
  let ?v = "field_number (fm_type fm) f"
  have fm: "GetFieldMeta m (fd_name f) = Some fm" using m(1,3) by simp
  have "fm_name fm = n" using m(1) by (auto simp: GetFieldMeta_def find_Some_iff)
  then obtain f2 where f2: "GetFieldValueSQL l cn m f = Inr (show_int ?v)"
      "SetFieldValue l m f (Some (show_int ?v)) = Inr (0, f2)" "field_number (fm_type fm) f2 = ?v"
      "fd_name f2 = n" "fd_type f2 = fm_type fm"
    using number_roundtrip_step [OF fm refl m(2) refl, of l cn] kept_number_id [OF len] by auto
  have "SetFieldValue l m g (Some (store (show_int ?v))) = Inr (0, f2)" if "fd_name g = n" for g
    using SetFieldValue_cong [of g f m fm] that m(3) fm f2(2) st by (simp add: store_laws_def)
  then show ?thesis using f2 put unfolding travels_def by blast
qed

lemma puts_number:
  assumes "GetFieldMeta m (fd_name f) = Some fm" "fd_name f = n"
  shows "fd_type f = VAL_TYPE_INT32 \<Longrightarrow> puts pb m f n (PInt32 (field_u32 f))"
    and "fd_type f = VAL_TYPE_INT64 \<Longrightarrow> puts pb m f n (PInt64 (u_data f))"
    and "fd_type f = VAL_TYPE_UINT32 \<Longrightarrow> puts pb m f n (PUInt32 (field_u32 f))"
    and "fd_type f = VAL_TYPE_UINT64 \<Longrightarrow> puts pb m f n (PUInt64 (u_data f))"
  using assms by (simp_all add: puts_def set_column_def Let_def val_types)

lemma travels_text:
  assumes m: "GetFieldMeta m n = Some fm" "fm_type fm = VAL_TYPE_VARCHAR" "fd_name f = n"
    and st: "store_laws l cn store" and s: "buffer f = s @ [CHR 0x00]" "CHR 0x00 \<notin> set s"
  shows "travels pb l cn store m n (PString s) f"
proof -
  have nm: "fm_name fm = n" using m(1) by (auto simp: GetFieldMeta_def find_Some_iff)
  have tv: "text_value (s @ [CHR 0x00]) = Inr s" using s(2) by (simp add: text_value_def)
  let ?q = "[CHR 0x27] @ c_str (escape_string l cn s) @ [CHR 0x27]"
  let ?f2 = "\<lparr>fd_name = n, fd_type = VAL_TYPE_VARCHAR, u_data = 0, buffer = s @ [CHR 0x00]\<rparr>"
  have "GetFieldValueSQL l cn m f = Inr ?q"
    using m s tv by (simp add: GetFieldValueSQL_def Let_def val_types)
  moreover have "SetFieldValue l m g (Some (store ?q)) = Inr (0, ?f2)" if "fd_name g = n" for g
    using m nm st that by (simp add: SetFieldValue_def Let_def val_types store_laws_def MysqlField_Init_def)
  moreover have "puts pb m ?f2 n (PString s)"
    using m tv by (simp add: puts_def set_column_def Let_def val_types)
  ultimately show ?thesis unfolding travels_def by blast
qed

lemma travels_message:
  assumes m: "GetFieldMeta m n = Some fm" "fm_type fm = VAL_TYPE_BLOB" "fd_name f = n"
    and st: "store_laws l cn store" and b: "buffer f = bytes" "bytes \<noteq> []"
    and u: "UnPack pb (typeName fm) bytes = (0, Some msg)"
  shows "travels pb l cn store m n (PMessage msg) f"
proof -
  have nm: "fm_name fm = n" using m(1) by (auto simp: GetFieldMeta_def find_Some_iff)
  let ?q = "[CHR 0x27] @ c_str (escape_string l cn bytes) @ [CHR 0x27]"
  let ?f2 = "\<lparr>fd_name = n, fd_type = VAL_TYPE_BLOB, u_data = 0, buffer = bytes\<rparr>"
  have "GetFieldValueSQL l cn m f = Inr ?q"
    using m b by (simp add: GetFieldValueSQL_def Let_def val_types)
  moreover have "SetFieldValue l m g (Some (store ?q)) = Inr (0, ?f2)" if "fd_name g = n" for g
    using m nm st that by (simp add: SetFieldValue_def Let_def val_types store_laws_def MysqlField_Init_def)
  moreover have "puts pb m ?f2 n (PMessage msg)"
    using m b u by (simp add: puts_def set_column_def Let_def val_types)
  ultimately show ?thesis unfolding travels_def by blast
qed

lemma field_meta_simps [simp]:
  "fm_type (field_meta desc fd) = field_type (cpp_type fd)" "fm_name (field_meta desc fd) = fld_name fd"
  "cpp_type fd = CPPTYPE_MESSAGE \<Longrightarrow> typeName (field_meta desc fd) = message_full_name fd"
  by (simp_all add: field_meta_def)

lemma sint_u32_short: "length (show_int (sint (x :: u32))) \<le> 19"
  by (rule length_show_small) (use sint_range_size [of x] in \<open>simp_all add: word_size\<close>)

lemma uint_u32_short: "length (show_int (uint (x :: u32))) \<le> 19"
proof -
  have "uint x < 4294967296" using uint_lt2p [of x] by simp
  moreover have "0 \<le> uint x" by simp
  ultimately show ?thesis by (intro length_show_small) linarith+
qed

lemma sint_inj: "sint a = sint b \<Longrightarrow> a = b"
  by (rule signed_word_eqI)

lemma uint_inj: "uint a = uint b \<Longrightarrow> a = b"
  by (rule unsigned_word_eqI)

text \<open>The four integer types at once.\<close>

lemma number_value:
  assumes "field_type (value_type v) \<in> set number_types" "storable pb fd v" "value_field pb f0 v = Some f"
  shows "length (show_int (field_number (field_type (value_type v)) f)) \<le> 19" "fd_name f = fd_name f0"
  using assms sint_u32_short uint_u32_short
  by (cases v; auto simp: field_type_def field_number_def number_types_def val_types)+

lemma puts_number_value:
  assumes "GetFieldMeta m n = Some fm" "fd_name f2 = n" "fd_type f2 = field_type (value_type v)"
    and "field_type (value_type v) \<in> set number_types" "storable pb fd v" "value_field pb f0 v = Some f"
    and "field_number (field_type (value_type v)) f2 = field_number (field_type (value_type v)) f"
  shows "puts pb m f2 n v"
proof -
  have F: "GetFieldMeta m (fd_name f2) = Some fm" using assms(1,2) by simp
  show ?thesis
    using assms(3-7) puts_number [OF F assms(2), of pb]
    by (cases v; auto simp: field_type_def field_number_def number_types_def val_types dest!: sint_inj uint_inj)
qed

lemma travels_value:
  assumes m: "GetFieldMeta m n = Some (field_meta desc fd)" and v: "value_type v = cpp_type fd" "storable pb fd v"
    and f: "value_field pb (f0\<lparr>fd_name := n\<rparr>) v = Some f" and st: "store_laws l cn store"
  shows "travels pb l cn store m n v f"
proof (cases "field_type (value_type v) \<in> set number_types")
  case True
  note N = number_value [OF True v(2) f]
  show ?thesis
    by (rule travels_number [OF m _ _ st])
       (use True N v(1) puts_number_value [OF m _ _ True v(2) f] in simp_all)
next
  case False
  then consider s where "v = PString s" | msg where "v = PMessage msg"
    using v(2) by (cases v) (auto simp: field_type_def number_types_def)
  then show ?thesis
  proof cases
    case (1 s)
    show ?thesis unfolding 1
      by (rule travels_text [OF m _ _ st]) (use f v 1 in \<open>auto simp: field_type_def\<close>)
  next
    case (2 msg)
    then obtain bytes where b: "pb_Serialize pb msg = Some bytes" "bytes \<noteq> []"
        "UnPack pb (message_full_name fd) bytes = (0, Some msg)" "cpp_type fd = CPPTYPE_MESSAGE"
      using v by auto
    show ?thesis unfolding 2
      by (rule travels_message [OF m _ _ st _ b(2)]) (use f b 2 in \<open>auto simp: field_type_def\<close>)
  qed
qed

lemma value_field_storable: "storable pb fd v \<Longrightarrow> \<exists>f'. value_field pb f v = Some f'"
  by (cases v) auto

lemma value_field_name: "value_field pb f v = Some f' \<Longrightarrow> fd_name f' = fd_name f"
  by (cases v) (auto split: option.splits)

text \<open>A field of the object whose column in the table \<open>m\<close> keeps its value.\<close>

definition kept_field :: "'o protobuf \<Rightarrow> Descriptor \<Rightarrow> MysqlMeta \<Rightarrow> 'o \<Rightarrow> FieldDescriptor \<Rightarrow> bool" where
  "kept_field pb desc m obj fd \<longleftrightarrow> GetFieldMeta m (fld_name fd) = Some (field_meta desc fd)
     \<and> value_type (pb_Get pb obj (fld_name fd)) = cpp_type fd \<and> storable pb fd (pb_Get pb obj (fld_name fd))"

lemma row_travels:
  assumes st: "store_laws l cn store" and k: "\<forall>fd\<in>set fds. kept_field pb desc m obj fd"
  shows "\<exists>fs vs cs. fields_loop pb obj [] dbf fds = (0, fs) \<and> field_values l cn m fs = Inr vs
    \<and> (\<forall>col. row_fields l m col (zip (map fld_name fds) (map (\<lambda>v. Some (store v)) vs)) = Inr cs)
    \<and> list_all2 (\<lambda>fd c. puts pb m c (fld_name fd) (pb_Get pb obj (fld_name fd))) fds cs"
  using k
proof (induction fds arbitrary: dbf)
  case Nil
  then show ?case by simp
next
  case (Cons fd fds)
  let ?n = "fld_name fd" and ?v = "pb_Get pb obj (fld_name fd)"
  have kf: "GetFieldMeta m ?n = Some (field_meta desc fd)" "value_type ?v = cpp_type fd" "storable pb fd ?v"
    using Cons.prems by (simp_all add: kept_field_def)
  obtain f where f: "value_field pb ((MysqlField_Init dbf)\<lparr>fd_name := ?n\<rparr>) ?v = Some f"
    using value_field_storable [OF kf(3)] by blast
  obtain s c where s: "GetFieldValueSQL l cn m f = Inr s"
      "\<forall>g. fd_name g = ?n \<longrightarrow> SetFieldValue l m g (Some (store s)) = Inr (0, c)" "puts pb m c ?n ?v"
    using travels_value [OF kf(1,2,3) f st] by (auto simp: travels_def)
  obtain fs vs cs where IH: "fields_loop pb obj [] f fds = (0, fs)" "field_values l cn m fs = Inr vs"
      "\<And>col. row_fields l m col (zip (map fld_name fds) (map (\<lambda>v. Some (store v)) vs)) = Inr cs"
      "list_all2 (\<lambda>fd c. puts pb m c (fld_name fd) (pb_Get pb obj (fld_name fd))) fds cs"
    using Cons.IH [of f] Cons.prems by auto
  have "fields_loop pb obj [] dbf (fd # fds) = (0, f # fs)" using f IH(1) by (simp add: Let_def)
  moreover have "field_values l cn m (f # fs) = Inr (s # vs)" using s(1) IH(2) by simp
  moreover have "row_fields l m col (zip (map fld_name (fd # fds)) (map (\<lambda>v. Some (store v)) (s # vs)))
      = Inr (c # cs)" for col
    using s(2) IH(3) by simp
  ultimately show ?case using s(3) IH(4) by (intro exI [of _ "f # fs"] exI [of _ "s # vs"] exI [of _ "c # cs"]) simp
qed

lemma set_columns_puts:
  assumes pb: "pb_laws pb"
    and "list_all2 (\<lambda>fd c. puts pb m c (fld_name fd) (pb_Get pb obj (fld_name fd))) fds cs"
    and "\<forall>fd\<in>set fds. FindFieldByName desc (fld_name fd) = Some fd \<and> value_type (pb_Get pb obj (fld_name fd)) = cpp_type fd"
    and "pb_GetDescriptor pb blank = desc"
  shows "\<exists>out. set_columns pb (Some m) cs blank = Inr (None, out) \<and> pb_GetDescriptor pb out = desc
    \<and> (\<forall>n. pb_Get pb out n = (if n \<in> set (map fld_name fds) then pb_Get pb obj n else pb_Get pb blank n))"
  using assms(2-)
proof (induction fds cs arbitrary: blank rule: list_all2_induct)
  case Nil
  then show ?case by simp
next
  case (Cons fd fds c cs)
  let ?n = "fld_name fd" and ?v = "pb_Get pb obj (fld_name fd)"
  have F: "FindFieldByName (pb_GetDescriptor pb blank) ?n = Some fd" "value_type ?v = cpp_type fd"
    using Cons.prems by simp_all
  let ?b = "pb_Set pb ?n ?v blank"
  have b: "pb_GetDescriptor pb ?b = desc" "\<And>n'. pb_Get pb ?b n' = (if n' = ?n then ?v else pb_Get pb blank n')"
    using pb F Cons.prems(2) unfolding pb_laws_def by metis+
  have "set_column pb (Some m) c blank = Inr (None, ?b)"
    using Cons.hyps(1) F by (simp add: puts_def SetObjectField_def)
  then show ?case using Cons.IH [of ?b] Cons.prems(1) b by auto
qed

lemma find_field: "distinct (map fld_name fds) \<Longrightarrow> fd \<in> set fds \<Longrightarrow> find (\<lambda>f. fld_name f = fld_name fd) fds = Some fd"
  by (induction fds) (auto intro: rev_image_eqI)

lemma find_field_meta:
  "distinct (map fld_name fds) \<Longrightarrow> fd \<in> set fds \<Longrightarrow>
    find (\<lambda>c. fm_name c = fld_name fd) (map (field_meta desc) fds) = Some (field_meta desc fd)"
  by (induction fds) (auto intro: rev_image_eqI)

lemma key_loop_ok:
  "\<forall>pk\<in>set pks. FindFieldByName (pb_GetDescriptor pb obj) pk \<noteq> None \<Longrightarrow>
    \<exists>r k. key_loop pb obj sep part pks first key = Inr (r, k)"
proof (induction pks arbitrary: first key)
  case Nil
  then show ?case by simp
next
  case (Cons pk pks)
  then show ?case by (auto simp: Let_def split: option.split)
qed

lemma GetObjectKey_ok:
  "\<forall>pk\<in>set (primary_key (pb_GetDescriptor pb obj)). FindFieldByName (pb_GetDescriptor pb obj) pk \<noteq> None \<Longrightarrow>
    \<exists>r k. GetObjectKey pb obj = Inr (r, k)"
  using key_loop_ok [of "primary_key (pb_GetDescriptor pb obj)" pb obj "'':''" "\<lambda>_ t. t" True "[]"]
  by (auto simp: GetObjectKey_def Let_def)


text \<open>
  A concrete instance: accounts and roles with a number and a name, an escaping that protects
  NUL, backslash and quote, and a database that undoes it.
\<close>

record demo_obj =
  ob_role :: bool
  ob_id :: u64
  ob_name :: string

definition demo_desc :: "bool \<Rightarrow> Descriptor" where
  "demo_desc role = \<lparr>desc_name = (if role then ''Role'' else ''Account''),
     desc_fields = [\<lparr>fld_name = ''id'', cpp_type = CPPTYPE_UINT64, type_name = ''uint64'', message_full_name = [],
                     default_value_uint32 = 0\<rparr>,
                    \<lparr>fld_name = ''name'', cpp_type = CPPTYPE_STRING, type_name = ''string'', message_full_name = [],
                     default_value_uint32 = 0\<rparr>],
     nested_types = [(''_PrimaryKey'', [\<lparr>fld_name = ''id'', cpp_type = CPPTYPE_UINT32, type_name = ''uint32'',
                     message_full_name = [], default_value_uint32 = 0\<rparr>])]\<rparr>"

definition demo_pb :: "demo_obj protobuf" where
  "demo_pb = \<lparr>pb_GetDescriptor = (\<lambda>x. demo_desc (ob_role x)), pb_HasField = (\<lambda>_ _. True),
     pb_Get = (\<lambda>x n. if n = ''id'' then PUInt64 (ob_id x) else if n = ''name'' then PString (ob_name x) else PBool False),
     pb_Set = (\<lambda>n v x. case v of PUInt64 u \<Rightarrow> x\<lparr>ob_id := u\<rparr> | PString s \<Rightarrow> x\<lparr>ob_name := s\<rparr> | _ \<Rightarrow> x),
     pb_Serialize = (\<lambda>_. None), pb_ParseFrom = (\<lambda>_ _. None),
     pb_FindMessageTypeByName = (\<lambda>n. if n = ''db.Role'' then Some (demo_desc True)
        else if n = ''db.Account'' then Some (demo_desc False) else None),
     pb_New = (\<lambda>d. Some \<lparr>ob_role = (desc_name d = ''Role''), ob_id = 0, ob_name = []\<rparr>), pb_ByteSize = (\<lambda>_. 0)\<rparr>"

lemma demo_pb_laws: "pb_laws demo_pb"
  by (auto simp: pb_laws_def demo_pb_def FindFieldByName_def demo_desc_def split: if_splits pb_value.splits)

fun demo_escape :: "string \<Rightarrow> string" where
  "demo_escape [] = []"
| "demo_escape (c # cs) =
     (if c = CHR 0x00 then CHR 0x5C # CHR ''0'' # demo_escape cs
      else if c = CHR 0x5C \<or> c = CHR 0x27 then CHR 0x5C # c # demo_escape cs
      else c # demo_escape cs)"

fun demo_unescape :: "string \<Rightarrow> string" where
  "demo_unescape [] = []"
| "demo_unescape [c] = [c]"
| "demo_unescape (c # d # cs) =
     (if c = CHR 0x5C then (if d = CHR ''0'' then CHR 0x00 else d) # demo_unescape cs
      else c # demo_unescape (d # cs))"

lemma demo_unescape_plain: "c \<noteq> CHR 0x5C \<Longrightarrow> demo_unescape (c # cs) = c # demo_unescape cs"
  by (cases cs) simp_all

lemma demo_escape_inverse: "demo_unescape (demo_escape s) = s"
  by (induction s) (auto simp: demo_unescape_plain)

lemma demo_escape_no_nul: "CHR 0x00 \<notin> set (demo_escape s)"
  by (induction s) auto

definition demo_text_lib :: mysql_lib where
  "demo_text_lib = demo_lib\<lparr>escape_string := (\<lambda>_. demo_escape)\<rparr>"

definition demo_store :: "string \<Rightarrow> string" where
  "demo_store t = (case t of [] \<Rightarrow> [] | c # cs \<Rightarrow> if c = CHR 0x27 then demo_unescape (butlast cs) else t)"

lemma demo_store_laws: "store_laws demo_text_lib cn demo_store"
proof -
  have "demo_store (show_int n) = show_int n" for n
  proof -
    obtain c cs where c: "show_int n = c # cs" by (meson neq_Nil_conv show_int_nonempty)
    then have "c \<in> set (show_int n)" by simp
    then have "c = CHR ''-'' \<or> is_digit c" by (auto simp: show_int_def dest: show_nat_digits split: if_splits)
    then have "c \<noteq> CHR 0x27" by (auto simp: is_digit_def)
    then show ?thesis by (simp add: demo_store_def c)
  qed
  moreover have "demo_store ([CHR 0x27] @ c_str (demo_escape s) @ [CHR 0x27]) = s" for s
    by (simp add: demo_store_def demo_escape_no_nul demo_escape_inverse)
  ultimately show ?thesis by (simp add: store_laws_def demo_text_lib_def)
qed

definition demo_role_meta :: MysqlMeta where
  "demo_role_meta = \<lparr>tblname = ''Role'', cols = map (field_meta (demo_desc True)) (desc_fields (demo_desc True))\<rparr>"

definition demo_db :: "(unit, demo_obj, unit) DBAgent" where
  "demo_db = \<lparr>mysql = (started [demo_proxy] 32)\<lparr>agent_tableMetas := [demo_role_meta]\<rparr>,
     m_mpGetObjects = Map.empty, m_ptrTmpObj = None, m_mpListener = [''Role'' \<mapsto> Some ()], m_setTableType = [''Role'']\<rparr>"

abbreviation demo_role :: demo_obj where
  "demo_role \<equiv> \<lparr>ob_role = True, ob_id = 42, ob_name = ''O'' @ [CHR 0x27] @ ''Neil''\<rparr>"


section \<open>A request comes back to its listener\<close>

definition answer_call :: "int \<Rightarrow> 'l \<Rightarrow> int \<Rightarrow> byte list \<Rightarrow> ('l, 'o) listener_call" where
  "answer_call op l code cb =
     (if op = MYSQL_REQ_UPDATE then OnUpdate l code cb
      else if op = MYSQL_REQ_INSERT then OnInsert l code cb
      else OnRemove l code cb)"

text \<open>The notification, the worker's loop from its top to the response, one poll.\<close>

definition request_events :: "event list" where
  "request_events = [ENotify 0, EWork 0, EWork 0, EWork 0, EWork 0, EPolling 1]"

lemma request_served:
  assumes "DispatchReq a r p = Inr (out, p')" "0 < m"
  shows "\<exists>s. agent_run a (snd (Request r (started [p] m))) request_events (Inr s)
    \<and> handled s = [out] \<and> rspQueue s = [] \<and> pending s = []"
proof -
  obtain s where s: "exec_run a request_events (snd (Request r (started [p] m))) = Inr (Some s)"
      "handled s = [out]" "rspQueue s = []" "pending s = []"
    using assms by (simp add: request_events_def exec_simps pending_def inflight_def)
  then show ?thesis using exec_run_run(1) [OF s(1)] by blast
qed



section \<open>The cache of objects\<close>

text \<open>
  The cache of objects does not tell tables apart: its key is made of the primary key
  values only.  When the response for an object of one table has been dispatched, looking up an
  object of another table with the same key value returns the object of the first one.
\<close>

lemma cache_mixes_tables:
  assumes "CreateObjectFromMysql pb res d = Inr (0, Some out, d')"
    and "GetObjectKey pb out = Inr (0, key)" "GetObjectKey pb other = Inr (0, key)" "key \<noteq> []"
  shows "FindObject_obj pb other d' = Inr (Some out)"
  using assms
  by (auto simp: CreateObjectFromMysql_def FindObject_obj_def FindObject_def bindE_Inr data_codes
      split: if_splits option.splits)

lemma cache_mixes_tables_witness:
  "\<exists>out d'. CreateObjectFromMysql demo_pb \<lparr>rs_tblname = ''Role'', rs_op = MYSQL_REQ_SELECT,
        rs_data = [demo_field 42], rs_cb = [], rs_ret = MYSQL_RESULT_OK\<rparr> demo_db = Inr (0, Some out, d')
     \<and> FindObject_obj demo_pb \<lparr>ob_role = False, ob_id = 42, ob_name = []\<rparr> d' = Inr (Some out)
     \<and> GetTypeName demo_pb out = ''Role''
     \<and> GetTypeName demo_pb \<lparr>ob_role = False, ob_id = 42, ob_name = []\<rparr> = ''Account''"
proof -
  let ?out = "\<lparr>ob_role = True, ob_id = 42, ob_name = []\<rparr>"
  have ch: "char_of (52::nat) = CHR ''4''" "char_of (50::nat) = CHR ''2''" by code_simp+
  have k: "GetObjectKey demo_pb \<lparr>ob_role = b, ob_id = 42, ob_name = []\<rparr> = Inr (0, ''42'')" for b
    by (simp add: GetObjectKey_def Let_def primary_key_def FindNestedTypeByName_def FindFieldByName_def
        demo_pb_def demo_desc_def keyBuffer_def show_int_def show_nat.simps digit_char_def ch)
  obtain d' where c: "CreateObjectFromMysql demo_pb \<lparr>rs_tblname = ''Role'', rs_op = MYSQL_REQ_SELECT,
        rs_data = [demo_field 42], rs_cb = [], rs_ret = MYSQL_RESULT_OK\<rparr> demo_db = Inr (0, Some ?out, d')"
    using k [of True]
    by (simp add: CreateObjectFromMysql_def NewObject_def GetMetaNameSpace_def set_column_def demo_field_def
        agent_GetTableMeta_def demo_db_def demo_role_meta_def GetFieldMeta_def val_types SetObjectField_def
        demo_pb_def demo_desc_def FindFieldByName_def Let_def)
  show ?thesis
    using c cache_mixes_tables [OF c k k] by (intro exI [of _ ?out] exI [of _ d'])
      (simp add: GetTypeName_def demo_pb_def demo_desc_def)
qed

section \<open>Types\<close>

text \<open>Every field holds a value of its declared type.\<close>

definition well_typed :: "'o protobuf \<Rightarrow> 'o \<Rightarrow> bool" where
  "well_typed pb obj \<longleftrightarrow> (\<forall>n fd. FindFieldByName (pb_GetDescriptor pb obj) n = Some fd \<longrightarrow>
     value_type (pb_Get pb obj n) = cpp_type fd)"

text \<open>Protobuf makes well typed objects of the type asked for.\<close>

definition pb_new_laws :: "'o protobuf \<Rightarrow> bool" where
  "pb_new_laws pb \<longleftrightarrow> (\<forall>n desc obj. pb_FindMessageTypeByName pb n = Some desc \<longrightarrow> pb_New pb desc = Some obj \<longrightarrow>
     well_typed pb obj \<and> pb_GetDescriptor pb obj = desc)"

lemma SetObjectField_typed:
  assumes "pb_laws pb" "well_typed pb obj" "SetObjectField pb obj n v = Inr (r, obj')"
  shows "well_typed pb obj' \<and> pb_GetDescriptor pb obj' = pb_GetDescriptor pb obj"
proof (cases "FindFieldByName (pb_GetDescriptor pb obj) n")
  case None
  then show ?thesis using assms by (simp add: SetObjectField_def)
next
  case (Some fd)
  then have v: "value_type v = cpp_type fd" "obj' = pb_Set pb n v obj"
    using assms(3) by (auto simp: SetObjectField_def split: if_splits)
  have "pb_GetDescriptor pb obj' = pb_GetDescriptor pb obj"
      "\<forall>n'. pb_Get pb obj' n' = (if n' = n then v else pb_Get pb obj n')"
    using assms(1) Some v unfolding pb_laws_def by blast+
  then show ?thesis using assms(2) Some v(1) by (auto simp: well_typed_def)
qed

lemma set_column_typed:
  assumes "pb_laws pb" "well_typed pb obj" "set_column pb m mf obj = Inr (e, obj')"
  shows "well_typed pb obj' \<and> pb_GetDescriptor pb obj' = pb_GetDescriptor pb obj"
  using assms SetObjectField_typed [OF assms(1,2)]
  by (auto simp: set_column_def Let_def bindE_Inr split: option.splits if_splits prod.splits)

lemma set_columns_typed:
  assumes "pb_laws pb"
  shows "well_typed pb obj \<Longrightarrow> set_columns pb m mfs obj = Inr (e, obj') \<Longrightarrow>
    well_typed pb obj' \<and> pb_GetDescriptor pb obj' = pb_GetDescriptor pb obj"
proof (induction mfs arbitrary: obj)
  case (Cons mf mfs)
  then obtain c obj1 where o: "set_column pb m mf obj = Inr (c, obj1)"
      "(case c of Some x \<Rightarrow> Inr (Some x, obj1) | None \<Rightarrow> set_columns pb m mfs obj1) = Inr (e, obj')"
    by (auto simp: bindE_Inr)
  note t = set_column_typed [OF assms Cons.prems(1) o(1)]
  show ?case using Cons.IH [of obj1] t o(2) by (auto split: option.splits)
qed simp

text \<open>Objects in the cache are well typed.\<close>

definition cache_typed :: "'o protobuf \<Rightarrow> ('l, 'o, 'db) DBAgent \<Rightarrow> bool" where
  "cache_typed pb d \<longleftrightarrow> (\<forall>key obj. m_mpGetObjects d key = Some (Some obj) \<longrightarrow> well_typed pb obj)"

lemma CreateObject_typed:
  assumes "pb_laws pb" "pb_new_laws pb" "cache_typed pb d" "CreateObjectFromMysql pb res d = Inr (c, x, d')"
  shows "cache_typed pb d' \<and> (\<forall>obj. x = Some obj \<longrightarrow> well_typed pb obj
    \<and> pb_FindMessageTypeByName pb (GetMetaNameSpace @ ''.'' @ rs_tblname res) = Some (pb_GetDescriptor pb obj))"
proof (cases "rs_ret res \<noteq> MYSQL_RESULT_OK \<or> rs_data res = []")
  case True
  then show ?thesis using assms(3,4) by (simp add: CreateObjectFromMysql_def)
next
  case False
  then obtain obj0 e obj where o: "NewObject pb (GetMetaNameSpace @ ''.'' @ rs_tblname res) = Some obj0"
      "set_columns pb (agent_GetTableMeta (rs_tblname res) (mysql d)) (rs_data res) obj0 = Inr (e, obj)"
      "x = None \<and> d' = d \<or> x = Some obj \<and> (\<exists>key. d' = d\<lparr>m_ptrTmpObj := Some obj\<rparr>
         \<or> d' = d\<lparr>m_mpGetObjects := (m_mpGetObjects d)(key \<mapsto> Some obj)\<rparr>)"
    using assms(4) by (auto simp: CreateObjectFromMysql_def bindE_Inr split: option.splits if_splits)
  obtain desc where n: "pb_FindMessageTypeByName pb (GetMetaNameSpace @ ''.'' @ rs_tblname res) = Some desc"
      "pb_New pb desc = Some obj0"
    using o(1) by (auto simp: NewObject_def split: option.splits)
  then have "well_typed pb obj0 \<and> pb_GetDescriptor pb obj0 = desc" using assms(2) unfolding pb_new_laws_def by blast
  then have "well_typed pb obj \<and> pb_GetDescriptor pb obj = desc" using set_columns_typed [OF assms(1) _ o(2)] by blast
  then show ?thesis using o(3) n assms(3) by (auto simp: cache_typed_def split: if_splits)
qed

fun dispatch_all ::
  "'o protobuf \<Rightarrow> (('l, 'o) listener_call \<Rightarrow> int) \<Rightarrow> MysqlResponse list \<Rightarrow> ('l, 'o, 'db) DBAgent
     \<Rightarrow> fault + ('l, 'o) listener_call list \<times> ('l, 'o, 'db) DBAgent" where
  "dispatch_all pb L [] d = Inr ([], d)"
| "dispatch_all pb L (r # rs) d =
     bindE (DispatchResult pb L r d) (\<lambda>(_, cs, d).
     bindE (dispatch_all pb L rs d) (\<lambda>(cs', d). Inr (cs @ cs', d)))"



end
