(* ===== verification/CacheAgent.thy ===== *)
theory CacheAgent
  imports DBAgentProps RedisAgent
begin

text \<open>
  The cache agent (\<open>datacenter/CacheAgent.h/.cpp\<close>): it stores packed protobuf objects in redis
  under keys made of type and primary key, puts a header before the caller's callback data, and
  uses it to bring the reply back to the listener of the type.

  Protobuf, the listeners and the redis library are parameters as in the theories \<open>DBAgent\<close> and
  \<open>RedisAgent\<close>.  \<open>mk\<close> says whether a buffer of a size can be created, \<open>sc n s\<close> which C string the macro
  \<open>STRNCPY\<close> of \<open>base/CommonMacro.h\<close> leaves in a buffer of \<open>n\<close> bytes.  Assertions are active, as in a
  debug build.
\<close>

section \<open>Callback data\<close>

definition CACHE_CMD_GET :: u16 where "CACHE_CMD_GET = 1"
definition CACHE_CMD_UPDATE :: u16 where "CACHE_CMD_UPDATE = 2"
definition CACHE_CMD_INSERT :: u16 where "CACHE_CMD_INSERT = 3"
definition CACHE_CMD_REMOVE :: u16 where "CACHE_CMD_REMOVE = 4"

lemmas cache_cmds = CACHE_CMD_GET_def CACHE_CMD_UPDATE_def CACHE_CMD_INSERT_def CACHE_CMD_REMOVE_def

definition CACHE_TYPE_KV :: u8 where "CACHE_TYPE_KV = 0"

definition MAX_TYPE_KEY_SIZE :: nat where "MAX_TYPE_KEY_SIZE = 16"
definition MAX_OBJ_KEY_SIZE :: nat where "MAX_OBJ_KEY_SIZE = 64"

text \<open>\<open>sizeof\<close> the packed structures \<open>Head\<close> and \<open>Body\<close>.\<close>

definition sizeof_Head :: nat where "sizeof_Head = 2 + 1 + 2 + MAX_TYPE_KEY_SIZE"
definition sizeof_Body :: nat where "sizeof_Body = MAX_OBJ_KEY_SIZE"

lemmas callback_sizes = sizeof_Head_def sizeof_Body_def MAX_TYPE_KEY_SIZE_def MAX_OBJ_KEY_SIZE_def

definition bytes_of :: "string \<Rightarrow> byte list" where
  "bytes_of s = map (\<lambda>c. of_nat (of_char c)) s"

definition chars_of :: "byte list \<Rightarrow> string" where
  "chars_of bs = map (\<lambda>b. char_of (unat b)) bs"

definition put_le16 :: "u16 \<Rightarrow> byte list" where
  "put_le16 x = [ucast x, ucast (drop_bit 8 x)]"

definition get_le16 :: "byte list \<Rightarrow> u16" where
  "get_le16 bs = (case bs of lo # hi # _ \<Rightarrow> push_bit 8 (ucast hi) OR ucast lo | _ \<Rightarrow> 0)"

text \<open>A \<open>char\<close> array of \<open>n\<close> bytes that was zeroed before the copy.\<close>

definition char_array :: "nat \<Rightarrow> string \<Rightarrow> byte list" where
  "char_array n s = take n (bytes_of s @ replicate n 0)"

text \<open>\<open>CreateCallBack\<close>: \<open>None\<close> for the result \<open>-1\<close>.\<close>

definition CreateCallBack ::
  "(nat \<Rightarrow> bool) \<Rightarrow> (nat \<Rightarrow> string \<Rightarrow> string) \<Rightarrow> u8 \<Rightarrow> u16 \<Rightarrow> string \<Rightarrow> byte list option \<Rightarrow> string option
     \<Rightarrow> byte list option" where
  "CreateCallBack mk sc type cmd typeKey customCB objKey =
     (let iObjKeyLen = (case objKey of None \<Rightarrow> 0 | Some k \<Rightarrow> length (c_str k));
          custom = (case customCB of None \<Rightarrow> [] | Some b \<Rightarrow> b);
          mcb_size = sizeof_Head + (if 0 < iObjKeyLen then sizeof_Body else 0) in
      if MAX_OBJ_KEY_SIZE < iObjKeyLen then None
      else if \<not> mk (length custom + mcb_size) then None
      else Some (put_le16 (of_nat mcb_size) @ [type] @ put_le16 cmd
                 @ char_array MAX_TYPE_KEY_SIZE (sc MAX_TYPE_KEY_SIZE (c_str typeKey))
                 @ (if 0 < iObjKeyLen then char_array MAX_OBJ_KEY_SIZE (sc MAX_OBJ_KEY_SIZE (c_str (the objKey))) else [])
                 @ custom))"

section \<open>State and keys\<close>

record ('l, 'o) CacheAgent =
  c_mpListener :: "string \<rightharpoonup> 'l option"
  c_redis :: bool
  c_agent :: RedisAgent
  c_mpGetObjects :: "string \<rightharpoonup> 'o option"

definition Cache_AddListener :: "string \<Rightarrow> 'l option \<Rightarrow> ('l, 'o) CacheAgent \<Rightarrow> int \<times> ('l, 'o) CacheAgent" where
  "Cache_AddListener typ ptr d =
     (case c_mpListener d typ of
        Some (Some _) \<Rightarrow> (-1, d)
      | _ \<Rightarrow> (0, d\<lparr>c_mpListener := (c_mpListener d)(typ \<mapsto> ptr)\<rparr>))"

fun cache_key_text :: "'o pb_value \<Rightarrow> string option" where
  "cache_key_text (PInt32 v) = Some (keyBuffer (show_int (sint v)))"
| "cache_key_text (PInt64 v) = Some (keyBuffer (show_int (sint v)))"
| "cache_key_text (PEnum v) = Some (keyBuffer (show_int (sint v)))"
| "cache_key_text (PUInt32 v) = Some (keyBuffer (show_int (uint v)))"
| "cache_key_text (PUInt64 v) = Some (keyBuffer (show_int (uint v)))"
| "cache_key_text (PString s) = Some (keyBuffer (c_str s))"
| "cache_key_text _ = None"

fun cache_key_loop :: "'o protobuf \<Rightarrow> 'o \<Rightarrow> string list \<Rightarrow> bool \<Rightarrow> string \<Rightarrow> fault + int \<times> string" where
  "cache_key_loop pb obj [] first key = Inr (0, key)"
| "cache_key_loop pb obj (pk # pks) first key =
     (let key1 = (if first then key else key @ ''&'') in
      case FindFieldByName (pb_GetDescriptor pb obj) pk of
        None \<Rightarrow> Inl NullDeref
      | Some field \<Rightarrow>
          if \<not> pb_HasField pb obj pk then Inr (-1, key1)
          else
            (case cache_key_text (pb_Get pb obj pk) of
               None \<Rightarrow> Inr (-1, key1)
             | Some t \<Rightarrow> cache_key_loop pb obj pks False (key1 @ t)))"

definition Cache_GetObjectKey :: "'o protobuf \<Rightarrow> 'o \<Rightarrow> fault + int \<times> string" where
  "Cache_GetObjectKey pb obj =
     (let pks = primary_key (pb_GetDescriptor pb obj) in
      if pks = [] then Inr (-1, [])
      else cache_key_loop pb obj pks True (GetTypeName pb obj @ '':''))"

section \<open>The cache of objects\<close>

definition Cache_FindObject :: "string \<Rightarrow> ('l, 'o) CacheAgent \<Rightarrow> 'o option" where
  "Cache_FindObject key d =
     (if length key \<noteq> 0 then None else case c_mpGetObjects d key of None \<Rightarrow> None | Some p \<Rightarrow> p)"

definition Cache_FindObject_obj :: "'o protobuf \<Rightarrow> 'o \<Rightarrow> ('l, 'o) CacheAgent \<Rightarrow> fault + 'o option" where
  "Cache_FindObject_obj pb obj d =
     bindE (Cache_GetObjectKey pb obj) (\<lambda>(r, key). Inr (if r \<noteq> 0 then None else Cache_FindObject key d))"

definition Cache_GetObjectPtr :: "'o protobuf \<Rightarrow> 'o \<Rightarrow> ('l, 'o) CacheAgent \<Rightarrow> fault + 'o option \<times> ('l, 'o) CacheAgent" where
  "Cache_GetObjectPtr pb obj d =
     bindE (Cache_GetObjectKey pb obj) (\<lambda>(r, key).
       let dflt = (case c_mpGetObjects d [] of None \<Rightarrow> None | Some p \<Rightarrow> p);
           d' = d\<lparr>c_mpGetObjects := (c_mpGetObjects d)([] \<mapsto> dflt)\<rparr> in
       if r \<noteq> 0 then Inr (dflt, d')
       else (case c_mpGetObjects d key of Some p \<Rightarrow> Inr (p, d) | None \<Rightarrow> Inr (dflt, d')))"

definition Cache_FreeObject :: "string \<Rightarrow> ('l, 'o) CacheAgent \<Rightarrow> ('l, 'o) CacheAgent" where
  "Cache_FreeObject key d = d\<lparr>c_mpGetObjects := (c_mpGetObjects d)(key := None)\<rparr>"

section \<open>Requests\<close>

definition cache_send ::
  "(redis_io \<Rightarrow> byte list \<Rightarrow> RedisAgent \<Rightarrow> fault + int \<times> RedisAgent) \<Rightarrow> redis_io \<Rightarrow> byte list option
     \<Rightarrow> ('l, 'o) CacheAgent \<Rightarrow> fault + int \<times> ('l, 'o) CacheAgent" where
  "cache_send send io ccb d =
     (case ccb of
        None \<Rightarrow> Inr (-1, d)
      | Some cb \<Rightarrow>
          if \<not> c_redis d then Inl NullDeref
          else bindE (send io cb (c_agent d)) (\<lambda>(r, a). Inr (if r \<noteq> 0 then -1 else 0, d\<lparr>c_agent := a\<rparr>)))"

definition Cache_Get ::
  "(nat \<Rightarrow> bool) \<Rightarrow> (nat \<Rightarrow> string \<Rightarrow> string) \<Rightarrow> redis_io \<Rightarrow> 'o protobuf \<Rightarrow> 'o \<Rightarrow> byte list
     \<Rightarrow> ('l, 'o) CacheAgent \<Rightarrow> fault + int \<times> ('l, 'o) CacheAgent" where
  "Cache_Get mk sc io pb obj cb d =
     bindE (Cache_GetObjectKey pb obj) (\<lambda>(r, key).
       if r \<noteq> 0 then Inr (-1, d)
       else cache_send (\<lambda>io. Redis_Get io key) io
              (CreateCallBack mk sc CACHE_TYPE_KV CACHE_CMD_GET (GetTypeName pb obj) (Some cb) None) d)"

definition Cache_Remove ::
  "(nat \<Rightarrow> bool) \<Rightarrow> (nat \<Rightarrow> string \<Rightarrow> string) \<Rightarrow> redis_io \<Rightarrow> 'o protobuf \<Rightarrow> 'o \<Rightarrow> byte list
     \<Rightarrow> ('l, 'o) CacheAgent \<Rightarrow> fault + int \<times> ('l, 'o) CacheAgent" where
  "Cache_Remove mk sc io pb obj cb d =
     bindE (Cache_GetObjectKey pb obj) (\<lambda>(r, key).
       if r \<noteq> 0 then Inr (-1, d)
       else cache_send (\<lambda>io. Redis_Remove io key) io
              (CreateCallBack mk sc CACHE_TYPE_KV CACHE_CMD_REMOVE (GetTypeName pb obj) (Some cb) None) d)"

definition Cache_Update ::
  "(nat \<Rightarrow> bool) \<Rightarrow> (nat \<Rightarrow> string \<Rightarrow> string) \<Rightarrow> redis_io \<Rightarrow> 'o protobuf \<Rightarrow> 'o \<Rightarrow> byte list
     \<Rightarrow> ('l, 'o) CacheAgent \<Rightarrow> fault + int \<times> ('l, 'o) CacheAgent" where
  "Cache_Update mk sc io pb obj cb d =
     bindE (Cache_GetObjectKey pb obj) (\<lambda>(r, key).
       if r \<noteq> 0 then Inr (-1, d)
       else if \<not> mk (GetPackSize pb obj) then Inr (-1, d)
       else
         (case Pack pb obj (GetPackSize pb obj) of (r, packed) \<Rightarrow>
            if r \<noteq> 0 then Inr (-1, d)
            else cache_send (\<lambda>io. Redis_Update io key packed) io
                   (CreateCallBack mk sc CACHE_TYPE_KV CACHE_CMD_UPDATE (GetTypeName pb obj) (Some cb) None) d))"

section \<open>Replies\<close>

definition reply_code :: "redisReply option \<Rightarrow> bool \<Rightarrow> int" where
  "reply_code reply timeout =
     (case reply of
        None \<Rightarrow> if timeout then DATA_TIME_OUT else DATA_OK
      | Some r \<Rightarrow>
          if rp_type r = REDIS_REPLY_ERROR then DATA_REDIS_ERR_START + rp_type r
          else if rp_type r = REDIS_REPLY_NIL then DATA_NO_EXISTS
          else DATA_OK)"

text \<open>
  \<open>DispatchResult\<close> of the cache agent, with the two fields of the header it uses: its return
  code, the call it makes, and the state.
\<close>

definition Cache_DispatchResult ::
  "'o protobuf \<Rightarrow> (('l, 'o) listener_call \<Rightarrow> int) \<Rightarrow> u16 \<Rightarrow> string \<Rightarrow> redisReply option \<Rightarrow> byte list \<Rightarrow> bool
     \<Rightarrow> ('l, 'o) CacheAgent \<Rightarrow> fault + int \<times> ('l, 'o) listener_call list \<times> ('l, 'o) CacheAgent" where
  "Cache_DispatchResult pb L cmd typeKey reply ucb timeout d =
     (let ret = reply_code reply timeout in
      case c_mpListener d typeKey of
        None \<Rightarrow> Inr (-1, [], d)
      | Some ptr \<Rightarrow>
          let call = (\<lambda>f d'. case ptr of None \<Rightarrow> Inl NullDeref | Some l \<Rightarrow> Inr (L (f l), [f l], d')) in
          if cmd = CACHE_CMD_GET then
            if ret \<noteq> 0 then call (\<lambda>l. OnGet l ret None ucb) d
            else
              (case reply of
                 None \<Rightarrow> Inl NullDeref
               | Some r \<Rightarrow>
                   if rp_type r = REDIS_REPLY_STRING then
                     (case UnPack pb (GetMetaNameSpace @ ''.'' @ typeKey) (rp_str r) of (e, obj) \<Rightarrow>
                        if e \<noteq> 0 then call (\<lambda>l. OnGet l DATA_UNPACK_ERROR obj ucb) d
                        else
                          (case obj of
                             None \<Rightarrow> Inl NullDeref
                           | Some x \<Rightarrow>
                               bindE (Cache_GetObjectKey pb x) (\<lambda>(k, key).
                                 if k \<noteq> 0 then Inl AssertFail
                                 else call (\<lambda>l. OnGet l DATA_OK obj ucb)
                                        (d\<lparr>c_mpGetObjects := (c_mpGetObjects d)(key \<mapsto> obj)\<rparr>))))
                   else call (\<lambda>l. OnGet l DATA_INTERNAL_ERR None ucb) d)
          else if cmd = CACHE_CMD_UPDATE then call (\<lambda>l. OnUpdate l ret ucb) d
          else if cmd = CACHE_CMD_INSERT then call (\<lambda>l. OnInsert l ret ucb) d
          else if cmd = CACHE_CMD_REMOVE then call (\<lambda>l. OnRemove l ret ucb) d
          else Inr (-1, [], d))"

text \<open>
  The listener of the redis agent.  The buffer is read as a \<open>CacheAgentCallBack\<close>; \<open>szTypeKey\<close> is read as a
  C string, past its array when it has no end there.
\<close>

definition Cache_OnCommand ::
  "'o protobuf \<Rightarrow> (('l, 'o) listener_call \<Rightarrow> int) \<Rightarrow> redisReply option \<Rightarrow> byte list \<Rightarrow> bool
     \<Rightarrow> ('l, 'o) CacheAgent \<Rightarrow> fault + ('l, 'o) listener_call list \<times> ('l, 'o) CacheAgent" where
  "Cache_OnCommand pb L reply cb timeout d =
     (if length cb < sizeof_Head then Inl OutOfBounds
      else
        let len = unat (get_le16 cb) in
        if length cb < len then Inl AssertFail
        else if 0 \<notin> set (drop 5 cb) then Inl OutOfBounds
        else
          bindE (Cache_DispatchResult pb L (get_le16 (drop 3 cb)) (chars_of (takeWhile (\<lambda>b. b \<noteq> 0) (drop 5 cb)))
                   reply (drop len cb) timeout d) (\<lambda>(ret, calls, d). Inr (calls, d)))"

fun deliver_all ::
  "'o protobuf \<Rightarrow> (('l, 'o) listener_call \<Rightarrow> int) \<Rightarrow> (redisReply option \<times> byte list \<times> bool) list
     \<Rightarrow> ('l, 'o) CacheAgent \<Rightarrow> fault + ('l, 'o) listener_call list \<times> ('l, 'o) CacheAgent" where
  "deliver_all pb L [] d = Inr ([], d)"
| "deliver_all pb L ((reply, cb, timeout) # ts) d =
     bindE (Cache_OnCommand pb L reply cb timeout d) (\<lambda>(calls, d).
     bindE (deliver_all pb L ts d) (\<lambda>(more, d). Inr (calls @ more, d)))"

section \<open>Start and polling\<close>

definition Cache_Init ::
  "(nat \<Rightarrow> RedisAddr \<Rightarrow> nat option) \<Rightarrow> ev_event list \<Rightarrow> (nat \<Rightarrow> ev_event list) \<Rightarrow> RedisAddr list
     \<Rightarrow> ('l, 'o) CacheAgent \<Rightarrow> fault + int \<times> ('l, 'o) CacheAgent" where
  "Cache_Init cn ev0 evs addrList d =
     bindE (RedisAgent_Init cn ev0 evs addrList (c_agent d)) (\<lambda>(r, a).
       if r \<noteq> 0 then Inr (-1, d\<lparr>c_agent := a\<rparr>) else Inr (0, d\<lparr>c_agent := a, c_redis := True\<rparr>))"

text \<open>
  The calls that the redis agent makes while it polls go to \<open>Cache_OnCommand\<close>, which leaves the
  redis agent alone.
\<close>

definition Cache_Polling ::
  "'o protobuf \<Rightarrow> (('l, 'o) listener_call \<Rightarrow> int) \<Rightarrow> ev_event list \<Rightarrow> int \<Rightarrow> int \<Rightarrow> ('l, 'o) CacheAgent
     \<Rightarrow> fault + int \<times> ('l, 'o) listener_call list \<times> ('l, 'o) CacheAgent" where
  "Cache_Polling pb L evs now iProcPerTick d =
     (if \<not> c_redis d then Inr (-1, [], d)
      else
        bindE (RedisAgent_Polling evs now iProcPerTick (c_agent d)) (\<lambda>a.
        bindE (deliver_all pb L (drop (length (told (c_agent d))) (told a)) (d\<lparr>c_agent := a\<rparr>)) (\<lambda>(calls, d).
          Inr (0, calls, d))))"

definition Cache_Destroy :: "('l, 'o) CacheAgent \<Rightarrow> ('l, 'o) CacheAgent" where
  "Cache_Destroy d = d\<lparr>c_redis := False\<rparr>"

section \<open>The header of the callback data\<close>

lemma get_put_le16 [simp, wire_simps]: "get_le16 (put_le16 x @ rest) = x"
  by (simp add: get_le16_def put_le16_def be16_join)

lemma length_put_le16 [simp, wire_simps]: "length (put_le16 x) = 2"
  by (simp add: put_le16_def)

lemma byte_char: "char_of (unat (of_nat (of_char c) :: byte)) = (c :: char)"
proof -
  have "of_char c < (256 :: nat)" by (rule nat_of_char_less_256) 
  then show ?thesis by (simp add: unsigned_of_nat take_bit_nat_eq_self)
qed

lemma byte_zero: "(of_nat (of_char c) :: byte) = 0 \<longleftrightarrow> c = CHR 0x00"
proof -
  have "(of_nat (of_char c) :: byte) = 0 \<longleftrightarrow> unat (of_nat (of_char c) :: byte) = 0" by (simp add: unat_eq_zero)
  also have "\<dots> \<longleftrightarrow> of_char c = (0 :: nat)"
    using nat_of_char_less_256 [of c] by (simp add: unsigned_of_nat take_bit_nat_eq_self)
  also have "\<dots> \<longleftrightarrow> c = CHR 0x00" using of_char_eq_iff [where 'a = nat, of c "CHR 0x00"] by simp
  finally show ?thesis .
qed

lemma char_array_read:
  assumes "length s < n" "CHR 0x00 \<notin> set s"
  shows "length (char_array n s) = n"
    and "chars_of (takeWhile (\<lambda>b. b \<noteq> 0) (char_array n s @ rest)) = s" "0 \<in> set (char_array n s)"
proof -
  have "char_array n s = bytes_of s @ replicate (n - length s) 0"
    using assms(1) by (simp add: char_array_def bytes_of_def)
  moreover obtain k where k: "n - length s = Suc k" using assms(1) by (metis Suc_diff_Suc)
  ultimately have c: "char_array n s = bytes_of s @ 0 # replicate k 0" "length (char_array n s) = n"
    using assms(1) by (auto simp: bytes_of_def)
  have "\<forall>b\<in>set (bytes_of s). b \<noteq> 0" using assms(2) by (auto simp: bytes_of_def byte_zero)
  then have "takeWhile (\<lambda>b. b \<noteq> 0) (bytes_of s @ 0 # replicate k 0 @ rest) = bytes_of s"
    by (simp add: takeWhile_append2)
  moreover have "chars_of (bytes_of s) = s" by (simp add: chars_of_def bytes_of_def byte_char comp_def)
  ultimately show "length (char_array n s) = n"
      "chars_of (takeWhile (\<lambda>b. b \<noteq> 0) (char_array n s @ rest)) = s" "0 \<in> set (char_array n s)"
    using c by simp_all
qed

text \<open>A type name that the header can hold.\<close>

definition fits_key :: "(nat \<Rightarrow> string \<Rightarrow> string) \<Rightarrow> string \<Rightarrow> bool" where
  "fits_key sc ty \<longleftrightarrow> length ty < 16 \<and> CHR 0x00 \<notin> set ty \<and> sc 16 ty = ty"

definition header :: "u16 \<Rightarrow> string \<Rightarrow> byte list" where
  "header cmd ty = put_le16 21 @ [CACHE_TYPE_KV] @ put_le16 cmd @ char_array 16 ty"

lemma CreateCallBack_header:
  "fits_key sc ty \<Longrightarrow> mk (length cb + 21) \<Longrightarrow>
     CreateCallBack mk sc CACHE_TYPE_KV cmd ty (Some cb) None = Some (header cmd ty @ cb)"
  by (simp add: CreateCallBack_def header_def fits_key_def callback_sizes)

lemma OnCommand_header:
  assumes "fits_key sc ty"
  shows "Cache_OnCommand pb L reply (header cmd ty @ cb) timeout d
    = bindE (Cache_DispatchResult pb L cmd ty reply cb timeout d) (\<lambda>(ret, calls, d). Inr (calls, d))"
proof -
  have h: "header cmd ty @ cb = put_le16 21 @ [CACHE_TYPE_KV] @ put_le16 cmd @ char_array 16 ty @ cb"
    by (simp add: header_def)
  have c: "length (char_array 16 ty) = 16" "chars_of (takeWhile (\<lambda>b. b \<noteq> 0) (char_array 16 ty @ cb)) = ty"
      "0 \<in> set (char_array 16 ty)"
    using assms char_array_read [of ty 16] by (simp_all add: fits_key_def)
  have "drop 3 (header cmd ty @ cb) = put_le16 cmd @ char_array 16 ty @ cb"
      "drop 5 (header cmd ty @ cb) = char_array 16 ty @ cb" "drop 21 (header cmd ty @ cb) = cb"
    using c(1) by (simp_all add: h)
  moreover have "get_le16 (header cmd ty @ cb) = 21" "length (header cmd ty @ cb) = 21 + length cb"
    using c(1) by (simp_all add: h)
  ultimately show ?thesis using c by (simp add: Cache_OnCommand_def callback_sizes Let_def)
qed

lemma header_no_select: "fits_key sc ty \<Longrightarrow> 0 \<in> set (header cmd ty @ cb) \<and> \<not> is_select (header cmd ty @ cb)"
  by (simp add: header_def put_le16_def is_select_def SELECTDB_CB_def)

section \<open>A request and its reply\<close>

definition idle :: "('l, 'o) CacheAgent \<Rightarrow> bool" where
  "idle d \<longleftrightarrow> c_redis d \<and> r_listener (c_agent d) \<and> redisCtxList (c_agent d) \<noteq> [] \<and> \<not> m_closing (c_agent d)
     \<and> m_mpCallBackPool (c_agent d) = Map.empty"

text \<open>An agent with one request under way.\<close>

definition asked :: "('l, 'o) CacheAgent \<Rightarrow> u32 \<Rightarrow> redis_cmd \<Rightarrow> byte list \<Rightarrow> ('l, 'o) CacheAgent \<Rightarrow> bool" where
  "asked d i cmd ccb d1 \<longleftrightarrow>
     (\<exists>c t a. sent (c_agent d1) = sent (c_agent d) @ [(c, i, cmd)]
        \<and> m_mpCallBackPool (c_agent d1) = [i \<mapsto> \<lparr>ra_cb = ccb, ra_time = t\<rparr>]
        \<and> r_listener (c_agent d1) \<and> redisCtxList (c_agent d1) \<noteq> [] \<and> \<not> m_closing (c_agent d1)
        \<and> c_redis d1 \<and> d1 = d\<lparr>c_agent := a\<rparr>)"

lemma send_idle:
  assumes "idle d" "io_ok io"
  shows "\<exists>i d1. cache_send (\<lambda>io cb. Command io cb cmd) io (Some ccb) d = Inr (0, d1) \<and> asked d i cmd ccb d1"
  using assms by (auto simp: cache_send_def idle_def asked_def Command_def probe_free Let_def)

lemma check_loop_empty:
  "m_mpCallBackPool s = Map.empty \<Longrightarrow> \<exists>j. check_loop g n now s = Inr (s\<lparr>m_chkTimeOut := j\<rparr>)"
proof (induction n arbitrary: s)
  case 0
  have "s = s\<lparr>m_chkTimeOut := m_chkTimeOut s\<rparr>" by simp
  then show ?case by (metis check_loop.simps(1))
next
  case (Suc n)
  have "s = s\<lparr>m_chkTimeOut := m_chkTimeOut s\<rparr>" by simp
  moreover obtain j where "check_loop g n now (s\<lparr>m_chkTimeOut := m_chkTimeOut s + 1\<rparr>)
      = Inr (s\<lparr>m_chkTimeOut := m_chkTimeOut s + 1, m_chkTimeOut := j\<rparr>)"
    using Suc.IH [of "s\<lparr>m_chkTimeOut := m_chkTimeOut s + 1\<rparr>"] Suc.prems by auto
  ultimately show ?case using Suc.prems by (auto simp: Let_def intro: exI [of _ j] exI [of _ "m_chkTimeOut s"])
qed

lemma CheckTimeOut_empty:
  assumes "m_mpCallBackPool s = Map.empty"
  shows "\<exists>j. CheckTimeOut n now s = Inr (s\<lparr>m_chkTimeOut := j\<rparr>)"
proof -
  obtain j where "check_loop True (nat n) now s = Inr (s\<lparr>m_chkTimeOut := j\<rparr>)"
    using check_loop_empty [OF assms] by blast
  then show ?thesis using check_loop_empty [OF assms, of False "nat n" now] by (auto simp: CheckTimeOut_def)
qed

lemma answered:
  assumes a: "asked d i cmd ccb d1" and h: "0 \<in> set ccb" "\<not> is_select ccb"
  shows "\<exists>a. Cache_Polling pb L [EvReply c reply i] now n d1
      = bindE (Cache_OnCommand pb L reply ccb False (d1\<lparr>c_agent := a\<rparr>)) (\<lambda>(calls, d). Inr (0, calls, d))
    \<and> idle (d1\<lparr>c_agent := a\<rparr>) \<and> sent a = sent (c_agent d1)"
proof -
  let ?s = "c_agent d1"
  let ?s1 = "?s\<lparr>told := told ?s @ [(reply, ccb, False)], m_mpCallBackPool := Map.empty\<rparr>"
  have "(m_mpCallBackPool ?s)(i := None) = Map.empty" using a by (auto simp: asked_def)
  then have e: "ev_loop [EvReply c reply i] ?s = Inr ?s1"
    using a h by (auto simp: asked_def RedisAgent_OnCommand_def FindCallBack_def tell_def)
  obtain j where j: "CheckTimeOut n now ?s1 = Inr (?s1\<lparr>m_chkTimeOut := j\<rparr>)"
    using CheckTimeOut_empty [of ?s1] by auto
  let ?a = "?s1\<lparr>m_chkTimeOut := j\<rparr>"
  have "RedisAgent_Polling [EvReply c reply i] now n ?s = Inr ?a"
    using a e j by (auto simp: RedisAgent_Polling_def asked_def)
  then have "Cache_Polling pb L [EvReply c reply i] now n d1
      = bindE (Cache_OnCommand pb L reply ccb False (d1\<lparr>c_agent := ?a\<rparr>)) (\<lambda>(calls, d). Inr (0, calls, d))"
    using a by (cases "Cache_OnCommand pb L reply ccb False (d1\<lparr>c_agent := ?a\<rparr>)")
      (auto simp: Cache_Polling_def asked_def)
  moreover have "idle (d1\<lparr>c_agent := ?a\<rparr>)" using a by (auto simp: idle_def asked_def)
  ultimately show ?thesis by (intro exI [of _ ?a]) simp
qed

text \<open>What a client needs for its objects to be stored: see \<open>fits_key\<close> for the type name.\<close>

definition cacheable :: "(nat \<Rightarrow> string \<Rightarrow> string) \<Rightarrow> 'o protobuf \<Rightarrow> 'o \<Rightarrow> string \<Rightarrow> string \<Rightarrow> bool" where
  "cacheable sc pb obj key bytes \<longleftrightarrow> fits_key sc (GetTypeName pb obj) \<and> Cache_GetObjectKey pb obj = Inr (0, key)
     \<and> pb_Serialize pb obj = Some bytes \<and> length bytes = pb_ByteSize pb obj
     \<and> UnPack pb (GetMetaNameSpace @ ''.'' @ GetTypeName pb obj) bytes = (0, Some obj)"

lemma redis_commands:
  "(\<lambda>io. Redis_Get io key) = (\<lambda>io cb. Command io cb (RGet key))"
  "(\<lambda>io. Redis_Update io key bytes) = (\<lambda>io cb. Command io cb (RSet key bytes))"
  by (simp_all add: fun_eq_iff Redis_Get_def Redis_Update_def)

lemma Cache_Get_asks:
  assumes "idle d" "io_ok io" "fits_key sc (GetTypeName pb obj)" "Cache_GetObjectKey pb obj = Inr (0, key)" "\<forall>n. mk n"
  shows "\<exists>i d1. Cache_Get mk sc io pb obj cb d = Inr (0, d1)
    \<and> asked d i (RGet key) (header CACHE_CMD_GET (GetTypeName pb obj) @ cb) d1"
  using send_idle [OF assms(1,2), of "RGet key"] assms(3-)
  by (simp add: Cache_Get_def CreateCallBack_header redis_commands)

lemma Cache_Update_asks:
  assumes "idle d" "io_ok io" "cacheable sc pb obj key bytes" "\<forall>n. mk n"
  shows "\<exists>i d1. Cache_Update mk sc io pb obj cb d = Inr (0, d1)
    \<and> asked d i (RSet key bytes) (header CACHE_CMD_UPDATE (GetTypeName pb obj) @ cb) d1"
  using send_idle [OF assms(1,2), of "RSet key bytes"] assms(3-)
  by (simp add: Cache_Update_def CreateCallBack_header redis_commands cacheable_def Pack_def GetPackSize_def)

lemma update_answered:
  assumes "asked d i cmd (header CACHE_CMD_UPDATE ty @ cb) d1" "fits_key sc ty" "c_mpListener d1 ty = Some (Some l)"
  shows "\<exists>d2. Cache_Polling pb L [EvReply c reply i] now n d1 = Inr (0, [OnUpdate l (reply_code reply False) cb], d2)
    \<and> idle d2 \<and> sent (c_agent d2) = sent (c_agent d1) \<and> c_mpListener d2 = c_mpListener d1"
  using answered [OF assms(1), of pb L c reply now n] header_no_select [OF assms(2), of CACHE_CMD_UPDATE cb] assms(3)
    OnCommand_header [OF assms(2), of pb L reply CACHE_CMD_UPDATE cb False]
  by (auto simp: Cache_DispatchResult_def Let_def cache_cmds)

lemma get_answered:
  assumes "asked d i cmd (header CACHE_CMD_GET ty @ cb) d1" "c_mpListener d1 ty = Some (Some l)"
    and "rp_type found = REDIS_REPLY_STRING" "rp_str found = bytes" "cacheable sc pb obj key bytes" "ty = GetTypeName pb obj"
  shows "\<exists>d2. Cache_Polling pb L [EvReply c (Some found) i] now n d1 = Inr (0, [OnGet l DATA_OK (Some obj) cb], d2)
    \<and> c_mpGetObjects d2 key = Some (Some obj)"
proof -
  have f: "fits_key sc ty" using assms(5,6) by (simp add: cacheable_def)
  show ?thesis
    using answered [OF assms(1), of pb L c "Some found" now n] header_no_select [OF f, of CACHE_CMD_GET cb] assms
      OnCommand_header [OF f, of pb L "Some found" CACHE_CMD_GET cb False]
    by (auto simp: Cache_DispatchResult_def Let_def reply_code_def reply_types data_codes cacheable_def)
qed

text \<open>
  C17.  What is stored in the cache comes back.  On an idle agent, \<open>Update\<close> hands redis a \<open>SET\<close> with
  the object's key and its packed bytes, and the reply makes exactly one call, \<open>OnUpdate\<close> with
  the caller's callback data; a later \<open>Get\<close> asks redis for the same key, and when redis answers
  with the stored bytes the listener gets exactly one \<open>OnGet\<close> with an equal object and its own
  callback data, and the object is in the agent's map under that key.
\<close>

theorem cache_update_then_get:
  assumes d: "idle d" "c_mpListener d (GetTypeName pb obj) = Some (Some l)"
    and obj: "cacheable sc pb obj key bytes" and mk: "\<forall>n. mk n" and io: "io_ok io1" "io_ok io2"
    and stored: "rp_type stored = REDIS_REPLY_STATUS"
    and found: "rp_type found = REDIS_REPLY_STRING" "rp_str found = bytes"
  shows "\<exists>d1 d2 d3 d4 c1 i1 c2 i2.
      Cache_Update mk sc io1 pb obj cb1 d = Inr (0, d1)
    \<and> sent (c_agent d1) = sent (c_agent d) @ [(c1, i1, RSet key bytes)]
    \<and> Cache_Polling pb L [EvReply c1 (Some stored) i1] now1 n d1 = Inr (0, [OnUpdate l DATA_OK cb1], d2)
    \<and> Cache_Get mk sc io2 pb obj cb2 d2 = Inr (0, d3)
    \<and> sent (c_agent d3) = sent (c_agent d1) @ [(c2, i2, RGet key)]
    \<and> Cache_Polling pb L [EvReply c2 (Some found) i2] now2 n d3 = Inr (0, [OnGet l DATA_OK (Some obj) cb2], d4)
    \<and> c_mpGetObjects d4 key = Some (Some obj)"
proof -
  let ?ty = "GetTypeName pb obj"
  have f: "fits_key sc ?ty" and k: "Cache_GetObjectKey pb obj = Inr (0, key)" using obj by (simp_all add: cacheable_def)
  obtain i1 d1 where u: "Cache_Update mk sc io1 pb obj cb1 d = Inr (0, d1)"
      "asked d i1 (RSet key bytes) (header CACHE_CMD_UPDATE ?ty @ cb1) d1"
    using Cache_Update_asks [OF d(1) io(1) obj mk] by blast
  then obtain c1 where s1: "sent (c_agent d1) = sent (c_agent d) @ [(c1, i1, RSet key bytes)]"
      "c_mpListener d1 = c_mpListener d" by (auto simp: asked_def)
  have "reply_code (Some stored) False = DATA_OK" using stored by (simp add: reply_code_def reply_types)
  then obtain d2 where p: "Cache_Polling pb L [EvReply c1 (Some stored) i1] now1 n d1 = Inr (0, [OnUpdate l DATA_OK cb1], d2)"
      "idle d2" "sent (c_agent d2) = sent (c_agent d1)" "c_mpListener d2 = c_mpListener d1"
    using update_answered [OF u(2) f, of l pb L c1 "Some stored" now1 n] d(2) s1(2) by auto
  obtain i2 d3 where g: "Cache_Get mk sc io2 pb obj cb2 d2 = Inr (0, d3)"
      "asked d2 i2 (RGet key) (header CACHE_CMD_GET ?ty @ cb2) d3"
    using Cache_Get_asks [OF p(2) io(2) f k mk] by blast
  then obtain c2 where s2: "sent (c_agent d3) = sent (c_agent d2) @ [(c2, i2, RGet key)]"
      "c_mpListener d3 = c_mpListener d2" by (auto simp: asked_def)
  obtain d4 where "Cache_Polling pb L [EvReply c2 (Some found) i2] now2 n d3 = Inr (0, [OnGet l DATA_OK (Some obj) cb2], d4)"
      "c_mpGetObjects d4 key = Some (Some obj)"
    using get_answered [OF g(2) _ found obj refl, of l L c2 now2 n] d(2) s1(2) s2(2) p(4) by auto
  then show ?thesis
    using u(1) s1(1) p(1,3) g(1) s2(1)
    by (intro exI [of _ d1] exI [of _ d2] exI [of _ d3] exI [of _ d4] exI [of _ c1] exI [of _ i1] exI [of _ c2]
        exI [of _ i2]) simp
qed

text \<open>Roles with small numbers, packed as a byte and the name.\<close>

definition cache_pb :: "demo_obj protobuf" where
  "cache_pb = demo_pb\<lparr>
     pb_Serialize := (\<lambda>x. if ob_id x < 256 then Some (char_of (unat (ob_id x)) # ob_name x) else None),
     pb_ByteSize := (\<lambda>x. 1 + length (ob_name x)),
     pb_ParseFrom := (\<lambda>s x. case s of [] \<Rightarrow> None | c # cs \<Rightarrow> Some (x\<lparr>ob_id := of_nat (of_char c), ob_name := cs\<rparr>))\<rparr>"

definition demo_cache :: "(unit, demo_obj) CacheAgent" where
  "demo_cache = \<lparr>c_mpListener = [''Role'' \<mapsto> Some ()], c_redis = True, c_agent = redis_demo, c_mpGetObjects = Map.empty\<rparr>"

lemma demo_idle: "idle demo_cache" "c_mpListener demo_cache ''Role'' = Some (Some ())"
  by (simp_all add: idle_def demo_cache_def redis_demo_def RedisAgent_new_def)

lemma cache_pb_type: "GetTypeName cache_pb demo_role = ''Role''"
  by (simp add: GetTypeName_def cache_pb_def demo_pb_def demo_desc_def)

lemma demo_cacheable: "cacheable (\<lambda>_ s. s) cache_pb demo_role ''Role:42'' ''*O'Neil''"
proof -
  have ch: "char_of (52::nat) = CHR ''4''" "char_of (50::nat) = CHR ''2''" "char_of (42::nat) = CHR ''*''"
    by code_simp+
  have "Cache_GetObjectKey cache_pb demo_role = Inr (0, ''Role:42'')"
    by (simp add: Cache_GetObjectKey_def Let_def primary_key_def FindNestedTypeByName_def FindFieldByName_def
        GetTypeName_def cache_pb_def demo_pb_def demo_desc_def keyBuffer_def show_int_def show_nat.simps digit_char_def ch)
  moreover have "UnPack cache_pb (GetMetaNameSpace @ ''.'' @ ''Role'') ''*O'Neil'' = (0, Some demo_role)"
    by (simp add: UnPack_def NewObject_def GetMetaNameSpace_def cache_pb_def demo_pb_def demo_desc_def)
  ultimately show ?thesis
    unfolding cacheable_def cache_pb_type by (simp add: fits_key_def cache_pb_def demo_pb_def ch)
qed

theorem cache_update_then_get_witness:
  "\<exists>d1 d2 d3 d4 c1 i1 c2 i2.
      Cache_Update (\<lambda>_. True) (\<lambda>_ s. s) redis_demo_io cache_pb demo_role [1] demo_cache = Inr (0, d1)
    \<and> Cache_Polling cache_pb (\<lambda>_. 0) [EvReply c1 (Some \<lparr>rp_type = REDIS_REPLY_STATUS, rp_integer = 0, rp_str = ''OK''\<rparr>) i1]
        101 10 d1 = Inr (0, [OnUpdate () DATA_OK [1]], d2)
    \<and> Cache_Get (\<lambda>_. True) (\<lambda>_ s. s) redis_demo_io cache_pb demo_role [2] d2 = Inr (0, d3)
    \<and> Cache_Polling cache_pb (\<lambda>_. 0)
        [EvReply c2 (Some \<lparr>rp_type = REDIS_REPLY_STRING, rp_integer = 0, rp_str = ''*O'Neil''\<rparr>) i2] 102 10 d3
      = Inr (0, [OnGet () DATA_OK (Some demo_role) [2]], d4)"
proof -
  have "io_ok redis_demo_io" by (simp add: redis_demo_io_def)
  then show ?thesis
    using cache_update_then_get [OF demo_idle(1) _ demo_cacheable, of "()" "\<lambda>_. True" redis_demo_io redis_demo_io
        "\<lparr>rp_type = REDIS_REPLY_STATUS, rp_integer = 0, rp_str = ''OK''\<rparr>"
        "\<lparr>rp_type = REDIS_REPLY_STRING, rp_integer = 0, rp_str = ''*O'Neil''\<rparr>" "[1]" "\<lambda>_. 0" 101 10 "[2]" 102]
      demo_idle(2)
    unfolding cache_pb_type by simp blast
qed

section \<open>A lost connection\<close>

text \<open>
  When a connection is lost, \<open>hiredis\<close> makes the outstanding callbacks with a null reply.  The
  cache agent takes a null reply without timeout for a success: an update that never reached
  redis is reported to its listener as done, and a lookup dereferences the null reply.
\<close>

lemma lost_connection_is_success:
  assumes "asked d i cmd (header c16 ty @ cb) d1" "fits_key sc ty" "c_mpListener d1 ty = Some (Some l)"
  shows "(c16 = CACHE_CMD_UPDATE \<longrightarrow>
      (\<exists>d2. Cache_Polling pb L [EvReply c None i] now n d1 = Inr (0, [OnUpdate l DATA_OK cb], d2)))
    \<and> (c16 = CACHE_CMD_GET \<longrightarrow> Cache_Polling pb L [EvReply c None i] now n d1 = Inl NullDeref)"
proof (intro conjI impI)
  assume "c16 = CACHE_CMD_UPDATE"
  then show "\<exists>d2. Cache_Polling pb L [EvReply c None i] now n d1 = Inr (0, [OnUpdate l DATA_OK cb], d2)"
    using update_answered [of d i cmd ty cb d1 sc l pb L c None now n] assms
    by (auto simp: reply_code_def)
next
  assume g: "c16 = CACHE_CMD_GET"
  obtain a where "Cache_Polling pb L [EvReply c None i] now n d1
      = bindE (Cache_OnCommand pb L None (header c16 ty @ cb) False (d1\<lparr>c_agent := a\<rparr>)) (\<lambda>(calls, d). Inr (0, calls, d))"
    using answered [OF assms(1), of pb L c None now n] header_no_select [OF assms(2), of c16 cb] by auto
  then show "Cache_Polling pb L [EvReply c None i] now n d1 = Inl NullDeref"
    using g assms(3) OnCommand_header [OF assms(2), of pb L None c16 cb False "d1\<lparr>c_agent := a\<rparr>"]
    by (simp add: Cache_DispatchResult_def Let_def reply_code_def data_codes)
qed

lemma lost_connection_is_success_witness:
  "\<exists>d1 d2 i. Cache_Update (\<lambda>_. True) (\<lambda>_ s. s) redis_demo_io cache_pb demo_role [1] demo_cache = Inr (0, d1)
     \<and> Cache_Polling cache_pb (\<lambda>_. 0) [EvReply 1 None i] 101 10 d1 = Inr (0, [OnUpdate () DATA_OK [1]], d2)"
proof -
  have io: "io_ok redis_demo_io" by (simp add: redis_demo_io_def)
  have f: "fits_key (\<lambda>_ s. s) ''Role''" by (simp add: fits_key_def)
  obtain i d1 where u: "Cache_Update (\<lambda>_. True) (\<lambda>_ s. s) redis_demo_io cache_pb demo_role [1] demo_cache = Inr (0, d1)"
      "asked demo_cache i (RSet ''Role:42'' ''*O'Neil'') (header CACHE_CMD_UPDATE ''Role'' @ [1]) d1"
    using Cache_Update_asks [OF demo_idle(1) io demo_cacheable, of "\<lambda>_. True" "[1]"] unfolding cache_pb_type by auto
  then have "c_mpListener d1 ''Role'' = Some (Some ())" using demo_idle(2) by (auto simp: asked_def)
  then show ?thesis
    using u lost_connection_is_success [OF u(2) f, of "()" cache_pb "\<lambda>_. 0" 1 101 10] by blast
qed

section \<open>Keys\<close>

text \<open>
  \<open>FindObject\<close> tests the length of the key the wrong way round: it finds nothing, also for an
  object that is in the map and that \<open>GetObjectPtr\<close> returns.
\<close>

lemma cache_find_misses:
  assumes "Cache_GetObjectKey pb obj = Inr (0, key)" "key \<noteq> []" "c_mpGetObjects d key = Some (Some x)"
  shows "Cache_FindObject_obj pb obj d = Inr None" "Cache_GetObjectPtr pb obj d = Inr (Some x, d)"
  using assms by (simp_all add: Cache_FindObject_obj_def Cache_FindObject_def Cache_GetObjectPtr_def)

definition int_value :: "'o pb_value \<Rightarrow> bool" where
  "int_value v \<longleftrightarrow> value_type v \<in> {CPPTYPE_INT32, CPPTYPE_INT64, CPPTYPE_UINT32, CPPTYPE_UINT64, CPPTYPE_ENUM}"

fun joined :: "bool \<Rightarrow> string list \<Rightarrow> string" where
  "joined first [] = []"
| "joined first (t # ts) = (if first then [] else ''&'') @ t @ joined False ts"

lemma cache_key_loop_joined:
  "cache_key_loop pb obj pks first key = Inr (0, k) \<Longrightarrow>
     \<exists>ts. list_all2 (\<lambda>pk t. cache_key_text (pb_Get pb obj pk) = Some t) pks ts \<and> k = key @ joined first ts"
proof (induction pks arbitrary: first key)
  case (Cons pk pks)
  then obtain t where t: "cache_key_text (pb_Get pb obj pk) = Some t"
      "cache_key_loop pb obj pks False ((if first then key else key @ ''&'') @ t) = Inr (0, k)"
    by (auto simp: Let_def split: option.splits if_splits)
  then obtain ts where "list_all2 (\<lambda>pk t. cache_key_text (pb_Get pb obj pk) = Some t) pks ts"
      "k = (if first then key else key @ ''&'') @ t @ joined False ts"
    using Cons.IH [OF t(2)] by auto
  then show ?case using t(1) by (intro exI [of _ "t # ts"]) simp
qed simp

lemma Cache_GetObjectKey_joined:
  assumes "Cache_GetObjectKey pb x = Inr (0, key)"
  shows "\<exists>ts. list_all2 (\<lambda>pk t. cache_key_text (pb_Get pb x pk) = Some t) (primary_key (pb_GetDescriptor pb x)) ts
    \<and> key = (GetTypeName pb x @ '':'') @ joined True ts"
proof -
  have "cache_key_loop pb x (primary_key (pb_GetDescriptor pb x)) True (GetTypeName pb x @ '':'') = Inr (0, key)"
    using assms by (auto simp: Cache_GetObjectKey_def Let_def split: if_splits)
  from cache_key_loop_joined [OF this] show ?thesis .
qed

lemma joined_inj:
  assumes "\<forall>t\<in>set ts. CHR ''&'' \<notin> set t" "\<forall>t\<in>set us. CHR ''&'' \<notin> set t" "length ts = length us"
    and "joined first ts = joined first us"
  shows "ts = us"
  using assms
proof (induction ts arbitrary: us first)
  case (Cons t ts)
  then obtain u vs where us: "us = u # vs" by (cases us) auto
  have tail: "joined False xs = [] \<or> hd (joined False xs) = CHR ''&''" for xs :: "string list" by (cases xs) auto
  have w: "takeWhile (\<lambda>c. c \<noteq> CHR ''&'') (x @ joined False xs) = x" if "CHR ''&'' \<notin> set x" for x xs
  proof -
    have "\<forall>c\<in>set x. c \<noteq> CHR ''&''" using that by auto
    then show ?thesis using tail [of xs] by (cases "joined False xs") (auto simp: takeWhile_append2)
  qed
  have e: "t @ joined False ts = u @ joined False vs" using Cons.prems(4) by (simp add: us split: if_splits)
  then have "t = u" using w [of t ts] w [of u vs] Cons.prems(1,2) by (simp add: us)
  then show ?case using e Cons.IH [of vs False] Cons.prems(1-3) by (simp add: us)
qed simp

lemma int_value_text:
  assumes "int_value v"
  obtains i where "cache_key_text v = Some (show_int i)"
    and "\<And>w. value_type w = value_type v \<Longrightarrow> cache_key_text w = Some (show_int i) \<Longrightarrow> w = v"
proof -
  have k: "keyBuffer (show_int i) = show_int i" if "\<bar>i\<bar> \<le> 18446744073709551615" for i
    using show_int_short [OF that] by (simp add: keyBuffer_def)
  have r: "\<bar>sint (x :: u32)\<bar> \<le> 18446744073709551615" "\<bar>uint (x :: u32)\<bar> \<le> 18446744073709551615"
      "\<bar>sint (y :: u64)\<bar> \<le> 18446744073709551615" "\<bar>uint (y :: u64)\<bar> \<le> 18446744073709551615" for x y
    using sint_range_size [of x] uint_bounded [of x] sint_range_size [of y] uint_bounded [of y]
    by (auto simp: word_size)
  note kr = k [OF r(1)] k [OF r(2)] k [OF r(3)] k [OF r(4)]
  have ty: "value_type w = CPPTYPE_INT32 \<longleftrightarrow> (\<exists>x. w = PInt32 x)" "value_type w = CPPTYPE_INT64 \<longleftrightarrow> (\<exists>x. w = PInt64 x)"
      "value_type w = CPPTYPE_UINT32 \<longleftrightarrow> (\<exists>x. w = PUInt32 x)" "value_type w = CPPTYPE_UINT64 \<longleftrightarrow> (\<exists>x. w = PUInt64 x)"
      "value_type w = CPPTYPE_ENUM \<longleftrightarrow> (\<exists>x. w = PEnum x)" for w :: "'a pb_value"
    by (cases w; simp)+
  show thesis
  proof (cases v)
    case (PInt32 x)
    then show thesis by (intro that [of "sint x"]) (auto simp: kr show_int_inj ty signed_word_eqI)
  next
    case (PInt64 x)
    then show thesis by (intro that [of "sint x"]) (auto simp: kr show_int_inj ty signed_word_eqI)
  next
    case (PEnum x)
    then show thesis by (intro that [of "sint x"]) (auto simp: kr show_int_inj ty signed_word_eqI)
  next
    case (PUInt32 x)
    then show thesis by (intro that [of "uint x"]) (auto simp: kr show_int_inj ty intro: unsigned_word_eqI)
  next
    case (PUInt64 x)
    then show thesis by (intro that [of "uint x"]) (auto simp: kr show_int_inj ty intro: unsigned_word_eqI)
  qed (use assms in \<open>auto simp: int_value_def\<close>)
qed

lemma key_values:
  assumes "list_all2 (\<lambda>pk t. cache_key_text (f pk) = Some t) pks ts" "\<forall>pk\<in>set pks. int_value (f pk)"
  shows "\<forall>t\<in>set ts. CHR ''&'' \<notin> set t"
proof
  fix t assume "t \<in> set ts"
  then obtain j where j: "j < length ts" "t = ts ! j" by (auto simp: in_set_conv_nth)
  then have p: "cache_key_text (f (pks ! j)) = Some t" "pks ! j \<in> set pks"
    using assms(1) by (auto simp: list_all2_conv_all_nth)
  then have "int_value (f (pks ! j))" using assms(2) by blast
  then obtain i where "cache_key_text (f (pks ! j)) = Some (show_int i)" by (rule int_value_text) (rule that)
  then have "t = show_int i" using p(1) by simp
  then show "CHR ''&'' \<notin> set t" using show_int_chars [of "CHR ''&''" i] by (auto simp: is_digit_def)
qed

text \<open>
  C33.  The keys of the cache tell objects apart.  Two objects with integer primary keys that have
  the same key are of the same type (a type name has no colon), and when they have the same
  descriptor, their primary key fields have the same values.
\<close>

theorem cache_key_injective:
  assumes a: "Cache_GetObjectKey pb a = Inr (0, key)" and b: "Cache_GetObjectKey pb b = Inr (0, key)"
    and colon: "CHR '':'' \<notin> set (GetTypeName pb a)" "CHR '':'' \<notin> set (GetTypeName pb b)"
    and pka: "\<forall>pk\<in>set (primary_key (pb_GetDescriptor pb a)). int_value (pb_Get pb a pk)"
    and pkb: "\<forall>pk\<in>set (primary_key (pb_GetDescriptor pb b)). int_value (pb_Get pb b pk)"
  shows "GetTypeName pb a = GetTypeName pb b
    \<and> (pb_GetDescriptor pb a = pb_GetDescriptor pb b \<longrightarrow> pk \<in> set (primary_key (pb_GetDescriptor pb a)) \<longrightarrow>
      value_type (pb_Get pb a pk) = value_type (pb_Get pb b pk) \<longrightarrow> pb_Get pb a pk = pb_Get pb b pk)"
proof (intro conjI impI)
  have tw: "takeWhile (\<lambda>c. c \<noteq> CHR '':'') (t @ '':'' @ r) = t" if "CHR '':'' \<notin> set t" for t r :: string
  proof -
    have "\<forall>c\<in>set t. c \<noteq> CHR '':''" using that by auto
    then show ?thesis by (simp add: takeWhile_append2)
  qed
  obtain ts where ts: "list_all2 (\<lambda>pk t. cache_key_text (pb_Get pb a pk) = Some t) (primary_key (pb_GetDescriptor pb a)) ts"
      "key = (GetTypeName pb a @ '':'') @ joined True ts"
    using Cache_GetObjectKey_joined [OF a] by blast
  obtain us where us: "list_all2 (\<lambda>pk t. cache_key_text (pb_Get pb b pk) = Some t) (primary_key (pb_GetDescriptor pb b)) us"
      "key = (GetTypeName pb b @ '':'') @ joined True us"
    using Cache_GetObjectKey_joined [OF b] by blast
  have ty: "GetTypeName pb a = GetTypeName pb b"
    using tw [OF colon(1), of "joined True ts"] tw [OF colon(2), of "joined True us"] ts(2) us(2) by simp
  then show "GetTypeName pb a = GetTypeName pb b" .
  assume d: "pb_GetDescriptor pb a = pb_GetDescriptor pb b" and pk: "pk \<in> set (primary_key (pb_GetDescriptor pb a))"
    and vt: "value_type (pb_Get pb a pk) = value_type (pb_Get pb b pk)"
  have "joined True ts = joined True us" using ts(2) us(2) ty by simp
  then have "ts = us"
    using joined_inj [OF key_values [OF ts(1) pka] key_values [OF us(1) pkb]] list_all2_lengthD [OF ts(1)]
      list_all2_lengthD [OF us(1)] d by simp
  then have "cache_key_text (pb_Get pb a pk) = cache_key_text (pb_Get pb b pk)"
    using ts(1) us(1) d pk by (auto simp: list_all2_conv_all_nth in_set_conv_nth)
  moreover have "int_value (pb_Get pb b pk)" using pkb pk d by simp
  ultimately show "pb_Get pb a pk = pb_Get pb b pk" using vt by (auto elim!: int_value_text)
qed

theorem cache_key_injective_witness:
  "let a = demo_role\<lparr>ob_name := ''A''\<rparr>; b = demo_role\<lparr>ob_name := ''B''\<rparr> in
   Cache_GetObjectKey cache_pb a = Cache_GetObjectKey cache_pb b \<and> a \<noteq> b
   \<and> pb_Get cache_pb a ''id'' = pb_Get cache_pb b ''id''"
proof -
  have k: "Cache_GetObjectKey cache_pb (demo_role\<lparr>ob_name := n\<rparr>) = Inr (0, ''Role:'' @ show_int 42)" for n
    using show_int_short [of 42]
    by (simp add: Cache_GetObjectKey_def Let_def primary_key_def FindNestedTypeByName_def FindFieldByName_def
        GetTypeName_def cache_pb_def demo_pb_def demo_desc_def keyBuffer_def)
  show ?thesis
    using cache_key_injective [OF k [of "''A''"] k [of "''B''"], of "''id''"] k
    by (simp add: Let_def GetTypeName_def primary_key_def FindNestedTypeByName_def int_value_def cache_pb_def demo_pb_def
        demo_desc_def)
qed

end
