(* ===== verification/ResTable.thy ===== *)
theory ResTable
  imports OrderedMap MetaSerializer
begin

text \<open>
  The tables of game resources (\<open>datacenter/ResTableAgent.h/.cpp\<close>): every file of a directory holds a
  packed table; its entries go into an ordered map by a 64-bit key made of at most two primary
  key fields.

  Protobuf is a parameter; \<open>rep obj f\<close> is the list of messages in the repeated field \<open>f\<close> of \<open>obj\<close>.  The
  file system is a record of what its calls answer: the names in the directory, sizes, the
  bytes read, and \<open>stem\<close>, the part of a name before the first dot (\<open>SplitString(name, ".")[0]\<close>).  The
  entries of a table are values, not pointers into the table they came from.
\<close>

section \<open>State and keys\<close>

record res_files =
  rf_list :: "string list option"
  rf_size :: "string \<Rightarrow> int"
  rf_read :: "string \<Rightarrow> string"
  rf_stem :: "string \<Rightarrow> string"
  rf_create :: bool

record 'o ResTableAgent =
  m_mpRawMetaResTable :: "string \<rightharpoonup> 'o"
  m_mpAllNameTables :: "string \<rightharpoonup> (u64 \<times> 'o) list"
  m_strResDataDir :: string
  m_iLoadResNum :: int
  m_mpNameCacheTable :: "string \<rightharpoonup> 'o list"

text \<open>\<open>GetObjectFieldU32\<close> leaves \<open>val\<close> alone when the field is missing.\<close>

fun entry_key_loop :: "'o protobuf \<Rightarrow> 'o \<Rightarrow> string list \<Rightarrow> u32 \<Rightarrow> u64 \<Rightarrow> fault + u64" where
  "entry_key_loop pb obj [] val k = Inr k"
| "entry_key_loop pb obj (pk # pks) val k =
     bindE (GetObjectField pb CPPTYPE_UINT32 obj pk) (\<lambda>v.
       let val' = (case v of Some (PUInt32 x) \<Rightarrow> x | _ \<Rightarrow> val) in
       entry_key_loop pb obj pks val' (push_bit 32 k OR ucast val'))"

definition GetResTableEntryKey :: "'o protobuf \<Rightarrow> 'o \<Rightarrow> fault + u64" where
  "GetResTableEntryKey pb obj =
     (let pks = primary_key (pb_GetDescriptor pb obj) in
      if 2 < length pks then Inl AssertFail else entry_key_loop pb obj pks 0 0)"

section \<open>Loading\<close>

text \<open>The entries of one file: whether all went in, the table, and their number.\<close>

fun insert_entries ::
  "'o protobuf \<Rightarrow> 'o list \<Rightarrow> (u64 \<times> 'o) list \<Rightarrow> int \<Rightarrow> fault + bool \<times> (u64 \<times> 'o) list \<times> int" where
  "insert_entries pb [] tbl n = Inr (True, tbl, n)"
| "insert_entries pb (e # es) tbl n =
     bindE (GetResTableEntryKey pb e) (\<lambda>k.
       if map_of tbl k \<noteq> None then Inr (False, tbl, n)
       else insert_entries pb es (smap_insert k e tbl) (n + 1))"

definition MAX_TABLE_FILE_SIZE :: int where
  "MAX_TABLE_FILE_SIZE = 16 * 1024 * 1024"

definition load_file ::
  "'o protobuf \<Rightarrow> ('o \<Rightarrow> string \<Rightarrow> 'o list) \<Rightarrow> res_files \<Rightarrow> string \<Rightarrow> 'o ResTableAgent \<Rightarrow> fault + int \<times> 'o ResTableAgent" where
  "load_file pb rep fs f s =
     (let filePath = m_strResDataDir s @ ''/'' @ f; buffLen = rf_size fs filePath; typ = rf_stem fs f in
      if buffLen \<le> 0 then Inr (-1, s)
      else if MAX_TABLE_FILE_SIZE < buffLen then Inl OutOfBounds
      else
        case UnPack pb (''res.'' @ typ) (rf_read fs filePath) of (ret, pObjTable) \<Rightarrow>
          if ret \<noteq> 0 then Inr (-1, s)
          else
            case pObjTable of
              None \<Rightarrow> Inl NullDeref
            | Some obj \<Rightarrow>
                if FindFieldByName (pb_GetDescriptor pb obj) ''list'' = None then Inl NullDeref
                else
                  let tbl = (case m_mpAllNameTables s typ of None \<Rightarrow> [] | Some t \<Rightarrow> t) in
                  bindE (insert_entries pb (rep obj ''list'') tbl (m_iLoadResNum s)) (\<lambda>(ok, tbl', n).
                    Inr (if ok then 0 else -1,
                         s\<lparr>m_mpRawMetaResTable := (m_mpRawMetaResTable s)(typ \<mapsto> obj),
                           m_mpAllNameTables := (m_mpAllNameTables s)(typ \<mapsto> tbl'),
                           m_iLoadResNum := n\<rparr>)))"

fun load_files ::
  "'o protobuf \<Rightarrow> ('o \<Rightarrow> string \<Rightarrow> 'o list) \<Rightarrow> res_files \<Rightarrow> string list \<Rightarrow> 'o ResTableAgent \<Rightarrow> fault + int \<times> 'o ResTableAgent" where
  "load_files pb rep fs [] s = Inr (0, s)"
| "load_files pb rep fs (f # files) s =
     bindE (load_file pb rep fs f s) (\<lambda>(ret, s). if ret \<noteq> 0 then Inr (-1, s) else load_files pb rep fs files s)"

definition ReLoad ::
  "'o protobuf \<Rightarrow> ('o \<Rightarrow> string \<Rightarrow> 'o list) \<Rightarrow> res_files \<Rightarrow> 'o ResTableAgent \<Rightarrow> fault + int \<times> 'o ResTableAgent" where
  "ReLoad pb rep fs s =
     (case rf_list fs of
        None \<Rightarrow> Inr (-1, s)
      | Some files \<Rightarrow>
          let s = s\<lparr>m_mpAllNameTables := Map.empty, m_iLoadResNum := 0, m_mpNameCacheTable := Map.empty,
                    m_mpRawMetaResTable := Map.empty\<rparr> in
          if \<not> rf_create fs then Inr (-1, s) else load_files pb rep fs files s)"

definition ResTable_Init ::
  "'o protobuf \<Rightarrow> ('o \<Rightarrow> string \<Rightarrow> 'o list) \<Rightarrow> res_files \<Rightarrow> string \<Rightarrow> 'o ResTableAgent \<Rightarrow> fault + int \<times> 'o ResTableAgent" where
  "ResTable_Init pb rep fs dir s = ReLoad pb rep fs (s\<lparr>m_strResDataDir := dir\<rparr>)"

section \<open>Looking up\<close>

definition in_table ::
  "'o protobuf \<Rightarrow> (u64 \<Rightarrow> (u64 \<times> 'o) list \<Rightarrow> 'o option) \<Rightarrow> string \<Rightarrow> 'o \<Rightarrow> 'o ResTableAgent \<Rightarrow> fault + 'o option" where
  "in_table pb search name obj s =
     (case m_mpAllNameTables s name of
        None \<Rightarrow> Inr None
      | Some tbl \<Rightarrow> bindE (GetResTableEntryKey pb obj) (\<lambda>ulKey. Inr (search ulKey tbl)))"

definition Find :: "'o protobuf \<Rightarrow> string \<Rightarrow> 'o \<Rightarrow> 'o ResTableAgent \<Rightarrow> fault + 'o option" where
  "Find pb = in_table pb (\<lambda>k tbl. map_of tbl k)"

definition LowerBound :: "'o protobuf \<Rightarrow> string \<Rightarrow> 'o \<Rightarrow> 'o ResTableAgent \<Rightarrow> fault + 'o option" where
  "LowerBound pb = in_table pb (\<lambda>k tbl. map_option snd (lower_bound k tbl))"

definition UpperBound :: "'o protobuf \<Rightarrow> string \<Rightarrow> 'o \<Rightarrow> 'o ResTableAgent \<Rightarrow> fault + 'o option" where
  "UpperBound pb = in_table pb (\<lambda>k tbl. map_option snd (upper_bound k tbl))"

definition GetAll :: "string \<Rightarrow> 'o ResTableAgent \<Rightarrow> 'o list \<times> 'o ResTableAgent" where
  "GetAll name s =
     (case m_mpNameCacheTable s name of
        Some vec \<Rightarrow> (vec, s)
      | None \<Rightarrow>
          let vec = (case m_mpAllNameTables s name of None \<Rightarrow> [] | Some tbl \<Rightarrow> map snd tbl) in
          (vec, s\<lparr>m_mpNameCacheTable := (m_mpNameCacheTable s)(name \<mapsto> vec)\<rparr>))"

text \<open>\<open>r\<close> is the value of \<open>rand()\<close>.\<close>

definition Random :: "nat \<Rightarrow> string \<Rightarrow> 'o ResTableAgent \<Rightarrow> 'o option \<times> 'o ResTableAgent" where
  "Random r name s =
     (case GetAll name s of (vec, s') \<Rightarrow> (if vec = [] then None else Some (vec ! (r mod length vec)), s'))"

section \<open>Keys of two columns\<close>

text \<open>Two key columns are packed so that the order of the keys is the lexicographic one.\<close>

lemma push32_or: "uint (push_bit 32 (ucast (a :: u32)) OR ucast (b :: u32) :: u64) = uint a * 4294967296 + uint b"
proof -
  have d: "push_bit 32 (ucast a) AND ucast b = (0 :: u64)"
    by (rule bit_word_eqI) (auto simp: bit_simps dest: bit_imp_le_length)
  have "push_bit 32 (ucast a) OR ucast b = push_bit 32 (ucast a) + (ucast b :: u64)"
    using disjunctive_add [of "push_bit 32 (ucast a) :: u64" "ucast b"] d
    by (metis bit_and_iff bit_0_eq bot_apply bot_bool_def)
  moreover have "uint (push_bit 32 (ucast a) :: u64) = uint a * 4294967296"
    using uint_bounded [of a]
    by (simp add: push_bit_eq_mult uint_word_ariths unsigned_ucast_eq take_bit_int_eq_self take_bit_eq_mod)
  moreover have "uint (ucast b :: u64) = uint b"
    using uint_bounded [of b] by (simp add: unsigned_ucast_eq take_bit_int_eq_self)
  ultimately show ?thesis
    using uint_bounded [of a] uint_bounded [of b] by (simp add: uint_word_ariths)
qed

lemma two_column_key:
  assumes "primary_key (pb_GetDescriptor pb obj) = [p, q]"
    and "GetObjectField pb CPPTYPE_UINT32 obj p = Inr (Some (PUInt32 a))"
    and "GetObjectField pb CPPTYPE_UINT32 obj q = Inr (Some (PUInt32 b))"
  shows "\<exists>k. GetResTableEntryKey pb obj = Inr k \<and> uint k = uint a * 4294967296 + uint b"
proof -
  have "push_bit 32 (0 :: u64) OR ucast a = ucast a" by simp
  then show ?thesis using assms push32_or [of a b] by (simp add: GetResTableEntryKey_def)
qed

section \<open>Loaded tables\<close>

text \<open>A table that holds the entries \<open>es\<close>, each under its key.\<close>

definition table_of :: "'o protobuf \<Rightarrow> 'o list \<Rightarrow> (u64 \<times> 'o) list \<Rightarrow> bool" where
  "table_of pb es tbl \<longleftrightarrow> smap_ok tbl \<and> mset (map snd tbl) = mset es
     \<and> (\<forall>k e. map_of tbl k = Some e \<longrightarrow> GetResTableEntryKey pb e = Inr k)"

lemma mset_smap_insert:
  assumes "map_of m k = None"
  shows "mset (smap_insert k v m) = add_mset (k, v) (mset m)"
proof -
  have "k \<notin> fst ` set m" using assms by (simp add: map_of_eq_None_iff)
  then have "filter (\<lambda>x. \<not> fst x \<le> k) m = filter (\<lambda>x. \<not> fst x < k) m"
    by (intro filter_cong) (auto simp: image_iff order_less_le)
  moreover have "mset (filter (\<lambda>x. fst x < k) m) + mset (filter (\<lambda>x. \<not> fst x < k) m) = mset m"
    by (simp flip: multiset_partition add: mset_filter)
  ultimately show ?thesis by (simp add: smap_insert_def)
qed

lemma insert_entries_ok:
  "insert_entries pb es tbl n = Inr (True, tbl', n') \<Longrightarrow> table_of pb ds tbl \<Longrightarrow>
     table_of pb (ds @ es) tbl' \<and> n' = n + int (length es)"
proof (induction es arbitrary: tbl n ds)
  case (Cons e es)
  then obtain k where k: "GetResTableEntryKey pb e = Inr k" "map_of tbl k = None"
      "insert_entries pb es (smap_insert k e tbl) (n + 1) = Inr (True, tbl', n')"
    by (auto simp: bindE_Inr split: if_splits)
  have "mset (map snd (smap_insert k e tbl)) = mset (ds @ [e])"
    using Cons.prems(2) mset_smap_insert [OF k(2), of e] by (simp add: table_of_def)
  then have "table_of pb (ds @ [e]) (smap_insert k e tbl)"
    using Cons.prems(2) k(1) smap.insert_ok [of tbl k e] by (auto simp: table_of_def map_of_smap_insert)
  from Cons.IH [OF k(3) this] show ?case by simp
qed (simp add: table_of_def)

text \<open>The entries of the file \<open>f\<close> of the directory.\<close>

definition file_entries :: "'o protobuf \<Rightarrow> ('o \<Rightarrow> string \<Rightarrow> 'o list) \<Rightarrow> res_files \<Rightarrow> string \<Rightarrow> string \<Rightarrow> 'o list" where
  "file_entries pb rep fs dir f =
     (case UnPack pb (''res.'' @ rf_stem fs f) (rf_read fs (dir @ ''/'' @ f)) of
        (_, Some obj) \<Rightarrow> rep obj ''list''
      | _ \<Rightarrow> [])"

lemma load_file_ok:
  assumes "load_file pb rep fs f s = Inr (0, s')" "m_mpAllNameTables s (rf_stem fs f) = None"
  shows "\<exists>tbl. m_mpAllNameTables s' = (m_mpAllNameTables s)(rf_stem fs f \<mapsto> tbl)
    \<and> table_of pb (file_entries pb rep fs (m_strResDataDir s) f) tbl
    \<and> m_iLoadResNum s' = m_iLoadResNum s + int (length (file_entries pb rep fs (m_strResDataDir s) f))
    \<and> m_strResDataDir s' = m_strResDataDir s \<and> m_mpNameCacheTable s' = m_mpNameCacheTable s"
proof -
  obtain obj tbl n where o: "UnPack pb (''res.'' @ rf_stem fs f) (rf_read fs (m_strResDataDir s @ ''/'' @ f)) = (0, Some obj)"
      "insert_entries pb (rep obj ''list'') [] (m_iLoadResNum s) = Inr (True, tbl, n)"
      "s' = s\<lparr>m_mpRawMetaResTable := (m_mpRawMetaResTable s)(rf_stem fs f \<mapsto> obj),
              m_mpAllNameTables := (m_mpAllNameTables s)(rf_stem fs f \<mapsto> tbl), m_iLoadResNum := n\<rparr>"
    using assms by (auto simp: load_file_def Let_def bindE_Inr split: if_splits option.splits prod.splits)
  have "table_of pb [] []" by (simp add: table_of_def)
  from insert_entries_ok [OF o(2) this] show ?thesis using o(1,3) by (intro exI [of _ tbl]) (simp add: file_entries_def)
qed

lemma load_files_ok:
  assumes "load_files pb rep fs files s = Inr (0, s')" "distinct (map (rf_stem fs) files)"
    and "\<forall>f\<in>set files. m_mpAllNameTables s (rf_stem fs f) = None"
  shows "(\<forall>f\<in>set files. \<exists>tbl. m_mpAllNameTables s' (rf_stem fs f) = Some tbl
        \<and> table_of pb (file_entries pb rep fs (m_strResDataDir s) f) tbl)
    \<and> (\<forall>t. t \<notin> rf_stem fs ` set files \<longrightarrow> m_mpAllNameTables s' t = m_mpAllNameTables s t)
    \<and> m_iLoadResNum s' = m_iLoadResNum s
        + int (sum_list (map (\<lambda>f. length (file_entries pb rep fs (m_strResDataDir s) f)) files))
    \<and> m_mpNameCacheTable s' = m_mpNameCacheTable s"
  using assms
proof (induction files arbitrary: s)
  case (Cons f files)
  then obtain s1 where s1: "load_file pb rep fs f s = Inr (0, s1)" "load_files pb rep fs files s1 = Inr (0, s')"
    by (auto simp: bindE_Inr split: if_splits)
  obtain tbl where t: "m_mpAllNameTables s1 = (m_mpAllNameTables s)(rf_stem fs f \<mapsto> tbl)"
      "table_of pb (file_entries pb rep fs (m_strResDataDir s) f) tbl"
      "m_iLoadResNum s1 = m_iLoadResNum s + int (length (file_entries pb rep fs (m_strResDataDir s) f))"
      "m_strResDataDir s1 = m_strResDataDir s" "m_mpNameCacheTable s1 = m_mpNameCacheTable s"
    using load_file_ok [OF s1(1)] Cons.prems(3) by auto
  have f: "rf_stem fs f \<notin> rf_stem fs ` set files" using Cons.prems(2) by simp
  then have n: "\<forall>g\<in>set files. m_mpAllNameTables s1 (rf_stem fs g) = None"
    using Cons.prems(3) t(1) by (auto simp: image_iff)
  show ?case using Cons.IH [OF s1(2) _ n] Cons.prems(2) t f by simp
qed simp

lemma table_of_lookup:
  assumes "table_of pb es tbl"
  shows "map_of tbl j = Some e \<longleftrightarrow> e \<in> set es \<and> GetResTableEntryKey pb e = Inr j"
proof
  assume m: "map_of tbl j = Some e"
  then have "e \<in> set (map snd tbl)" using map_of_SomeD by force
  then show "e \<in> set es \<and> GetResTableEntryKey pb e = Inr j"
    using assms m unfolding table_of_def by (metis set_mset_mset)
next
  assume e: "e \<in> set es \<and> GetResTableEntryKey pb e = Inr j"
  then have "e \<in> set (map snd tbl)" using assms unfolding table_of_def by (metis set_mset_mset)
  then obtain i where "(i, e) \<in> set tbl" by auto
  then have i: "map_of tbl i = Some e" using assms by (simp add: table_of_def smap_ok_distinct)
  then have "i = j" using assms e by (auto simp: table_of_def)
  then show "map_of tbl j = Some e" using i by simp
qed

definition res_key :: "'o protobuf \<Rightarrow> 'o \<Rightarrow> u64 \<Rightarrow> bool" where
  "res_key pb e k \<longleftrightarrow> GetResTableEntryKey pb e = Inr k"

text \<open>The entry with the least key among those with \<open>P\<close>.\<close>

definition least_entry :: "'o protobuf \<Rightarrow> 'o list \<Rightarrow> (u64 \<Rightarrow> bool) \<Rightarrow> 'o \<Rightarrow> bool" where
  "least_entry pb es P e \<longleftrightarrow> e \<in> set es
     \<and> (\<exists>k. res_key pb e k \<and> P k \<and> (\<forall>e'\<in>set es. \<forall>j. res_key pb e' j \<longrightarrow> P j \<longrightarrow> k \<le> j))"

lemma least_entry_iff:
  assumes "table_of pb es tbl" and "\<And>k e. search = Some (k, e) \<longleftrightarrow>
    map_of tbl k = Some e \<and> P k \<and> (\<forall>j. map_of tbl j \<noteq> None \<longrightarrow> P j \<longrightarrow> k \<le> j)"
  shows "map_option snd search = Some e \<longleftrightarrow> least_entry pb es P e"
proof -
  have m: "map_of tbl j \<noteq> None \<longleftrightarrow> (\<exists>e'\<in>set es. res_key pb e' j)" for j
    using table_of_lookup [OF assms(1)] by (auto simp: res_key_def)
  have "map_option snd search = Some e \<longleftrightarrow> (\<exists>k. search = Some (k, e))" by (cases search) auto
  also have "\<dots> \<longleftrightarrow> least_entry pb es P e"
    unfolding assms(2) m least_entry_def table_of_lookup [OF assms(1)] by (auto simp: res_key_def)
  finally show ?thesis .
qed


section \<open>The cache of whole tables\<close>

definition all_entries :: "'o ResTableAgent \<Rightarrow> string \<Rightarrow> 'o list" where
  "all_entries s name = (case m_mpAllNameTables s name of None \<Rightarrow> [] | Some tbl \<Rightarrow> map snd tbl)"

definition cache_valid :: "'o ResTableAgent \<Rightarrow> bool" where
  "cache_valid s \<longleftrightarrow> (\<forall>name vec. m_mpNameCacheTable s name = Some vec \<longrightarrow> vec = all_entries s name)"

text \<open>\<open>GetAll\<close> with its cache returns what is in the table, also after further calls and reloads.\<close>

lemma GetAll_valid:
  assumes "cache_valid s"
  shows "fst (GetAll name s) = all_entries s name" "cache_valid (snd (GetAll name s))"
proof -
  have "all_entries (s\<lparr>m_mpNameCacheTable := c\<rparr>) = all_entries s" for c by (simp add: all_entries_def fun_eq_iff)
  then show "fst (GetAll name s) = all_entries s name" "cache_valid (snd (GetAll name s))"
    using assms by (auto simp: GetAll_def cache_valid_def Let_def simp flip: all_entries_def split: option.split)
qed

lemma load_files_cache: "load_files pb rep fs files s = Inr (r, s') \<Longrightarrow> m_mpNameCacheTable s' = m_mpNameCacheTable s"
proof (induction files arbitrary: s)
  case (Cons f files)
  have "load_file pb rep fs f s = Inr (r, t) \<Longrightarrow> m_mpNameCacheTable t = m_mpNameCacheTable s" for r t
    by (auto simp: load_file_def Let_def bindE_Inr split: if_splits option.splits prod.splits)
  then show ?case using Cons by (auto simp: bindE_Inr split: if_splits)
qed simp

lemma ReLoad_valid:
  assumes "ReLoad pb rep fs s = Inr (r, s')" "cache_valid s"
  shows "cache_valid s'"
proof (cases "rf_list fs")
  case None
  then show ?thesis using assms by (simp add: ReLoad_def)
next
  case (Some files)
  then have "m_mpNameCacheTable s' = Map.empty"
    using assms(1) by (auto simp: ReLoad_def Let_def split: if_splits dest!: load_files_cache)
  then show ?thesis by (simp add: cache_valid_def)
qed

text \<open>A table of heroes with the key columns \<open>kind\<close> and \<open>level\<close>.\<close>

datatype demo_res = Hero u32 u32 | Heroes "demo_res list"

definition demo_field_u32 :: "string \<Rightarrow> FieldDescriptor" where
  "demo_field_u32 n = \<lparr>fld_name = n, cpp_type = CPPTYPE_UINT32, type_name = ''uint32'', message_full_name = [],
     default_value_uint32 = 0\<rparr>"

definition hero_desc :: Descriptor where
  "hero_desc = \<lparr>desc_name = ''Hero'', desc_fields = [demo_field_u32 ''kind'', demo_field_u32 ''level''],
     nested_types = [(''_PrimaryKey'', [demo_field_u32 ''kind'', demo_field_u32 ''level''])]\<rparr>"

definition heroes_desc :: Descriptor where
  "heroes_desc = \<lparr>desc_name = ''Heroes'', desc_fields = [(demo_field_u32 ''list'')\<lparr>cpp_type := CPPTYPE_MESSAGE\<rparr>],
     nested_types = []\<rparr>"

definition res_pb :: "demo_res protobuf" where
  "res_pb = \<lparr>pb_GetDescriptor = (\<lambda>x. case x of Hero _ _ \<Rightarrow> hero_desc | Heroes _ \<Rightarrow> heroes_desc),
     pb_HasField = (\<lambda>_ _. True),
     pb_Get = (\<lambda>x n. case x of Hero a b \<Rightarrow> PUInt32 (if n = ''kind'' then a else b) | Heroes _ \<Rightarrow> PBool False),
     pb_Set = (\<lambda>_ _ x. x), pb_Serialize = (\<lambda>_. None),
     pb_ParseFrom = (\<lambda>s _. Some (Heroes (map (\<lambda>c. Hero 1 (of_nat (of_char c))) s))),
     pb_FindMessageTypeByName = (\<lambda>n. if n = ''res.hero'' then Some heroes_desc else None),
     pb_New = (\<lambda>_. Some (Heroes [])), pb_ByteSize = (\<lambda>_. 0)\<rparr>"

definition demo_files :: res_files where
  "demo_files = \<lparr>rf_list = Some [''hero.bin''], rf_size = (\<lambda>_. 2), rf_read = (\<lambda>_. ''ZA''),
     rf_stem = takeWhile (\<lambda>c. c \<noteq> CHR ''.''), rf_create = True\<rparr>"

definition demo_rep :: "demo_res \<Rightarrow> string \<Rightarrow> demo_res list" where
  "demo_rep x f = (case x of Heroes es \<Rightarrow> es | Hero _ _ \<Rightarrow> [])"

definition demo_tables :: "demo_res ResTableAgent" where
  "demo_tables = \<lparr>m_mpRawMetaResTable = Map.empty, m_mpAllNameTables = Map.empty, m_strResDataDir = ''res'',
     m_iLoadResNum = 0, m_mpNameCacheTable = Map.empty\<rparr>"

lemma hero_key: "GetResTableEntryKey res_pb (Hero a b) = Inr (push_bit 32 (ucast a) OR ucast b)"
  by (simp add: GetResTableEntryKey_def primary_key_def FindNestedTypeByName_def GetObjectField_def FindFieldByName_def
      res_pb_def hero_desc_def demo_field_u32_def)

lemma heroes_unpack: "UnPack res_pb ''res.hero'' s = (0, Some (Heroes (map (\<lambda>c. Hero 1 (of_nat (of_char c))) s)))"
  by (simp add: UnPack_def NewObject_def res_pb_def)

lemma heroes_list: "FindFieldByName (pb_GetDescriptor res_pb (Heroes es)) ''list'' \<noteq> None"
  by (simp add: FindFieldByName_def res_pb_def heroes_desc_def demo_field_u32_def)

lemma heroes_load: "\<exists>s'. ReLoad res_pb demo_rep demo_files demo_tables = Inr (0, s')"
  using heroes_unpack [of "''ZA''"] heroes_list
  by (simp add: ReLoad_def demo_files_def demo_tables_def load_file_def Let_def MAX_TABLE_FILE_SIZE_def
      demo_rep_def hero_key smap_insert_def)

lemma heroes_entries: "file_entries res_pb demo_rep demo_files ''res'' ''hero.bin'' = [Hero 1 90, Hero 1 65]"
  using heroes_unpack [of "''ZA''"] by (simp add: file_entries_def demo_files_def demo_rep_def)


end
