(* ===== verification/Spec2Isabelle.thy ===== *)
theory Spec2Isabelle
  imports ZoneProps GateServer ShareMemory CacheAgent ResTable
begin

text \<open>
  A verification library for the online game server \<open>playground\<close>.

  \<^bold>\<open>The program.\<close>  Clients connect over TCP to a gate (\<open>gate/\<close>).  The gate cuts their bytes into
  frames, authorises them and forwards the frames over message channels (\<open>channel/\<close>, \<open>app/ChannelMsgProxy\<close>) to
  the agent server of their area (\<open>rgtd/zone/\<close>), whose answers go back the same way.  An agent server
  keeps one zone per area with sessions, logins that run as coroutines, and for every role a player
  with logic parts (bag, tasks, periodic save) that talk through an event centre.  Roles and accounts
  are protobuf objects; the data layer (\<open>datacenter/\<close>, \<open>db/\<close>) keeps them in MySQL and redis, loads resource
  tables, and keeps memory across restarts.  Every server is an \<open>App\<close> (\<open>app/\<close>): it reads its context from an
  INI file (\<open>component/\<close>), finds the other servers through a configuration centre, and runs a main loop
  driven by a timer manager.

  \<^bold>\<open>Conventions.\<close>  Unsigned integers are words of their width, so that they wrap; a C++ \<open>int\<close> is an \<open>int\<close>.
  Undefined behaviour and failed assertions are values of type \<open>fault\<close> (theory \<open>Prelude\<close>), and an operation that
  can end in one returns \<open>fault + 'a\<close>.  State is passed explicitly; a pointer is an index into a store
  or an option.  Code that is not in the repository (ZeroMQ, protobuf, hiredis, the MySQL client, iniparser,
  Lua, the sockets, threads and strings of the base library, the operating system) is a parameter of the
  definitions that use it; what is relied on is a named hypothesis, such as \<open>ini_laws\<close>, \<open>server_laws\<close>,
  \<open>pb_laws\<close>, \<open>split_law\<close>, and is shown to hold for a concrete instance in the witnesses.

  \<^bold>\<open>The theories.\<close>

  \<^item> \<open>Prelude\<close>, \<open>Decimal\<close>, \<open>OrderedMap\<close>: machine types, faults, byte order, C strings, the loop that looks for a
    free identifier, printing and reading of numbers, \<open>std::map\<close>; the locales \<open>account\<close>, \<open>ledger\<close>, \<open>registry\<close> and
    \<open>ordered_map\<close>, interpreted by the bag, the channels, the tables and the players.
  \<^item> \<open>TimerMgr\<close> (\<open>component/TimerMgr\<close>): timers with the live iterator of \<open>Expired\<close>.  What is due is fired exactly
    once and in order, the loop ends, and the locale \<open>timer_service\<close> states the contract for the clients.
  \<^item> \<open>EventCodes\<close>, \<open>EventCenter\<close>, \<open>TaskLogic\<close>, \<open>Knapsack\<close>, \<open>Player\<close> (\<open>rgtd/zone/logic\<close>, \<open>account/PlayerAgent\<close>):
    events now and later, tasks, the bag with its conservation laws, the logic parts of a player.
  \<^item> \<open>Channel\<close>, \<open>ChannelProxy\<close> (\<open>channel/\<close>, \<open>app/ChannelMsgProxy\<close>): messages over sockets, envelopes (locale
    \<open>envelope_format\<close>), subscription and dispatch.
  \<^item> \<open>Gate\<close>, \<open>GateInv\<close>, \<open>GateProps\<close> (\<open>gate/GateServerHandler\<close>): the connection tables as a state machine, the
    invariant over every sequence of events, memory safety for arbitrary bytes of clients, forwarding.
  \<^item> \<open>Session\<close>, \<open>ZoneAgent\<close>, \<open>ZoneInv\<close>, \<open>ZoneProps\<close> (\<open>rgtd/zone\<close>): sessions and zones, the login and logout coroutines
    cut at their yields, dispatch of client messages; consistency of all objects over every run.
  \<^item> \<open>MysqlMeta\<close>, \<open>MysqlProxy\<close>, \<open>MysqlAgent\<close> (\<open>db/\<close>): SQL text, one connection, and the worker threads as
    interleaved atomic steps with a refinement to a queue.
  \<^item> \<open>MetaSerializer\<close>, \<open>DataCommon\<close>, \<open>DBAgent\<close>, \<open>DBAgentProps\<close>, \<open>RedisAgent\<close>, \<open>CacheAgent\<close>, \<open>ResTable\<close>, \<open>ShareMemory\<close>
    (\<open>datacenter/\<close>): objects to rows and back, requests and listeners, the redis client with its
    callbacks and timeouts, cached objects, resource tables, memory that survives a restart.
  \<^item> \<open>Config\<close>, \<open>AppCtx\<close> (\<open>component/\<close>, \<open>datacenter/ConfigCenter\<close>, \<open>app/AppContext\<close>, \<open>gate/GateServerContext\<close>, the
    context of \<open>rgtd/zone/AgentApp\<close>): configuration trees, default files, names of channels, the table of areas.
  \<^item> \<open>AppMain\<close>, \<open>GateServer\<close> (\<open>app/App\<close>, \<open>gate/GateServer\<close>): command lines, signals, lock file, main loop, and
    the gate as an application: from its configuration to its channels, and how it shuts down.

  \<^bold>\<open>What the properties show.\<close>  Invariants: tables of the gate, objects of a zone, requests and callbacks
  answered once, conservation of items.  Safety: no client byte reaches memory outside its buffer, no message of
  a gate meets a null pointer, regions of shared memory do not overlap, cache keys of different objects
  differ.  Function: each of the main operations on every branch (put and remove items, timers, events,
  forwarding, resource lookup, routing by area, resolution of names).  Round trips: object to row, object
  to cache, number to column, envelope, configuration tree, lock file, restart of shared memory.  Liveness and
  termination: logins complete, requests call back, \<open>Expired\<close> drains.  Some state what the code does against
  its intention, for instance that every polled channel message is dropped, or that the gate ends too
  early or never; these are also listed as findings.

  \<^bold>\<open>Bounds and fuel.\<close>  Loops that search for a free identifier use \<open>probe\<close>, which returns \<open>None\<close> only when there is
  none, and it is proved that there is one.  \<open>Expired\<close> and \<open>OnClientDataRecv\<close> are partial functions with proofs that
  they return.  \<open>GetConfig\<close> has a depth argument; two is enough for every file (\<open>ReadConfigFile_returns\<close>).
  \<open>main_loop\<close> runs over a list of rounds, each with the signals and datagrams that arrive in it, and says
  whether it has ended; nothing bounds the list.  \<open>OnCoreDump\<close> has a bound because it need not end.

  \<^bold>\<open>Not modelled.\<close>  Release of memory and sockets (\<open>Destroy\<close> of most components); log output; becoming a daemon;
  the Lua binding (\<open>rgtd/zone/lua\<close>), which only calls the Lua library; the code that protobuf generates
  (\<open>proto/gen\<close>) and the vendored libraries (\<open>dep/\<close>); \<open>component/ProtoConfigParser.h\<close>, which does not compile and is not
  used; the load-test and console clients, the tests and the benchmark.
\<close>

end
